(* ===== verification/Relay_Prelude.thy ===== *)
theory Relay_Prelude
  imports Main "HOL-Library.Word" "HOL-Library.Sublist"
begin

text \<open>
  Shared vocabulary of the development: the machine types the C++ code uses, the byte-level
  view of \<open>std::memcpy\<close> on a little-endian host, \<open>std::unordered_map\<close> as an association
  list, and the lemma collections the component theories add to.

  \<^item> \<open>umap\<close> models \<open>std::unordered_map\<close>.  The list order stands for the iteration order,
    which the C++ standard leaves open; no lemma depends on a particular one.
  \<^item> \<open>le_nat\<close> and \<open>le_bytes\<close> model copying an integer to and from its object
    representation on x86 (the server and the game both run there).
\<close>

unbundle bit_operations_syntax

type_synonym byte = "8 word"
type_synonym bytes = "byte list"
type_synonym u16 = "16 word"
type_synonym u32 = "32 word"
type_synonym u64 = "64 word"

named_theorems um_simps \<open>rewrite rules of the unordered map\<close>
named_theorems wire_simps \<open>rewrite rules of the wire format\<close>
named_theorems hist_simps \<open>how an operation extends the system-call history\<close>
named_theorems frame_simps \<open>state components an operation leaves alone\<close>


section \<open>Unordered maps\<close>

type_synonym ('k, 'v) umap = "('k \<times> 'v) list"

definition um_find :: "('k, 'v) umap \<Rightarrow> 'k \<Rightarrow> 'v option" where
  "um_find m k = map_of m k"

fun um_set :: "'k \<Rightarrow> 'v \<Rightarrow> ('k, 'v) umap \<Rightarrow> ('k, 'v) umap" where
  "um_set k v [] = [(k, v)]"
| "um_set k v ((a, b) # m) = (if a = k then (k, v) # m else (a, b) # um_set k v m)"

definition um_emplace :: "'k \<Rightarrow> 'v \<Rightarrow> ('k, 'v) umap \<Rightarrow> ('k, 'v) umap" where
  "um_emplace k v m = (if um_find m k = None then m @ [(k, v)] else m)"

definition um_erase :: "'k \<Rightarrow> ('k, 'v) umap \<Rightarrow> ('k, 'v) umap" where
  "um_erase k m = filter (\<lambda>e. fst e \<noteq> k) m"

definition um_size :: "('k, 'v) umap \<Rightarrow> nat" where
  "um_size m = length m"

definition um_wf :: "('k, 'v) umap \<Rightarrow> bool" where
  "um_wf m \<longleftrightarrow> distinct (map fst m)"

text \<open>
  The contract of the container that the two connection tables and the mark table rely on.
  Everything the components use of it follows from these laws.
\<close>

locale unordered_map =
  fixes empty :: 'm
    and find :: "'m \<Rightarrow> 'k \<Rightarrow> 'v option"
    and set_at :: "'k \<Rightarrow> 'v \<Rightarrow> 'm \<Rightarrow> 'm"
    and erase :: "'k \<Rightarrow> 'm \<Rightarrow> 'm"
    and size_of :: "'m \<Rightarrow> nat"
    and wf :: "'m \<Rightarrow> bool"
  assumes find_empty: "find empty k = None"
    and find_set: "find (set_at k v m) j = (if j = k then Some v else find m j)"
    and find_erase: "find (erase k m) j = (if j = k then None else find m j)"
    and wf_empty: "wf empty"
    and wf_set: "wf m \<Longrightarrow> wf (set_at k v m)"
    and wf_erase: "wf m \<Longrightarrow> wf (erase k m)"
    and size_card: "wf m \<Longrightarrow> size_of m = card {k. find m k \<noteq> None}"
    and finite_keys: "finite {k. find m k \<noteq> None}"
begin

lemma find_set_same: "find (set_at k v m) k = Some v"
  by (simp add: find_set)

lemma find_set_other: "j \<noteq> k \<Longrightarrow> find (set_at k v m) j = find m j"
  by (simp add: find_set)

lemma find_erase_other: "j \<noteq> k \<Longrightarrow> find (erase k m) j = find m j"
  by (simp add: find_erase)

lemma erase_SomeD: "find (erase k m) j = Some v \<Longrightarrow> j \<noteq> k \<and> find m j = Some v"
  by (simp add: find_erase split: if_splits)

lemma size_set_present:
  assumes "wf m" and "find m k \<noteq> None"
  shows "size_of (set_at k v m) = size_of m"
proof -
  have "{j. find (set_at k v m) j \<noteq> None} = {j. find m j \<noteq> None}"
    using assms(2) by (auto simp: find_set)
  then show ?thesis using assms(1) by (simp add: size_card wf_set)
qed

lemma size_set_absent:
  assumes "wf m" and "find m k = None"
  shows "size_of (set_at k v m) = Suc (size_of m)"
proof -
  have "{j. find (set_at k v m) j \<noteq> None} = insert k {j. find m j \<noteq> None}"
    by (auto simp: find_set)
  then show ?thesis
    using assms finite_keys [of m] by (simp only: size_card wf_set) (simp add: card_insert_if)
qed

lemma size_erase_le:
  assumes "wf m"
  shows "size_of (erase k m) \<le> size_of m"
proof -
  have "{j. find (erase k m) j \<noteq> None} \<subseteq> {j. find m j \<noteq> None}"
    by (auto simp: find_erase)
  then show ?thesis
    using assms finite_keys [of m] by (simp only: size_card wf_erase) (rule card_mono)
qed

end

lemma um_find_Nil [simp]: "um_find [] k = None"
  by (simp add: um_find_def)

lemma um_find_Cons [simp]: "um_find ((a, b) # m) k = (if a = k then Some b else um_find m k)"
  by (simp add: um_find_def)

lemma um_find_append:
  "um_find (m @ n) k = (case um_find m k of Some v \<Rightarrow> Some v | None \<Rightarrow> um_find n k)"
  by (simp add: um_find_def map_add_def split: option.splits)

lemma um_find_um_set: "um_find (um_set k v m) j = (if j = k then Some v else um_find m j)"
  by (induction k v m rule: um_set.induct) auto

lemma um_find_um_erase: "um_find (um_erase k m) j = (if j = k then None else um_find m j)"
  by (induction m) (auto simp: um_erase_def)

lemma um_find_None_iff: "um_find m k = None \<longleftrightarrow> k \<notin> fst ` set m"
  by (simp add: um_find_def map_of_eq_None_iff)

lemma um_find_keys: "{k. um_find m k \<noteq> None} = fst ` set m"
  unfolding um_find_def dom_def [symmetric] by (rule dom_map_of_conv_image_fst)

lemma um_find_member: "um_find m k = Some v \<Longrightarrow> (k, v) \<in> set m"
  by (simp add: um_find_def map_of_SomeD)

lemma um_member_find: "um_wf m \<Longrightarrow> (k, v) \<in> set m \<Longrightarrow> um_find m k = Some v"
  by (simp add: um_wf_def um_find_def)

lemma keys_um_set: "fst ` set (um_set k v m) = insert k (fst ` set m)"
  by (induction k v m rule: um_set.induct) auto

lemma um_wf_um_set: "um_wf m \<Longrightarrow> um_wf (um_set k v m)"
  unfolding um_wf_def by (induction k v m rule: um_set.induct) (auto simp: keys_um_set image_iff)

lemma um_wf_um_erase: "um_wf m \<Longrightarrow> um_wf (um_erase k m)"
  by (simp add: um_wf_def um_erase_def distinct_map_filter)

interpretation um: unordered_map "[]" um_find um_set um_erase um_size um_wf
proof unfold_locales
  fix m :: "('k, 'v) umap"
  show "finite {k. um_find m k \<noteq> None}" by (simp only: um_find_keys) simp
  assume "um_wf m"
  then have "card (set (map fst m)) = length (map fst m)"
    unfolding um_wf_def by (rule distinct_card)
  then show "um_size m = card {k. um_find m k \<noteq> None}"
    by (simp only: um_find_keys) (simp add: um_size_def)
next
  show "um_wf []" by (simp add: um_wf_def)
qed (simp_all add: um_find_um_set um_find_um_erase um_wf_um_set um_wf_um_erase)

lemmas [um_simps] = um_find_um_set um_find_um_erase um_wf_um_set um_wf_um_erase
declare um_find_um_set [simp] um_find_um_erase [simp]

lemma map_of_map_key: "map_of (map (\<lambda>(j, v). (j, f j v)) m) k = map_option (f k) (map_of m k)"
  by (induction m) auto

lemma um_find_map_snd:
  "um_find (map (\<lambda>(j, v). (j, f j v)) m) k = map_option (f k) (um_find m k)"
  by (simp add: um_find_def map_of_map_key)

lemma um_find_um_emplace:
  "um_find (um_emplace k v m) j =
     (if j = k then Some (case um_find m k of None \<Rightarrow> v | Some w \<Rightarrow> w) else um_find m j)"
  by (auto simp: um_emplace_def um_find_append split: option.splits)

lemma um_erase_Nil [simp]: "um_erase k [] = []"
  by (simp add: um_erase_def)

lemma um_wf_um_emplace: "um_wf m \<Longrightarrow> um_wf (um_emplace k v m)"
  by (auto simp: um_emplace_def um_wf_def um_find_None_iff)


section \<open>Lists\<close>

lemma append_split_cases:
  assumes "xs @ ys = us @ vs"
  obtains (longer) zs where "xs = us @ zs" "zs @ ys = vs"
    | (shorter) r where "r \<noteq> []" "us = xs @ r"
proof -
  from assms consider zs where "xs = us @ zs" "zs @ ys = vs" | zs where "xs @ zs = us" "ys = zs @ vs"
    by (auto simp: append_eq_append_conv2)
  then show thesis
  proof cases
    case 1
    then show thesis by (rule longer)
  next
    case 2
    then show thesis using longer [of "[]"] shorter [of zs] by (cases "zs = []") auto
  qed
qed

lemma take_drop_split3: "take a xs @ drop a (take (a + b) xs) @ drop (a + b) xs = xs"
proof -
  have "drop a (take (a + b) xs) @ drop (a + b) xs = take b (drop a xs) @ drop b (drop a xs)"
    by (simp add: drop_take add.commute)
  also have "\<dots> = drop a xs" by (rule append_take_drop_id)
  finally show ?thesis by simp
qed


section \<open>Machine words\<close>

lemma unat_bound: "unat (w :: 'a::len word) < 2 ^ LENGTH('a)"
  by (rule unsigned_less)


section \<open>Object representation on a little-endian host\<close>

fun le_nat :: "bytes \<Rightarrow> nat" where
  "le_nat [] = 0"
| "le_nat (b # bs) = unat b + 256 * le_nat bs"

primrec le_bytes :: "nat \<Rightarrow> nat \<Rightarrow> bytes" where
  "le_bytes 0 x = []"
| "le_bytes (Suc n) x = word_of_nat (x mod 256) # le_bytes n (x div 256)"

lemma length_le_bytes [simp]: "length (le_bytes n x) = n"
  by (induction n arbitrary: x) auto

lemma le_nat_bound: "le_nat bs < 256 ^ length bs"
proof (induction bs)
  case (Cons b bs)
  have "unat b < 256" using unat_bound [of b] by simp
  with Cons.IH have "unat b + 256 * le_nat bs < 256 + 256 * (256 ^ length bs - 1)"
    by (intro add_less_le_mono) auto
  also have "\<dots> = 256 ^ length (b # bs)" by (simp add: algebra_simps)
  finally show ?case by simp
qed simp

lemma unat_byte_of_nat: "unat (word_of_nat (x mod 256) :: byte) = x mod 256"
  by (simp add: unat_of_nat)

lemma le_nat_le_bytes: "le_nat (le_bytes n x) = x mod 256 ^ n"
proof (induction n arbitrary: x)
  case (Suc n)
  have "x mod (256 * 256 ^ n) = 256 * (x div 256 mod 256 ^ n) + x mod 256"
    by (simp add: mod_mult2_eq)
  then show ?case by (simp add: Suc.IH unat_byte_of_nat)
qed simp

lemma le_bytes_le_nat: "le_bytes (length bs) (le_nat bs) = bs"
proof (induction bs)
  case (Cons b bs)
  have "unat b < 256" using unat_bound [of b] by simp
  then have "(unat b + 256 * le_nat bs) mod 256 = unat b"
    and "(unat b + 256 * le_nat bs) div 256 = le_nat bs" by simp_all
  then show ?case using Cons.IH by simp
qed simp

lemma le_nat_inject: "length xs = length ys \<Longrightarrow> le_nat xs = le_nat ys \<longleftrightarrow> xs = ys"
  by (metis le_bytes_le_nat)


section \<open>Fixed-size buffers\<close>

text \<open>\<open>memcpy\<close> into a buffer at an offset, and \<open>memmove\<close> of a range to the front.\<close>

definition memcpy_at :: "nat \<Rightarrow> 'a list \<Rightarrow> 'a list \<Rightarrow> 'a list" where
  "memcpy_at off src buf = take off buf @ src @ drop (off + length src) buf"

lemma length_memcpy_at:
  "off + length src \<le> length buf \<Longrightarrow> length (memcpy_at off src buf) = length buf"
  by (simp add: memcpy_at_def)

lemma take_memcpy_at:
  "off \<le> length buf \<Longrightarrow> take (off + length src) (memcpy_at off src buf) = take off buf @ src"
  by (simp add: memcpy_at_def min_def)

lemma take_memcpy_at_0: "take (length src) (memcpy_at 0 src buf) = src"
  by (simp add: memcpy_at_def)

lemma memcpy_at_append: "memcpy_at (length xs) src (xs @ ys) = xs @ memcpy_at 0 src ys"
  by (simp add: memcpy_at_def)

lemma memcpy_at_exact [simp]: "length src = length buf \<Longrightarrow> memcpy_at 0 src buf = src"
  by (simp add: memcpy_at_def)

end
