(* ===== verification/Wire_Codec.thy ===== *)
theory Wire_Codec
  imports Relay_Prelude
begin

text \<open>
  The wire format shared by the relay server and the client library: a four byte little-endian
  length followed by that many bytes.  Here are the codec routines of both programs
  (\<open>read_packet_length\<close>, \<open>write_packet_length\<close> and \<open>mark_to_key\<close> of
  \<open>server/main.cpp\<close>, \<open>createSendFrame\<close> of \<open>src/connection_manager.cpp\<close>), their round
  trips, and the interface \<open>framing\<close> that a parser of the format offers: from it follows, once
  and for all, that the packets recovered from a stream do not depend on how the network cuts
  the stream into chunks.
\<close>

section \<open>Constants of the relay server\<close>

definition MAX_CONNECTIONS :: nat where "MAX_CONNECTIONS = 4"
definition BUFFER_SIZE :: nat where "BUFFER_SIZE = 65536"
definition MAX_PACKET_SIZE :: u32 where "MAX_PACKET_SIZE = 65535"
definition LENGTH_SIZE :: nat where "LENGTH_SIZE = 4"
definition MARK_SIZE :: nat where "MARK_SIZE = 8"


section \<open>Codec routines\<close>

definition read_packet_length :: "bytes \<Rightarrow> u32" where
  "read_packet_length buf =
     ucast (buf ! 0) OR
     push_bit 8 (ucast (buf ! 1)) OR
     push_bit 16 (ucast (buf ! 2)) OR
     push_bit 24 (ucast (buf ! 3))"

text \<open>The C++ routine writes through a pointer; \<open>off\<close> is where that pointer stands in \<open>buf\<close>.\<close>

definition write_packet_length :: "nat \<Rightarrow> u32 \<Rightarrow> bytes \<Rightarrow> bytes" where
  "write_packet_length off len buf =
     buf[off := ucast (len AND 0xFF),
         off + 1 := ucast (drop_bit 8 len AND 0xFF),
         off + 2 := ucast (drop_bit 16 len AND 0xFF),
         off + 3 := ucast (drop_bit 24 len AND 0xFF)]"

definition mark_to_key :: "bytes \<Rightarrow> u64" where
  "mark_to_key mark = word_of_nat (le_nat (take MARK_SIZE mark))"

definition createSendFrame :: "bytes \<Rightarrow> u32 \<Rightarrow> bytes" where
  "createSendFrame dat sz =
     [ucast (sz AND 0xFF),
      ucast (drop_bit 8 sz AND 0xFF),
      ucast (drop_bit 16 sz AND 0xFF),
      ucast (drop_bit 24 sz AND 0xFF)] @ take (unat sz) dat"

text \<open>The format itself, as a specification: length, then payload.\<close>

definition frame :: "bytes \<Rightarrow> bytes" where
  "frame p = le_bytes 4 (length p) @ p"


section \<open>Round trips\<close>

lemma ucast_and_255: "ucast ((x :: u32) AND 0xFF) = (ucast x :: byte)"
proof -
  have m: "(0xFF :: u32) = mask 8" by (simp add: mask_eq_exp_minus_1)
  show ?thesis by (simp only: m) (rule bit_word_eqI, simp add: bit_simps)
qed

lemmas bit_bytes = bit_or_iff bit_push_bit_iff bit_unsigned_iff bit_drop_bit_eq

definition length_bytes :: "u32 \<Rightarrow> bytes" where
  "length_bytes len =
     [ucast len, ucast (drop_bit 8 len), ucast (drop_bit 16 len), ucast (drop_bit 24 len)]"

lemma length_length_bytes [simp]: "length (length_bytes len) = 4"
  by (simp add: length_bytes_def)

lemma read_length_bytes [simp]: "read_packet_length (length_bytes n @ xs) = n"
proof (rule bit_word_eqI)
  fix i assume "i < LENGTH(32)"
  then consider "i < 8" | "8 \<le> i" "i < 16" | "16 \<le> i" "i < 24" | "24 \<le> i" "i < 32"
    by fastforce
  then show "bit (read_packet_length (length_bytes n @ xs)) i = bit n i"
    by cases (auto simp: read_packet_length_def length_bytes_def bit_bytes)
qed

lemma length_bytes_read4: "length_bytes (read_packet_length (a # b # c # d # xs)) = [a, b, c, d]"
  by (simp add: length_bytes_def read_packet_length_def)
    (intro conjI; rule bit_word_eqI; simp add: bit_bytes; auto dest: bit_imp_le_length)

lemma list_len4E:
  assumes "4 \<le> length xs"
  obtains a b c d ys where "xs = a # b # c # d # ys"
  using assms by (auto simp: Suc_le_length_iff numeral_eq_Suc)

lemma length_bytes_read:
  assumes "4 \<le> length buf"
  shows "length_bytes (read_packet_length buf) = take 4 buf"
proof -
  obtain a b c d ys where "buf = a # b # c # d # ys" using assms by (rule list_len4E)
  then show ?thesis by (simp add: length_bytes_read4)
qed

lemma write_packet_length_append:
  assumes "length zs = 4"
  shows "write_packet_length (length xs) len (xs @ zs @ ys) = xs @ length_bytes len @ ys"
proof -
  have "4 \<le> length zs" using assms by simp
  then obtain a b c d ws where zs: "zs = a # b # c # d # ws" by (rule list_len4E)
  with assms have ws: "ws = []" by simp
  show ?thesis
    unfolding zs ws write_packet_length_def length_bytes_def
    by (simp add: list_update_append ucast_and_255 numeral_2_eq_2 numeral_3_eq_3)
qed

lemma unat_ucast_byte: "unat (ucast (x :: u32) :: byte) = unat x mod 256"
  by (simp add: unsigned_ucast_eq take_bit_eq_mod)

lemma unat_drop_bit_u32: "unat (drop_bit n (x :: u32)) = unat x div 2 ^ n"
proof -
  have "take_bit 32 (unat x) = unat x" using unat_bound [of x] by (simp add: take_bit_nat_eq_self)
  then show ?thesis by (simp only: unsigned_drop_bit_eq) (simp add: drop_bit_eq_div)
qed

lemma ucast_byte_of_nat: "(ucast (x :: u32) :: byte) = word_of_nat (unat x mod 256)"
  by (simp add: unat_ucast_byte [symmetric])

lemma le_bytes_4:
  "le_bytes 4 x = [word_of_nat (x mod 256), word_of_nat (x div 256 mod 256),
     word_of_nat (x div 256 div 256 mod 256), word_of_nat (x div 256 div 256 div 256 mod 256)]"
proof -
  have "(4 :: nat) = Suc (Suc (Suc (Suc 0)))" by simp
  then show ?thesis by (simp only: le_bytes.simps)
qed

lemma length_bytes_le_bytes: "length_bytes n = le_bytes 4 (unat n)"
  using div_mult2_eq [of "unat n" 256 256] div_mult2_eq [of "unat n" 65536 256]
  by (simp only: length_bytes_def le_bytes_4 ucast_byte_of_nat unat_drop_bit_u32) simp

lemma le_nat_length_bytes: "le_nat (length_bytes n) = unat n"
  using unat_bound [of n] by (simp add: length_bytes_le_bytes le_nat_le_bytes)

lemma unat_read_packet_length:
  assumes "4 \<le> length buf"
  shows "unat (read_packet_length buf) = le_nat (take 4 buf)"
  using length_bytes_read [OF assms] le_nat_length_bytes [of "read_packet_length buf"] by simp

lemma createSendFrame_eq: "createSendFrame dat sz = length_bytes sz @ take (unat sz) dat"
  by (simp add: createSendFrame_def length_bytes_def ucast_and_255)

lemma frame_eq_length_bytes:
  "length p < 2 ^ 32 \<Longrightarrow> frame p = length_bytes (word_of_nat (length p)) @ p"
  by (simp add: frame_def length_bytes_le_bytes unat_of_nat)

lemma createSendFrame_frame: "unat sz = length dat \<Longrightarrow> createSendFrame dat sz = frame dat"
  by (simp add: createSendFrame_eq frame_def length_bytes_le_bytes)

lemma length_frame [simp]: "length (frame p) = 4 + length p"
  by (simp add: frame_def)

lemma read_frame:
  "length p < 2 ^ 32 \<Longrightarrow> read_packet_length (frame p @ rest) = word_of_nat (length p)"
  by (simp add: frame_eq_length_bytes)

lemma take4_frame: "take 4 (frame p @ rest) = le_bytes 4 (length p)"
  by (simp add: frame_def)

lemma read_packet_length_prefix:
  assumes "4 \<le> length xs"
  shows "read_packet_length (xs @ ys) = read_packet_length xs"
proof -
  obtain a b c d zs where "xs = a # b # c # d # zs" using assms by (rule list_len4E)
  then show ?thesis by (simp add: read_packet_length_def)
qed

text \<open>Marks: the key of the table determines the eight bytes it was made from.\<close>

lemma unat_mark_to_key:
  assumes "length m = 8"
  shows "unat (mark_to_key m) = le_nat m"
proof -
  have "le_nat m < 256 ^ 8" using le_nat_bound [of m] assms by simp
  then show ?thesis using assms by (simp add: mark_to_key_def MARK_SIZE_def unat_of_nat)
qed

lemma mark_to_key_inject:
  "length m = 8 \<Longrightarrow> length n = 8 \<Longrightarrow> mark_to_key m = mark_to_key n \<longleftrightarrow> m = n"
  by (metis le_nat_inject unat_mark_to_key)

lemma mark_to_key_take [simp]: "mark_to_key (take 8 m) = mark_to_key m"
  by (simp add: mark_to_key_def MARK_SIZE_def)

lemma mark_to_key_append: "length m = 8 \<Longrightarrow> mark_to_key (m @ xs) = mark_to_key m"
  by (simp add: mark_to_key_def MARK_SIZE_def)

lemma mark_to_key_le_bytes: "mark_to_key (le_bytes 8 (unat k)) = k"
proof -
  have "unat k < 256 ^ 8" using unat_bound [of k] by simp
  then show ?thesis by (simp add: mark_to_key_def MARK_SIZE_def le_nat_le_bytes)
qed

lemmas [wire_simps] = read_length_bytes write_packet_length_append mark_to_key_append
  createSendFrame_eq


section \<open>Parsers of framed streams\<close>

text \<open>
  What a receiver relies on.  \<open>drain\<close> takes every complete packet off the front of a buffer
  and returns them with the bytes it could not use yet.
\<close>

locale framing =
  fixes enc :: "'p \<Rightarrow> 'b list"
    and valid :: "'p \<Rightarrow> bool"
    and drain :: "'b list \<Rightarrow> 'p list \<times> 'b list"
  assumes drain_frame: "valid p \<Longrightarrow> drain (enc p @ rest) = (p # fst (drain rest), snd (drain rest))"
    and drain_partial: "valid p \<Longrightarrow> strict_prefix t (enc p) \<Longrightarrow> drain t = ([], t)"
    and drain_empty: "drain [] = ([], [])"
begin

definition partial :: "'b list \<Rightarrow> bool" where
  "partial t \<longleftrightarrow> t = [] \<or> (\<exists>p. valid p \<and> strict_prefix t (enc p))"

definition feed :: "'p list \<times> 'b list \<Rightarrow> 'b list \<Rightarrow> 'p list \<times> 'b list" where
  "feed s c = (fst s @ fst (drain (snd s @ c)), snd (drain (snd s @ c)))"

lemma drain_of_partial: "partial t \<Longrightarrow> drain t = ([], t)"
  unfolding partial_def using drain_empty drain_partial by blast

lemma partial_prefix:
  assumes "partial (xs @ ys)"
  shows "partial xs"
proof (cases "xs = []")
  case False
  with assms obtain p where "valid p" "strict_prefix (xs @ ys) (enc p)"
    by (auto simp: partial_def)
  then show ?thesis
    using prefix_order.le_less_trans [of xs "xs @ ys"] by (auto simp: partial_def)
qed (simp add: partial_def)

lemma drain_stream:
  assumes "\<forall>p \<in> set ps. valid p" and "partial t"
  shows "drain (concat (map enc ps) @ t) = (ps, t)"
  using assms(1)
proof (induction ps)
  case Nil
  then show ?case using drain_of_partial [OF assms(2)] by simp
next
  case (Cons p ps)
  then show ?case using drain_frame [of p "concat (map enc ps) @ t"] by simp
qed

lemma drain_append:
  assumes "\<forall>p \<in> set ps. valid p" and "partial t" and "xs @ ys = concat (map enc ps) @ t"
  shows "drain (xs @ ys) = feed (drain xs) ys"
  using assms(1,3)
proof (induction ps arbitrary: xs)
  case Nil
  then have "partial (xs @ ys)" using assms(2) by simp
  then show ?case using drain_of_partial partial_prefix by (simp add: feed_def)
next
  case (Cons p ps)
  have "xs @ ys = enc p @ (concat (map enc ps) @ t)" using Cons.prems(2) by simp
  then consider zs where "xs = enc p @ zs" "zs @ ys = concat (map enc ps) @ t"
    | r where "r \<noteq> []" "enc p = xs @ r"
    by (rule append_split_cases)
  then show ?case
  proof cases
    case 1
    then have "drain (zs @ ys) = feed (drain zs) ys"
      using Cons.prems(1) by (intro Cons.IH) simp_all
    then show ?thesis using Cons.prems(1) drain_frame 1 by (simp add: feed_def)
  next
    case 2
    then have "strict_prefix xs (enc p)" by (auto simp: strict_prefix_def)
    then have "drain xs = ([], xs)" using Cons.prems(1) drain_partial [of p xs] by simp
    then show ?thesis by (simp add: feed_def)
  qed
qed

lemma stream_prefix:
  assumes "xs @ ys = concat (map enc ps) @ t" and "\<forall>p \<in> set ps. valid p" and "partial t"
  shows "\<exists>qs u. (\<forall>q \<in> set qs. valid q) \<and> partial u \<and> xs = concat (map enc qs) @ u"
  using assms
proof (induction ps arbitrary: xs)
  case Nil
  then have "partial xs" using partial_prefix [of xs ys] by simp
  then show ?case by (intro exI [of _ "[]"] exI [of _ xs]) simp
next
  case (Cons p ps)
  have "xs @ ys = enc p @ (concat (map enc ps) @ t)" using Cons.prems(1) by simp
  then consider r where "xs = enc p @ r" "r @ ys = concat (map enc ps) @ t"
    | r where "r \<noteq> []" "enc p = xs @ r"
    by (rule append_split_cases)
  then show ?case
  proof cases
    case 1
    then obtain qs u where "\<forall>q \<in> set qs. valid q" "partial u" "r = concat (map enc qs) @ u"
      using Cons.IH [of r] Cons.prems by auto
    with 1 Cons.prems show ?thesis by (intro exI [of _ "p # qs"] exI [of _ u]) simp
  next
    case 2
    then have "partial xs"
      using Cons.prems(2) by (auto simp: partial_def strict_prefix_def prefix_def)
    then show ?thesis by (intro exI [of _ "[]"] exI [of _ xs]) simp
  qed
qed

text \<open>The packets received do not depend on how the stream was cut into chunks.\<close>

lemma feed_prefix:
  assumes "\<forall>p \<in> set ps. valid p" and "partial t" and "concat cs @ ys = concat (map enc ps) @ t"
  shows "foldl feed ([], []) cs = drain (concat cs)"
  using assms(3)
proof (induction cs arbitrary: ys rule: rev_induct)
  case Nil
  then show ?case by (simp add: drain_empty)
next
  case (snoc c cs)
  have IH: "foldl feed ([], []) cs = drain (concat cs)"
    using snoc.prems by (intro snoc.IH [of "c @ ys"]) simp
  obtain qs u where "\<forall>q \<in> set qs. valid q" "partial u" "concat cs @ c = concat (map enc qs) @ u"
    using stream_prefix [of "concat cs @ c" ys ps t] snoc.prems assms by auto
  then show ?case using IH drain_append [of qs u "concat cs" c] by simp
qed

lemma feed_chunks:
  assumes "\<forall>p \<in> set ps. valid p" and "partial t" and "concat cs = concat (map enc ps) @ t"
  shows "foldl feed ([], []) cs = (ps, t)"
  using feed_prefix [OF assms(1,2), of cs "[]"] drain_stream [OF assms(1,2)] assms(3) by simp

lemma foldl_feed_shift:
  "foldl feed (xs, u) cs = (xs @ fst (foldl feed ([], u) cs), snd (foldl feed ([], u) cs))"
proof (induction cs arbitrary: xs u)
  case (Cons c cs)
  have "foldl feed (xs, u) (c # cs) = foldl feed (xs @ fst (drain (u @ c)), snd (drain (u @ c))) cs"
    by (simp add: feed_def)
  moreover have "foldl feed ([], u) (c # cs) = foldl feed (fst (drain (u @ c)), snd (drain (u @ c))) cs"
    by (simp add: feed_def)
  ultimately show ?case
    using Cons.IH [of "xs @ fst (drain (u @ c))" "snd (drain (u @ c))"]
      Cons.IH [of "fst (drain (u @ c))" "snd (drain (u @ c))"]
    by (simp del: prod.collapse foldl_Cons)
qed simp

text \<open>The same from a parser that has already kept the beginning of a packet.\<close>

lemma feed_chunks_from:
  assumes "partial u" and "\<forall>p \<in> set ps. valid p" and "partial t"
    and "u @ concat cs = concat (map enc ps) @ t"
  shows "foldl feed ([], u) cs = (ps, t)"
proof -
  have "feed ([], []) u = ([], u)" using drain_of_partial [OF assms(1)] by (simp add: feed_def)
  then show ?thesis using feed_chunks [OF assms(2,3), of "u # cs"] assms(4) by simp
qed

end

end
