(* ===== verification/Packet_Queue.thy ===== *)
theory Packet_Queue
  imports Wire_Codec
begin

text \<open>
  The client library's packet containers (\<open>src/packet_queue.h\<close>, \<open>src/packet_queue.cpp\<close>):
  \<open>Packet\<close>, the FIFO \<open>PacketQueue\<close> and the stream parser \<open>ReceiveBuffer\<close>, and the inner
  loop of \<open>ConnectionManager::processRead\<close> that moves every complete packet from the one to
  the other.  Every method of \<open>PacketQueue\<close> runs under the queue's mutex and is one atomic
  step here.  Output parameters (\<open>Packet& outPacket\<close>, \<open>uint32_t& outSize\<close>) are passed in and
  returned, so that a call that leaves them alone is visible.
\<close>

section \<open>Packets and queues\<close>

record Packet =
  pkt_data :: bytes

record PacketQueue =
  m_queue :: "Packet list"

definition Packet_of :: "bytes \<Rightarrow> u32 \<Rightarrow> Packet" where
  "Packet_of src sz = \<lparr>pkt_data = take (unat sz) src\<rparr>"

definition Packet_size :: "Packet \<Rightarrow> u32" where
  "Packet_size p = word_of_nat (length (pkt_data p))"

definition Packet_empty :: "Packet \<Rightarrow> bool" where
  "Packet_empty p \<longleftrightarrow> pkt_data p = []"

definition PacketQueue_new :: PacketQueue where
  "PacketQueue_new = \<lparr>m_queue = []\<rparr>"

definition push :: "Packet \<Rightarrow> PacketQueue \<Rightarrow> PacketQueue" where
  "push packet q = q\<lparr>m_queue := m_queue q @ [packet]\<rparr>"

definition push_raw :: "bytes \<Rightarrow> u32 \<Rightarrow> PacketQueue \<Rightarrow> PacketQueue" where
  "push_raw dat sz q = q\<lparr>m_queue := m_queue q @ [Packet_of dat sz]\<rparr>"

definition pop :: "PacketQueue \<Rightarrow> Packet \<Rightarrow> bool \<times> Packet \<times> PacketQueue" where
  "pop q outPacket =
     (case m_queue q of
        [] \<Rightarrow> (False, outPacket, q)
      | front # rest \<Rightarrow> (True, front, q\<lparr>m_queue := rest\<rparr>))"

definition peek :: "PacketQueue \<Rightarrow> u32 \<Rightarrow> bool \<times> u32" where
  "peek q outSize =
     (case m_queue q of
        [] \<Rightarrow> (False, outSize)
      | front # rest \<Rightarrow> (True, Packet_size front))"

definition queue_empty :: "PacketQueue \<Rightarrow> bool" where
  "queue_empty q \<longleftrightarrow> m_queue q = []"

definition queue_size :: "PacketQueue \<Rightarrow> nat" where
  "queue_size q = length (m_queue q)"

definition queue_clear :: "PacketQueue \<Rightarrow> PacketQueue" where
  "queue_clear q = q\<lparr>m_queue := []\<rparr>"


section \<open>The receive buffer\<close>

record ReceiveBuffer =
  m_buffer :: bytes

definition HEADER_SIZE :: u32 where "HEADER_SIZE = 4"
definition MAX_PACKET_SIZE_client :: u32 where "MAX_PACKET_SIZE_client = 1024 * 1024"

definition ReceiveBuffer_new :: ReceiveBuffer where
  "ReceiveBuffer_new = \<lparr>m_buffer = []\<rparr>"

definition append_bytes :: "bytes \<Rightarrow> u32 \<Rightarrow> ReceiveBuffer \<Rightarrow> ReceiveBuffer" where
  "append_bytes dat sz rb = rb\<lparr>m_buffer := m_buffer rb @ take (unat sz) dat\<rparr>"

definition buffer_clear :: "ReceiveBuffer \<Rightarrow> ReceiveBuffer" where
  "buffer_clear rb = rb\<lparr>m_buffer := []\<rparr>"

definition buffer_size :: "ReceiveBuffer \<Rightarrow> nat" where
  "buffer_size rb = length (m_buffer rb)"

definition tryParsePacket :: "ReceiveBuffer \<Rightarrow> Packet \<Rightarrow> bool \<times> Packet \<times> ReceiveBuffer" where
  "tryParsePacket rb outPacket =
     (if length (m_buffer rb) < unat HEADER_SIZE then (False, outPacket, rb)
      else
        let packetSize =
              0 OR ucast (m_buffer rb ! 0) OR push_bit 8 (ucast (m_buffer rb ! 1))
                OR push_bit 16 (ucast (m_buffer rb ! 2)) OR push_bit 24 (ucast (m_buffer rb ! 3))
        in if packetSize = 0 \<or> packetSize > MAX_PACKET_SIZE_client
           then (False, outPacket, rb\<lparr>m_buffer := []\<rparr>)
           else
             let totalSize = HEADER_SIZE + packetSize
             in if length (m_buffer rb) < unat totalSize then (False, outPacket, rb)
                else (True,
                      outPacket\<lparr>pkt_data :=
                        drop (unat HEADER_SIZE) (take (unat totalSize) (m_buffer rb))\<rparr>,
                      rb\<lparr>m_buffer := drop (unat totalSize) (m_buffer rb)\<rparr>))"

lemma packetSize_read:
  "0 OR ucast (b ! 0) OR push_bit 8 (ucast (b ! 1))
     OR push_bit 16 (ucast (b ! 2)) OR push_bit 24 (ucast (b ! 3)) = read_packet_length b"
  by (simp add: read_packet_length_def)

lemmas tryParsePacket_eq = tryParsePacket_def [unfolded packetSize_read Let_def]

lemma unat_totalSize:
  "n \<le> MAX_PACKET_SIZE_client \<Longrightarrow> unat (HEADER_SIZE + n) = 4 + unat n"
  by (simp add: HEADER_SIZE_def MAX_PACKET_SIZE_client_def unat_word_ariths word_le_nat_alt)

lemma tryParsePacket_shrinks:
  "tryParsePacket rb out = (True, p, rb') \<Longrightarrow> length (m_buffer rb') < length (m_buffer rb)"
  by (auto simp: tryParsePacket_eq unat_totalSize not_less split: if_splits)

text \<open>
  The loop \<open>while (recvBuffer.tryParsePacket(packet)) receiveQueue.push(std::move(packet))\<close>.
\<close>

function parse_packets ::
    "ReceiveBuffer \<Rightarrow> Packet \<Rightarrow> PacketQueue \<Rightarrow> ReceiveBuffer \<times> PacketQueue" where
  "parse_packets rb packet q =
     (case tryParsePacket rb packet of
        (False, packet', rb') \<Rightarrow> (rb', q)
      | (True, packet', rb') \<Rightarrow> parse_packets rb' packet' (push packet' q))"
  by pat_completeness auto
termination
  by (relation "measure (\<lambda>(rb, packet, q). length (m_buffer rb))")
    (auto dest: tryParsePacket_shrinks [OF sym])

declare parse_packets.simps [simp del]


section \<open>The queue is a FIFO\<close>

locale fifo =
  fixes new :: 'q
    and put :: "'a \<Rightarrow> 'q \<Rightarrow> 'q"
    and get :: "'q \<Rightarrow> 'a \<Rightarrow> bool \<times> 'a \<times> 'q"
    and clear :: "'q \<Rightarrow> 'q"
    and items :: "'q \<Rightarrow> 'a list"
  assumes items_new: "items new = []"
    and items_put: "items (put x q) = items q @ [x]"
    and get_empty: "items q = [] \<Longrightarrow> get q out = (False, out, q)"
    and get_front: "items q = x # xs \<Longrightarrow> \<exists>q'. get q out = (True, x, q') \<and> items q' = xs"
    and items_clear: "items (clear q) = []"
begin

fun get_all :: "nat \<Rightarrow> 'a \<Rightarrow> 'q \<Rightarrow> 'a list" where
  "get_all 0 out q = []"
| "get_all (Suc n) out q =
     (case get q out of (ok, x, q') \<Rightarrow> if ok then x # get_all n x q' else [])"

lemma items_puts: "items (foldl (\<lambda>q x. put x q) q xs) = items q @ xs"
  by (induction xs arbitrary: q) (simp_all add: items_put)

lemma get_all_items: "n \<le> length (items q) \<Longrightarrow> get_all n out q = take n (items q)"
proof (induction n arbitrary: q out)
  case (Suc n)
  then obtain x xs where xs: "items q = x # xs" by (cases "items q") auto
  obtain q' where "get q out = (True, x, q')" "items q' = xs"
    using get_front [OF xs] by blast
  with Suc xs show ?case by simp
qed simp

lemma first_in_first_out:
  "get_all (length xs) out (foldl (\<lambda>q x. put x q) new xs) = xs"
  using get_all_items [of "length xs" "foldl (\<lambda>q x. put x q) new xs"]
  by (simp add: items_puts items_new)

end

interpretation pq: fifo PacketQueue_new push pop queue_clear m_queue
  by unfold_locales
    (auto simp: PacketQueue_new_def push_def pop_def queue_clear_def split: list.splits)

lemma peek_front: "m_queue q = p # ps \<Longrightarrow> peek q out = (True, Packet_size p)"
  by (simp add: peek_def)

lemma peek_none: "m_queue q = [] \<Longrightarrow> peek q out = (False, out)"
  by (simp add: peek_def)

lemma peek_True_iff: "fst (peek q out) \<longleftrightarrow> m_queue q \<noteq> []"
  by (simp add: peek_def split: list.splits)


section \<open>What the parser accepts\<close>

text \<open>A payload the client accepts: not empty and at most one megabyte.\<close>

definition client_payload :: "bytes \<Rightarrow> bool" where
  "client_payload p \<longleftrightarrow> 0 < length p \<and> length p \<le> 1048576"

lemma client_payload_word:
  assumes "client_payload p"
  shows "word_of_nat (length p) \<noteq> (0 :: u32)"
    and "\<not> word_of_nat (length p) > MAX_PACKET_SIZE_client"
    and "unat (HEADER_SIZE + word_of_nat (length p)) = 4 + length p"
proof -
  have u: "unat (word_of_nat (length p) :: u32) = length p"
    using assms by (simp add: client_payload_def unat_of_nat)
  then show "word_of_nat (length p) \<noteq> (0 :: u32)"
    using assms unat_0 by (metis client_payload_def less_irrefl)
  show le: "\<not> word_of_nat (length p) > MAX_PACKET_SIZE_client"
    using assms u by (simp add: MAX_PACKET_SIZE_client_def client_payload_def word_less_nat_alt)
  show "unat (HEADER_SIZE + word_of_nat (length p)) = 4 + length p"
    using le u by (simp add: unat_totalSize)
qed

lemma unat_HEADER_SIZE [simp]: "unat HEADER_SIZE = 4"
  by (simp add: HEADER_SIZE_def)

lemma tryParsePacket_frame:
  assumes "client_payload p" and "m_buffer rb = frame p @ rest"
  shows "tryParsePacket rb out = (True, out\<lparr>pkt_data := p\<rparr>, rb\<lparr>m_buffer := rest\<rparr>)"
proof -
  have "length p < 2 ^ 32" using assms(1) by (simp add: client_payload_def)
  then have "read_packet_length (m_buffer rb) = word_of_nat (length p)"
    using assms(2) by (simp add: read_frame)
  then show ?thesis
    using assms(2) client_payload_word [OF assms(1)]
    by (simp add: tryParsePacket_eq frame_def)
qed

lemma tryParsePacket_incomplete:
  assumes "client_payload p" and "strict_prefix (m_buffer rb) (frame p)"
  shows "tryParsePacket rb out = (False, out, rb)"
proof (cases "length (m_buffer rb) < 4")
  case True
  then show ?thesis by (simp add: tryParsePacket_def)
next
  case False
  obtain ys where ys: "frame p = m_buffer rb @ ys" and "ys \<noteq> []"
    using assms(2) by (auto simp: strict_prefix_def prefix_def)
  then have less: "length (m_buffer rb) < 4 + length p"
    using length_frame [of p] by (metis length_append length_greater_0_conv less_add_same_cancel1)
  have "length p < 2 ^ 32" using assms(1) by (simp add: client_payload_def)
  then have "read_packet_length (m_buffer rb) = word_of_nat (length p)"
    using read_packet_length_prefix [of "m_buffer rb" ys] read_frame [of p "[]"] ys False by simp
  then show ?thesis
    using False less client_payload_word [OF assms(1)]
    by (simp add: tryParsePacket_eq)
qed

lemma tryParsePacket_illegal:
  assumes "4 \<le> length (m_buffer rb)"
    and "read_packet_length (m_buffer rb) = 0
      \<or> read_packet_length (m_buffer rb) > MAX_PACKET_SIZE_client"
  shows "tryParsePacket rb out = (False, out, rb\<lparr>m_buffer := []\<rparr>)"
  using assms by (simp add: tryParsePacket_eq)

lemma tryParsePacket_sound:
  assumes "tryParsePacket rb out = (True, pkt, rb')"
  shows "client_payload (pkt_data pkt) \<and> m_buffer rb = frame (pkt_data pkt) @ m_buffer rb'"
proof -
  let ?b = "m_buffer rb"
  let ?n = "read_packet_length ?b"
  have len: "4 \<le> length ?b" and n: "?n \<noteq> 0" "?n \<le> MAX_PACKET_SIZE_client"
    and tot: "4 + unat ?n \<le> length ?b"
    and pkt: "pkt_data pkt = drop 4 (take (4 + unat ?n) ?b)"
    and rest: "m_buffer rb' = drop (4 + unat ?n) ?b"
    using assms
    by (auto simp: tryParsePacket_eq unat_totalSize not_less split: if_splits)
  have lp: "length (pkt_data pkt) = unat ?n" using pkt tot by simp
  have "0 < unat ?n" using n(1) by (simp add: unat_gt_0)
  moreover have "unat ?n \<le> 1048576"
    using n(2) by (simp add: MAX_PACKET_SIZE_client_def word_le_nat_alt)
  moreover have "?b = length_bytes ?n @ pkt_data pkt @ m_buffer rb'"
    using take_drop_split3 [of 4 ?b "unat ?n"] by (simp only: length_bytes_read [OF len] pkt rest)
  ultimately show ?thesis
    using lp by (simp add: client_payload_def frame_def length_bytes_le_bytes)
qed


section \<open>Receiving a stream\<close>

lemma Packet_eqI: "pkt_data p = pkt_data q \<Longrightarrow> p = (q :: Packet)"
  by (rule Packet.equality) simp_all

lemma PacketQueue_eqI: "m_queue p = m_queue q \<Longrightarrow> p = (q :: PacketQueue)"
  by (rule PacketQueue.equality) simp_all

lemma ReceiveBuffer_eqI: "m_buffer p = m_buffer q \<Longrightarrow> p = (q :: ReceiveBuffer)"
  by (rule ReceiveBuffer.equality) simp_all

text \<open>The loop seen from outside: the payloads it finds in a buffer, and the bytes it leaves.\<close>

definition client_drain :: "bytes \<Rightarrow> bytes list \<times> bytes" where
  "client_drain buf =
     (case parse_packets \<lparr>m_buffer = buf\<rparr> \<lparr>pkt_data = []\<rparr> PacketQueue_new of
        (rb, q) \<Rightarrow> (map pkt_data (m_queue q), m_buffer rb))"

lemma parse_packets_frame:
  assumes "client_payload p" and "m_buffer rb = frame p @ rest"
  shows "parse_packets rb pk q =
     parse_packets \<lparr>m_buffer = rest\<rparr> \<lparr>pkt_data = p\<rparr> (push \<lparr>pkt_data = p\<rparr> q)"
  using tryParsePacket_frame [OF assms, of pk]
  by (simp add: parse_packets.simps [of rb pk q]) (cases rb, cases pk, simp)

lemma parse_packets_stop:
  "tryParsePacket rb pk = (False, pk', rb') \<Longrightarrow> parse_packets rb pk q = (rb', q)"
  by (simp add: parse_packets.simps [of rb pk q])

text \<open>
  Neither the scratch packet nor what is queued already matters: the loop appends exactly the
  payloads that \<open>client_drain\<close> finds.
\<close>

lemma tryParsePacket_outcome:
  obtains (parsed) p rest where "client_payload p" "m_buffer rb = frame p @ rest"
  | (stop) rb' where "\<And>out. tryParsePacket rb out = (False, out, rb')"
proof (cases "\<exists>pkt rb'. tryParsePacket rb \<lparr>pkt_data = []\<rparr> = (True, pkt, rb')")
  case True
  then show thesis using tryParsePacket_sound parsed by blast
next
  case False
  then have "\<exists>rb'. \<forall>out. tryParsePacket rb out = (False, out, rb')"
    by (auto simp: tryParsePacket_eq split: if_splits)
  then show thesis using stop by blast
qed

lemma parse_packets_eq:
  "parse_packets rb pk q =
     (\<lparr>m_buffer = snd (client_drain (m_buffer rb))\<rparr>,
      \<lparr>m_queue = m_queue q @ map (\<lambda>p. \<lparr>pkt_data = p\<rparr>) (fst (client_drain (m_buffer rb)))\<rparr>)"
proof (induction "length (m_buffer rb)" arbitrary: rb pk q rule: less_induct)
  case less
  have rb: "\<lparr>m_buffer = m_buffer rb\<rparr> = rb" by (rule ReceiveBuffer_eqI) simp
  show ?case
  proof (cases rb rule: tryParsePacket_outcome)
    case (parsed p rest)
    have "length (m_buffer \<lparr>m_buffer = rest\<rparr>) < length (m_buffer rb)" using parsed(2) by simp
    note IH = less.hyps [OF this]
    show ?thesis
      unfolding client_drain_def [of "m_buffer rb"] rb parse_packets_frame [OF parsed] IH
      by (simp add: push_def PacketQueue_new_def comp_def)
  next
    case (stop rb')
    show ?thesis
      unfolding client_drain_def [of "m_buffer rb"] rb parse_packets_stop [OF stop]
      by (simp add: PacketQueue_new_def)
  qed
qed

lemma client_drain_frame:
  assumes "client_payload p"
  shows "client_drain (frame p @ rest) = (p # fst (client_drain rest), snd (client_drain rest))"
  unfolding client_drain_def [of "frame p @ rest"]
  using parse_packets_frame [OF assms, of "\<lparr>m_buffer = frame p @ rest\<rparr>" rest]
  by (simp add: parse_packets_eq push_def PacketQueue_new_def comp_def)

lemma client_drain_stop:
  assumes "\<And>out. tryParsePacket \<lparr>m_buffer = t\<rparr> out = (False, out, rb)"
  shows "client_drain t = ([], m_buffer rb)"
  using parse_packets_stop [OF assms] by (simp add: client_drain_def PacketQueue_new_def)

lemma client_drain_partial:
  "client_payload p \<Longrightarrow> strict_prefix t (frame p) \<Longrightarrow> client_drain t = ([], t)"
  by (subst client_drain_stop [OF tryParsePacket_incomplete]) simp_all

interpretation rx: framing frame client_payload client_drain
proof unfold_locales
  show "client_drain [] = ([], [])"
    by (subst client_drain_stop [of _ "\<lparr>m_buffer = []\<rparr>"]) (simp_all add: tryParsePacket_eq)
qed (simp_all add: client_drain_frame client_drain_partial)

text \<open>A piece of a packet that the client has to wait for.\<close>

definition partial_frame :: "bytes \<Rightarrow> bool" where
  "partial_frame t \<longleftrightarrow> t = [] \<or> (\<exists>p. client_payload p \<and> strict_prefix t (frame p))"

lemma partial_frame_rx: "partial_frame t = rx.partial t"
  by (simp add: partial_frame_def rx.partial_def)

end
