(* ===== verification/Wire_Theorems.thy ===== *)
theory Wire_Theorems
  imports Packet_Queue
begin

text \<open>
  The properties of the wire format and of the client's stream parser that the rest of the system
  rests on, with concrete instances.
\<close>

text \<open>
  C18: the parser of the client is exact: \<open>tryParsePacket\<close> succeeds with a packet and a remaining
  buffer if and only if the buffer is the frame of that packet, of one byte to one megabyte,
  followed by the remaining bytes.
\<close>

theorem tryParsePacket_exact:
  "tryParsePacket rb out = (True, pkt, rb') \<longleftrightarrow>
     client_payload (pkt_data pkt) \<and> m_buffer rb = frame (pkt_data pkt) @ m_buffer rb'"
proof
  assume "tryParsePacket rb out = (True, pkt, rb')"
  then show "client_payload (pkt_data pkt) \<and> m_buffer rb = frame (pkt_data pkt) @ m_buffer rb'"
    by (rule tryParsePacket_sound)
next
  assume "client_payload (pkt_data pkt) \<and> m_buffer rb = frame (pkt_data pkt) @ m_buffer rb'"
  then have "tryParsePacket rb out = (True, out\<lparr>pkt_data := pkt_data pkt\<rparr>, rb\<lparr>m_buffer := m_buffer rb'\<rparr>)"
    using tryParsePacket_frame by blast
  moreover have "out\<lparr>pkt_data := pkt_data pkt\<rparr> = pkt" by (rule Packet_eqI) simp
  moreover have "rb\<lparr>m_buffer := m_buffer rb'\<rparr> = rb'" by (rule ReceiveBuffer_eqI) simp
  ultimately show "tryParsePacket rb out = (True, pkt, rb')" by simp
qed

text \<open>
  C32: the server reads back the length it wrote, at any position of a buffer, for all 32-bit
  lengths, and writing a length changes no other byte.
\<close>

theorem packet_length_roundtrip:
  assumes "off + 4 \<le> length buf"
  shows "read_packet_length (drop off (write_packet_length off n buf)) = n
    \<and> take off (write_packet_length off n buf) = take off buf
    \<and> drop (off + 4) (write_packet_length off n buf) = drop (off + 4) buf"
proof -
  have buf: "buf = take off buf @ drop off (take (off + 4) buf) @ drop (off + 4) buf"
    by (simp only: take_drop_split3)
  have off: "length (take off buf) = off" and four: "length (drop off (take (off + 4) buf)) = 4"
    using assms by simp_all
  have "write_packet_length off n buf = take off buf @ length_bytes n @ drop (off + 4) buf"
    using write_packet_length_append [OF four, of "take off buf" n "drop (off + 4) buf"] off buf by metis
  then show ?thesis using off by simp
qed

theorem packet_length_roundtrip_witness:
  "read_packet_length (drop 1 (write_packet_length 1 70000 [9, 9, 9, 9, 9, 9])) = 70000"
  using packet_length_roundtrip [of 1 "[9, 9, 9, 9, 9, 9]" 70000] by simp

text \<open>
  C33: the client and the server write the same frames: what \<open>createSendFrame\<close> of the client
  produces is the length header that the server would write, followed by the data.
\<close>

theorem client_and_server_frames_agree:
  assumes "unat sz = length dat"
  shows "createSendFrame dat sz = write_packet_length 0 sz (replicate 4 0 @ dat)
    \<and> createSendFrame dat sz = frame dat"
  using write_packet_length_append [of "replicate 4 0" "[]" sz dat] createSendFrame_frame [OF assms] assms
  by (simp add: createSendFrame_eq)

theorem client_and_server_frames_agree_witness:
  "createSendFrame [1, 2] 2 = [2, 0, 0, 0, 1, 2]"
  using conjunct2 [OF client_and_server_frames_agree [of 2 "[1, 2]"]] by (simp add: frame_def le_bytes_4)

text \<open>
  C34: the key under which the server files a client determines the client's eight mark bytes, and
  every 64-bit key is the key of some mark, so that no two marks are confused.
\<close>

theorem mark_keys_are_unique:
  assumes "length m1 = MARK_SIZE" and "length m2 = MARK_SIZE"
  shows "(mark_to_key m1 = mark_to_key m2 \<longleftrightarrow> m1 = m2)
    \<and> mark_to_key (le_bytes MARK_SIZE (unat key)) = key"
  using mark_to_key_inject [of m1 m2] mark_to_key_le_bytes [of key] assms by (simp add: MARK_SIZE_def)

theorem mark_keys_are_unique_witness:
  "mark_to_key [1, 0, 0, 0, 0, 0, 0, 0] \<noteq> mark_to_key [0, 1, 0, 0, 0, 0, 0, 0]"
  using mark_keys_are_unique [of "[1, 0, 0, 0, 0, 0, 0, 0]" "[0, 1, 0, 0, 0, 0, 0, 0]" 0]
  by (simp add: MARK_SIZE_def)

end
