(* ===== verification/Server_Os.thy ===== *)
theory Server_Os
  imports Wire_Codec
begin

text \<open>
  The operating system as the relay server sees it.  The kernel is not part of the repository:
  it is the parameter \<open>os\<close> of every server operation, a record with one function per system
  call that \<open>server/main.cpp\<close> makes.  A call may answer as it likes, also depending on
  everything that happened before: each function receives the history of calls, newest first,
  and every call is added to that history together with its answer.  The history is the
  observable behaviour of the server; \<open>sent_bytes\<close>, \<open>is_open\<close> and \<open>wants_write\<close> read off
  it what the kernel accepted for a descriptor, which descriptors are open and which ones epoll
  watches for writability.
\<close>

section \<open>Calls and answers\<close>

datatype errno = EAGAIN | EWOULDBLOCK | EINTR | ECONNRESET | EPIPE | EBADF | EOTHER

text \<open>
  \<open>os_signal\<close> is a signal that arrives, \<open>os_clock\<close> the reading of the steady clock in nanoseconds;
  neither is a system call and neither is put on the history.
\<close>

text \<open>An epoll registration always asks for \<open>EPOLLIN\<close>; the flag says whether also \<open>EPOLLOUT\<close>.\<close>

datatype epoll_op = CTL_ADD bool | CTL_MOD bool | CTL_DEL

datatype fcntl_cmd = F_GETFL | F_SETFL int

datatype sockopt = SO_REUSEADDR | TCP_NODELAY | SO_KEEPALIVE

record epoll_event =
  ev_fd :: int
  ev_in :: bool
  ev_out :: bool
  ev_err :: bool
  ev_hup :: bool

datatype syscall =
    SWrite int bytes "errno + nat"
  | SRead int nat "errno + bytes"
  | SAccept int "errno + int"
  | SClose int
  | SEpollCtl epoll_op int "errno option"
  | SFcntl int fcntl_cmd "errno + int"
  | SSetsockopt int sockopt "errno option"
  | SSocket "errno + int"
  | SBind int int "errno option"
  | SListen int "errno option"
  | SEpollCreate "errno + int"
  | SEpollWait "errno + epoll_event list"

type_synonym history = "syscall list"

record os =
  os_write :: "history \<Rightarrow> int \<Rightarrow> bytes \<Rightarrow> errno + nat"
  os_read :: "history \<Rightarrow> int \<Rightarrow> nat \<Rightarrow> errno + bytes"
  os_accept :: "history \<Rightarrow> int \<Rightarrow> errno + int"
  os_epoll_ctl :: "history \<Rightarrow> epoll_op \<Rightarrow> int \<Rightarrow> errno option"
  os_fcntl :: "history \<Rightarrow> int \<Rightarrow> fcntl_cmd \<Rightarrow> errno + int"
  os_setsockopt :: "history \<Rightarrow> int \<Rightarrow> sockopt \<Rightarrow> errno option"
  os_socket :: "history \<Rightarrow> errno + int"
  os_bind :: "history \<Rightarrow> int \<Rightarrow> int \<Rightarrow> errno option"
  os_listen :: "history \<Rightarrow> int \<Rightarrow> errno option"
  os_epoll_create1 :: "history \<Rightarrow> errno + int"
  os_epoll_wait :: "history \<Rightarrow> errno + epoll_event list"
  os_signal :: "history \<Rightarrow> int option"
  os_clock :: "history \<Rightarrow> nat"


section \<open>Reading a history\<close>

text \<open>The bytes the kernel took for the connection that now uses descriptor \<open>k\<close>.\<close>

fun sent_bytes :: "int \<Rightarrow> history \<Rightarrow> bytes" where
  "sent_bytes k [] = []"
| "sent_bytes k (SWrite f buf r # h) =
     (case r of Inr n \<Rightarrow> (if f = k then sent_bytes k h @ take n buf else sent_bytes k h)
      | Inl _ \<Rightarrow> sent_bytes k h)"
| "sent_bytes k (SAccept l r # h) = (if r = Inr k then [] else sent_bytes k h)"
| "sent_bytes k (_ # h) = sent_bytes k h"

fun is_open :: "int \<Rightarrow> history \<Rightarrow> bool" where
  "is_open k [] = False"
| "is_open k (SAccept l r # h) = (r = Inr k \<or> is_open k h)"
| "is_open k (SSocket r # h) = (r = Inr k \<or> is_open k h)"
| "is_open k (SEpollCreate r # h) = (r = Inr k \<or> is_open k h)"
| "is_open k (SClose f # h) = (f \<noteq> k \<and> is_open k h)"
| "is_open k (_ # h) = is_open k h"

text \<open>Does epoll report when \<open>k\<close> becomes writable?  \<open>None\<close>: \<open>k\<close> is not registered.\<close>

fun wants_write :: "int \<Rightarrow> history \<Rightarrow> bool option" where
  "wants_write k [] = None"
| "wants_write k (SEpollCtl op f r # h) =
     (if f = k \<and> r = None
      then (case op of CTL_ADD w \<Rightarrow> Some w | CTL_MOD w \<Rightarrow> Some w | CTL_DEL \<Rightarrow> None)
      else wants_write k h)"
| "wants_write k (SClose f # h) = (if f = k then None else wants_write k h)"
| "wants_write k (_ # h) = wants_write k h"

text \<open>How often \<open>close\<close> was called on \<open>k\<close>.\<close>

definition close_count :: "int \<Rightarrow> history \<Rightarrow> nat" where
  "close_count k h = length (filter (\<lambda>e. e = SClose k) h)"


section \<open>Documented behaviour of the kernel\<close>

text \<open>
  \<open>write(2)\<close> takes at most the bytes it was given, \<open>read(2)\<close> returns at most the bytes asked
  for, \<open>accept(2)\<close> returns a descriptor that is not open, and \<open>epoll_ctl(2)\<close> can change a
  registration that exists.  A theorem that needs one of these facts states it.
\<close>

definition os_write_bounded :: "os \<Rightarrow> bool" where
  "os_write_bounded os \<longleftrightarrow> (\<forall>h k buf n. os_write os h k buf = Inr n \<longrightarrow> n \<le> length buf)"

definition os_read_bounded :: "os \<Rightarrow> bool" where
  "os_read_bounded os \<longleftrightarrow> (\<forall>h k cnt bs. os_read os h k cnt = Inr bs \<longrightarrow> length bs \<le> cnt)"

definition os_accept_fresh :: "os \<Rightarrow> bool" where
  "os_accept_fresh os \<longleftrightarrow> (\<forall>h l k. os_accept os h l = Inr k \<longrightarrow> 0 \<le> k \<and> \<not> is_open k h)"

definition os_epoll_mod_works :: "os \<Rightarrow> bool" where
  "os_epoll_mod_works os \<longleftrightarrow>
     (\<forall>h k w. wants_write k h \<noteq> None \<longrightarrow> os_epoll_ctl os h (CTL_MOD w) k = None)"

text \<open>Sockets that never fail for good: a write is partial, complete or told to wait.\<close>

definition os_write_no_error :: "os \<Rightarrow> bool" where
  "os_write_no_error os \<longleftrightarrow>
     (\<forall>h k buf. buf \<noteq> [] \<longrightarrow> os_write os h k buf \<in> {Inl EAGAIN, Inl EWOULDBLOCK}
        \<or> (\<exists>n > 0. os_write os h k buf = Inr n))"

end
