(* ===== verification/Relay_Server.thy ===== *)
theory Relay_Server
  imports Server_Os
begin

text \<open>
  The relay server (\<open>server/main.cpp\<close>): its connection structure, its two global tables, its
  statistics and every function that changes them, down to the body of the event loop.  The
  file-scope variables are the fields of \<open>server\<close>; each function takes the state and returns
  the new one, and log output is left out.

  A C++ reference to a connection is the key under which the connection lives in
  \<open>g_connections\<close>.  Using such a reference after the entry was erased is undefined behaviour:
  the one place where the code can do that (\<open>handle_client_data\<close> after \<open>process_packet\<close>)
  answers \<open>Inl UseAfterFree\<close>.
\<close>

section \<open>State\<close>

record Connection =
  conn_fd :: int
  mark :: bytes
  registered :: bool
  send_buf :: bytes
  recv_buf :: bytes
  recv_len :: nat

definition Connection_new :: "int \<Rightarrow> Connection" where
  "Connection_new socket_fd =
     \<lparr>conn_fd = socket_fd, mark = replicate MARK_SIZE 0, registered = False, send_buf = [],
      recv_buf = replicate BUFFER_SIZE 0, recv_len = 0\<rparr>"

definition consume :: "nat \<Rightarrow> Connection \<Rightarrow> Connection" where
  "consume len c =
     (if len \<ge> recv_len c then c\<lparr>recv_len := 0\<rparr>
      else c\<lparr>recv_buf := memcpy_at 0 (take (recv_len c - len) (drop len (recv_buf c))) (recv_buf c),
             recv_len := recv_len c - len\<rparr>)"

record stats =
  g_stat_bytes_in :: u64
  g_stat_bytes_out :: u64
  g_stat_packets_in :: u64
  g_stat_packets_out :: u64
  g_stat_drop_no_target :: u64
  g_stat_drop_small_packet :: u64
  g_stat_drop_send_eagain :: u64
  g_stat_partial_writes :: u64
  g_stat_write_errors :: u64
  g_stat_event_loops :: u64
  g_stat_events :: u64

text \<open>
  The local variables of \<open>main\<close> that belong to the performance report: the \<open>last_\<dots>\<close> counters, the
  time of the last report, and the reports that were made, newest first.
\<close>

record perf =
  last_stats :: stats
  last_perf_ts :: nat
  perf_lines :: "stats list"

record server =
  g_running :: bool
  g_connections :: "(int, Connection) umap"
  g_mark_to_fd :: "(u64, int) umap"
  g_stats :: stats
  main_perf :: perf
  sys_hist :: history

datatype fault = UseAfterFree

abbreviation conn_at :: "server \<Rightarrow> int \<Rightarrow> Connection option" where
  "conn_at st k \<equiv> um_find (g_connections st) k"

abbreviation target_of :: "server \<Rightarrow> u64 \<Rightarrow> int option" where
  "target_of st key \<equiv> um_find (g_mark_to_fd st) key"

definition set_conn :: "int \<Rightarrow> Connection \<Rightarrow> server \<Rightarrow> server" where
  "set_conn k c st = st\<lparr>g_connections := um_set k c (g_connections st)\<rparr>"

definition record_call :: "syscall \<Rightarrow> server \<Rightarrow> server" where
  "record_call e st = st\<lparr>sys_hist := e # sys_hist st\<rparr>"

definition bump_stat :: "(stats \<Rightarrow> stats) \<Rightarrow> server \<Rightarrow> server" where
  "bump_stat f st = st\<lparr>g_stats := f (g_stats st)\<rparr>"


section \<open>System calls\<close>

definition sys_write :: "os \<Rightarrow> int \<Rightarrow> bytes \<Rightarrow> server \<Rightarrow> (errno + nat) \<times> server" where
  "sys_write os k buf st =
     (let r = os_write os (sys_hist st) k buf in (r, record_call (SWrite k buf r) st))"

definition sys_read :: "os \<Rightarrow> int \<Rightarrow> nat \<Rightarrow> server \<Rightarrow> (errno + bytes) \<times> server" where
  "sys_read os k cnt st =
     (let r = os_read os (sys_hist st) k cnt in (r, record_call (SRead k cnt r) st))"

definition sys_accept :: "os \<Rightarrow> int \<Rightarrow> server \<Rightarrow> (errno + int) \<times> server" where
  "sys_accept os l st =
     (let r = os_accept os (sys_hist st) l in (r, record_call (SAccept l r) st))"

definition sys_epoll_ctl :: "os \<Rightarrow> epoll_op \<Rightarrow> int \<Rightarrow> server \<Rightarrow> errno option \<times> server" where
  "sys_epoll_ctl os op k st =
     (let r = os_epoll_ctl os (sys_hist st) op k in (r, record_call (SEpollCtl op k r) st))"

definition sys_fcntl :: "os \<Rightarrow> int \<Rightarrow> fcntl_cmd \<Rightarrow> server \<Rightarrow> (errno + int) \<times> server" where
  "sys_fcntl os k cmd st =
     (let r = os_fcntl os (sys_hist st) k cmd in (r, record_call (SFcntl k cmd r) st))"

definition sys_setsockopt :: "os \<Rightarrow> int \<Rightarrow> sockopt \<Rightarrow> server \<Rightarrow> errno option \<times> server" where
  "sys_setsockopt os k opt st =
     (let r = os_setsockopt os (sys_hist st) k opt in (r, record_call (SSetsockopt k opt r) st))"

definition sys_close :: "int \<Rightarrow> server \<Rightarrow> server" where
  "sys_close k st = record_call (SClose k) st"

lemmas sys_defs = sys_write_def sys_read_def sys_accept_def sys_epoll_ctl_def sys_fcntl_def
  sys_setsockopt_def sys_close_def record_call_def Let_def


section \<open>Connections\<close>

definition update_epoll_events :: "os \<Rightarrow> int \<Rightarrow> bool \<Rightarrow> server \<Rightarrow> bool \<times> server" where
  "update_epoll_events os k want_write st =
     (case sys_epoll_ctl os (CTL_MOD want_write) k st of
        (Some e, st') \<Rightarrow> (False, st')
      | (None, st') \<Rightarrow> (True, st'))"

definition close_connection :: "os \<Rightarrow> int \<Rightarrow> server \<Rightarrow> server" where
  "close_connection os k st =
     (let st1 = (case conn_at st k of
                   None \<Rightarrow> st
                 | Some c \<Rightarrow>
                     (let st0 = (if registered c
                                 then st\<lparr>g_mark_to_fd :=
                                        um_erase (mark_to_key (mark c)) (g_mark_to_fd st)\<rparr>
                                 else st)
                      in st0\<lparr>g_connections := um_erase k (g_connections st0)\<rparr>));
          st2 = snd (sys_epoll_ctl os CTL_DEL k st1)
      in sys_close k st2)"

lemma um_find_set_conn [simp]:
  "conn_at (set_conn k c st) j = (if j = k then Some c else conn_at st j)"
  by (simp add: set_conn_def)

lemma set_conn_simps [simp]:
  "g_mark_to_fd (set_conn k c st) = g_mark_to_fd st"
  "sys_hist (set_conn k c st) = sys_hist st"
  "g_stats (set_conn k c st) = g_stats st"
  "g_running (set_conn k c st) = g_running st"
  by (simp_all add: set_conn_def)

lemma record_call_simps [simp]:
  "g_connections (record_call e st) = g_connections st"
  "g_mark_to_fd (record_call e st) = g_mark_to_fd st"
  "g_stats (record_call e st) = g_stats st"
  "g_running (record_call e st) = g_running st"
  "sys_hist (record_call e st) = e # sys_hist st"
  by (simp_all add: record_call_def)

lemma bump_stat_simps [simp]:
  "g_connections (bump_stat f st) = g_connections st"
  "g_mark_to_fd (bump_stat f st) = g_mark_to_fd st"
  "sys_hist (bump_stat f st) = sys_hist st"
  "g_running (bump_stat f st) = g_running st"
  by (simp_all add: bump_stat_def)

lemma sys_write_eq: "sys_write os k buf st = (os_write os (sys_hist st) k buf,
    record_call (SWrite k buf (os_write os (sys_hist st) k buf)) st)"
  by (simp add: sys_write_def Let_def)

text \<open>
  The body and the \<open>while\<close> loop of \<open>flush_send_buffer\<close>: every successful \<open>write\<close> shortens the
  buffer, so the loop ends.
\<close>

function flush_loop :: "os \<Rightarrow> int \<Rightarrow> server \<Rightarrow> server" where
  "flush_loop os k st =
     (case conn_at st k of
        None \<Rightarrow> st
      | Some conn \<Rightarrow>
          if send_buf conn = [] then snd (update_epoll_events os (conn_fd conn) False st)
          else
            (case sys_write os (conn_fd conn) (send_buf conn) st of
               (Inr sent, st1) \<Rightarrow>
                 if sent > 0
                 then flush_loop os k
                        (set_conn k (conn\<lparr>send_buf := drop sent (send_buf conn)\<rparr>)
                          (bump_stat (\<lambda>s. s\<lparr>g_stat_bytes_out :=
                             g_stat_bytes_out s + word_of_nat sent\<rparr>) st1))
                 else close_connection os (conn_fd conn)
                        (bump_stat (\<lambda>s. s\<lparr>g_stat_write_errors := g_stat_write_errors s + 1\<rparr>) st1)
             | (Inl e, st1) \<Rightarrow>
                 if e = EAGAIN \<or> e = EWOULDBLOCK
                 then snd (update_epoll_events os (conn_fd conn) True st1)
                 else close_connection os (conn_fd conn)
                        (bump_stat (\<lambda>s. s\<lparr>g_stat_write_errors := g_stat_write_errors s + 1\<rparr>) st1)))"
  by pat_completeness auto
termination
  by (relation "measure (\<lambda>(os, k, st).
        case conn_at st k of None \<Rightarrow> 0 | Some c \<Rightarrow> length (send_buf c))")
    (auto simp: sys_write_eq)

declare flush_loop.simps [simp del]

definition flush_send_buffer :: "os \<Rightarrow> int \<Rightarrow> server \<Rightarrow> server" where
  "flush_send_buffer os k st =
     (case conn_at st k of
        None \<Rightarrow> st
      | Some conn \<Rightarrow>
          if conn_fd conn < 0 then st
          else if send_buf conn = [] then snd (update_epoll_events os (conn_fd conn) False st)
          else flush_loop os k st)"

definition handle_client_write :: "os \<Rightarrow> int \<Rightarrow> server \<Rightarrow> server" where
  "handle_client_write os k st =
     (case conn_at st k of
        None \<Rightarrow> close_connection os k st
      | Some conn \<Rightarrow> flush_send_buffer os k st)"

definition signal_handler :: "int \<Rightarrow> server \<Rightarrow> server" where
  "signal_handler signum st =
     (if signum = 2 \<or> signum = 15 then st\<lparr>g_running := False\<rparr> else st)"

definition O_NONBLOCK :: int where "O_NONBLOCK = 2048"

definition set_nonblocking :: "os \<Rightarrow> int \<Rightarrow> server \<Rightarrow> bool \<times> server" where
  "set_nonblocking os k st =
     (case sys_fcntl os k F_GETFL st of
        (Inl e, st1) \<Rightarrow> (False, st1)
      | (Inr flags, st1) \<Rightarrow>
          (case sys_fcntl os k (F_SETFL (flags OR O_NONBLOCK)) st1 of
             (Inl e, st2) \<Rightarrow> (False, st2)
           | (Inr _, st2) \<Rightarrow> (True, st2)))"

definition handle_new_connection :: "os \<Rightarrow> int \<Rightarrow> server \<Rightarrow> server" where
  "handle_new_connection os listen_fd st =
     (case sys_accept os listen_fd st of
        (Inl e, st1) \<Rightarrow> st1
      | (Inr client_fd, st1) \<Rightarrow>
          if um_size (g_connections st1) \<ge> MAX_CONNECTIONS then sys_close client_fd st1
          else
            (case set_nonblocking os client_fd st1 of
               (False, st2) \<Rightarrow> sys_close client_fd st2
             | (True, st2) \<Rightarrow>
                 let st3 = snd (sys_setsockopt os client_fd TCP_NODELAY st2);
                     st4 = snd (sys_setsockopt os client_fd SO_KEEPALIVE st3)
                 in (case sys_epoll_ctl os (CTL_ADD False) client_fd st4 of
                       (Some e, st5) \<Rightarrow> sys_close client_fd st5
                     | (None, st5) \<Rightarrow> set_conn client_fd (Connection_new client_fd) st5)))"


section \<open>Packets\<close>

text \<open>
  \<open>process_packet\<close>: \<open>k\<close> is the reference \<open>conn\<close>, \<open>dat\<close> the memory that \<open>data\<close> points to.
  The result is the C++ return value (\<open>False\<close>: close the connection) and the new state.
\<close>

definition process_packet :: "os \<Rightarrow> int \<Rightarrow> bytes \<Rightarrow> u32 \<Rightarrow> server \<Rightarrow> bool \<times> server" where
  "process_packet os k dat data_len st =
     (case conn_at st k of
        None \<Rightarrow> (True, st)
      | Some conn \<Rightarrow>
          let st1 = bump_stat (\<lambda>s. s\<lparr>g_stat_packets_in := g_stat_packets_in s + 1\<rparr>) st in
          if \<not> registered conn then
            if unat data_len \<noteq> MARK_SIZE then (False, st1)
            else
              let conn1 = conn\<lparr>mark := take MARK_SIZE dat\<rparr>;
                  key = mark_to_key (mark conn1);
                  st2 = set_conn k conn1 st1
              in if target_of st2 key \<noteq> None then (False, st2)
                 else (True,
                       (set_conn k (conn1\<lparr>registered := True\<rparr>) st2)
                         \<lparr>g_mark_to_fd := um_set key (conn_fd conn) (g_mark_to_fd st2)\<rparr>)
          else if unat data_len < MARK_SIZE then
            (True, bump_stat (\<lambda>s. s\<lparr>g_stat_drop_small_packet := g_stat_drop_small_packet s + 1\<rparr>) st1)
          else
            (case target_of st1 (mark_to_key dat) of
               None \<Rightarrow>
                 (True, bump_stat (\<lambda>s. s\<lparr>g_stat_drop_no_target := g_stat_drop_no_target s + 1\<rparr>) st1)
             | Some target_fd \<Rightarrow>
                 let payload_len = data_len - word_of_nat MARK_SIZE in
                 if payload_len > 0 then
                   (case conn_at st1 target_fd of
                      None \<Rightarrow> (True, st1)
                    | Some target_conn \<Rightarrow>
                        let prev_size = length (send_buf target_conn);
                            buf0 = send_buf target_conn @
                                     replicate (LENGTH_SIZE + unat payload_len) 0;
                            buf1 = write_packet_length prev_size payload_len buf0;
                            buf2 = memcpy_at (prev_size + LENGTH_SIZE)
                                     (take (unat payload_len) (drop MARK_SIZE dat)) buf1;
                            st2 = set_conn target_fd (target_conn\<lparr>send_buf := buf2\<rparr>) st1;
                            st3 = bump_stat
                                    (\<lambda>s. s\<lparr>g_stat_packets_out := g_stat_packets_out s + 1\<rparr>) st2
                        in (True, flush_send_buffer os target_fd st3))
                 else (True, st1)))"

text \<open>
  What \<open>flush_send_buffer\<close> can do to the connection that is being read: nothing to its receive
  buffer, unless it closes it.
\<close>

lemma update_epoll_events_simps [simp]:
  "g_connections (snd (update_epoll_events os k w st)) = g_connections st"
  "g_mark_to_fd (snd (update_epoll_events os k w st)) = g_mark_to_fd st"
  "g_stats (snd (update_epoll_events os k w st)) = g_stats st"
  "g_running (snd (update_epoll_events os k w st)) = g_running st"
  by (auto simp: update_epoll_events_def sys_epoll_ctl_def Let_def split: option.splits)

lemma conn_at_close_connection [simp]:
  "conn_at (close_connection os k st) j = (if j = k then None else conn_at st j)"
  by (auto simp: close_connection_def sys_defs split: option.splits)

definition keeps_recv :: "int \<Rightarrow> server \<Rightarrow> server \<Rightarrow> bool" where
  "keeps_recv k st st' \<longleftrightarrow>
     (\<forall>c'. conn_at st' k = Some c' \<longrightarrow>
        (\<exists>c. conn_at st k = Some c \<and> recv_buf c' = recv_buf c \<and> recv_len c' = recv_len c))"

lemma keeps_recv_refl [simp]: "keeps_recv k st st"
  by (simp add: keeps_recv_def)

lemma keeps_recv_trans: "keeps_recv k st st' \<Longrightarrow> keeps_recv k st' st'' \<Longrightarrow> keeps_recv k st st''"
  unfolding keeps_recv_def by fastforce

lemma keeps_recv_same: "g_connections st' = g_connections st \<Longrightarrow> keeps_recv k st st'"
  by (simp add: keeps_recv_def)

lemma keeps_recv_set_conn:
  "conn_at st j = Some c \<Longrightarrow> recv_buf c' = recv_buf c \<Longrightarrow> recv_len c' = recv_len c \<Longrightarrow>
   keeps_recv k st (set_conn j c' st)"
  by (simp add: keeps_recv_def)

lemma keeps_recv_close: "keeps_recv k st (close_connection os j st)"
  by (simp add: keeps_recv_def)

text \<open>
  Every fact about the flush loop is proved with one induction rule, which has a case for each
  way an iteration can go.
\<close>

definition after_write :: "int \<Rightarrow> Connection \<Rightarrow> errno + nat \<Rightarrow> server \<Rightarrow> server" where
  "after_write k c r st = record_call (SWrite (conn_fd c) (send_buf c) r) st"

definition after_progress :: "int \<Rightarrow> Connection \<Rightarrow> nat \<Rightarrow> server \<Rightarrow> server" where
  "after_progress k c n st =
     set_conn k (c\<lparr>send_buf := drop n (send_buf c)\<rparr>)
       (bump_stat (\<lambda>s. s\<lparr>g_stat_bytes_out := g_stat_bytes_out s + word_of_nat n\<rparr>)
         (after_write k c (Inr n) st))"

definition after_failure :: "os \<Rightarrow> int \<Rightarrow> Connection \<Rightarrow> errno + nat \<Rightarrow> server \<Rightarrow> server" where
  "after_failure os k c r st =
     close_connection os (conn_fd c)
       (bump_stat (\<lambda>s. s\<lparr>g_stat_write_errors := g_stat_write_errors s + 1\<rparr>) (after_write k c r st))"

definition fatal_write :: "errno + nat \<Rightarrow> bool" where
  "fatal_write r \<longleftrightarrow> r \<noteq> Inl EAGAIN \<and> r \<noteq> Inl EWOULDBLOCK \<and> (\<forall>n. r = Inr n \<longrightarrow> n = 0)"

lemma flush_loop_induct [case_names missing empty progress wait failure]:
  assumes missing: "\<And>st. conn_at st k = None \<Longrightarrow> P st st"
    and empty: "\<And>st c. conn_at st k = Some c \<Longrightarrow> send_buf c = [] \<Longrightarrow>
       P st (snd (update_epoll_events os (conn_fd c) False st))"
    and progress: "\<And>st c n. conn_at st k = Some c \<Longrightarrow> send_buf c \<noteq> [] \<Longrightarrow> n > 0 \<Longrightarrow>
       os_write os (sys_hist st) (conn_fd c) (send_buf c) = Inr n \<Longrightarrow>
       P (after_progress k c n st) (flush_loop os k (after_progress k c n st)) \<Longrightarrow>
       P st (flush_loop os k (after_progress k c n st))"
    and wait: "\<And>st c r. conn_at st k = Some c \<Longrightarrow> send_buf c \<noteq> [] \<Longrightarrow>
       os_write os (sys_hist st) (conn_fd c) (send_buf c) = r \<Longrightarrow>
       r \<in> {Inl EAGAIN, Inl EWOULDBLOCK} \<Longrightarrow>
       P st (snd (update_epoll_events os (conn_fd c) True (after_write k c r st)))"
    and failure: "\<And>st c r. conn_at st k = Some c \<Longrightarrow> send_buf c \<noteq> [] \<Longrightarrow>
       os_write os (sys_hist st) (conn_fd c) (send_buf c) = r \<Longrightarrow> fatal_write r \<Longrightarrow>
       P st (after_failure os k c r st)"
  shows "P st (flush_loop os k st)"
proof (induction "case conn_at st k of None \<Rightarrow> 0 | Some c \<Rightarrow> length (send_buf c)"
    arbitrary: st rule: less_induct)
  case less
  note step = flush_loop.simps [of os k st]
  show ?case
  proof (cases "conn_at st k")
    case None
    then show ?thesis using missing by (simp add: step)
  next
    case (Some c)
    let ?r = "os_write os (sys_hist st) (conn_fd c) (send_buf c)"
    show ?thesis
    proof (cases "send_buf c = []")
      case True
      with Some show ?thesis using empty by (simp add: step)
    next
      case ne: False
      consider n where "?r = Inr n" "n > 0" | "?r = Inr 0" | e where "?r = Inl e" by (cases ?r) auto
      then show ?thesis
      proof cases
        case 1
        then have unf: "flush_loop os k st = flush_loop os k (after_progress k c n st)"
          using Some ne by (simp add: step sys_write_eq after_progress_def after_write_def)
        show ?thesis
          unfolding unf using Some ne 1
          by (intro progress less) (auto simp: after_progress_def)
      next
        case 2
        then show ?thesis using failure [OF Some ne 2] Some ne
          by (simp add: step sys_write_eq after_failure_def after_write_def fatal_write_def)
      next
        case 3
        then show ?thesis using failure [OF Some ne 3] wait [OF Some ne 3] Some ne
          by (simp add: step sys_write_eq after_failure_def after_write_def fatal_write_def)
      qed
    qed
  qed
qed

lemma after_simps [simp]:
  "g_connections (after_write k c r st) = g_connections st"
  "g_mark_to_fd (after_write k c r st) = g_mark_to_fd st"
  "g_running (after_write k c r st) = g_running st"
  "sys_hist (after_write k c r st) = SWrite (conn_fd c) (send_buf c) r # sys_hist st"
  "conn_at (after_progress k c n st) j =
     (if j = k then Some (c\<lparr>send_buf := drop n (send_buf c)\<rparr>) else conn_at st j)"
  "g_mark_to_fd (after_progress k c n st) = g_mark_to_fd st"
  "g_running (after_progress k c n st) = g_running st"
  "sys_hist (after_progress k c n st) = SWrite (conn_fd c) (send_buf c) (Inr n) # sys_hist st"
  "conn_at (after_failure os k c r st) j = (if j = conn_fd c then None else conn_at st j)"
  by (simp_all add: after_write_def after_progress_def after_failure_def)

lemma keeps_recv_flush_loop: "keeps_recv j st (flush_loop os k st)"
  by (induction st rule: flush_loop_induct) (auto simp: keeps_recv_def split: if_splits)

lemma keeps_recv_flush: "keeps_recv j st (flush_send_buffer os k st)"
  using keeps_recv_flush_loop
  by (auto simp: flush_send_buffer_def keeps_recv_same split: option.splits)

text \<open>The branches of \<open>process_packet\<close>, by name, with the state each of them leaves.\<close>

definition count_packet :: "server \<Rightarrow> server" where
  "count_packet st = bump_stat (\<lambda>s. s\<lparr>g_stat_packets_in := g_stat_packets_in s + 1\<rparr>) st"

definition after_register :: "int \<Rightarrow> Connection \<Rightarrow> bytes \<Rightarrow> server \<Rightarrow> server" where
  "after_register k c dat st =
     (set_conn k (c\<lparr>mark := take MARK_SIZE dat, registered := True\<rparr>)
        (set_conn k (c\<lparr>mark := take MARK_SIZE dat\<rparr>) (count_packet st)))
       \<lparr>g_mark_to_fd := um_set (mark_to_key dat) (conn_fd c) (g_mark_to_fd st)\<rparr>"

definition after_enqueue :: "int \<Rightarrow> Connection \<Rightarrow> bytes \<Rightarrow> server \<Rightarrow> server" where
  "after_enqueue t tc payload st =
     bump_stat (\<lambda>s. s\<lparr>g_stat_packets_out := g_stat_packets_out s + 1\<rparr>)
       (set_conn t (tc\<lparr>send_buf := send_buf tc @ frame payload\<rparr>) (count_packet st))"

lemma after_packet_simps [simp]:
  "g_connections (count_packet st) = g_connections st"
  "g_mark_to_fd (count_packet st) = g_mark_to_fd st"
  "g_running (count_packet st) = g_running st"
  "sys_hist (count_packet st) = sys_hist st"
  "conn_at (after_register k c dat st) j =
     (if j = k then Some (c\<lparr>mark := take MARK_SIZE dat, registered := True\<rparr>) else conn_at st j)"
  "g_mark_to_fd (after_register k c dat st) =
     um_set (mark_to_key dat) (conn_fd c) (g_mark_to_fd st)"
  "g_running (after_register k c dat st) = g_running st"
  "sys_hist (after_register k c dat st) = sys_hist st"
  "conn_at (after_enqueue t tc p st) j =
     (if j = t then Some (tc\<lparr>send_buf := send_buf tc @ frame p\<rparr>) else conn_at st j)"
  "g_mark_to_fd (after_enqueue t tc p st) = g_mark_to_fd st"
  "g_running (after_enqueue t tc p st) = g_running st"
  "sys_hist (after_enqueue t tc p st) = sys_hist st"
  by (simp_all add: count_packet_def after_register_def after_enqueue_def set_conn_def)

lemma enqueue_buffer:
  assumes "length payload = unat n"
  shows "memcpy_at (length buf + LENGTH_SIZE) payload
           (write_packet_length (length buf) n (buf @ replicate (LENGTH_SIZE + unat n) 0))
         = buf @ frame payload"
proof -
  have "write_packet_length (length buf) n (buf @ replicate (LENGTH_SIZE + unat n) 0)
      = buf @ length_bytes n @ replicate (unat n) 0"
    using write_packet_length_append [of "replicate 4 0" buf n "replicate (unat n) 0"]
    by (simp add: LENGTH_SIZE_def replicate_add)
  moreover have "memcpy_at (length (buf @ length_bytes n)) payload
      ((buf @ length_bytes n) @ replicate (unat n) 0) = (buf @ length_bytes n) @ payload"
    using assms by (simp only: memcpy_at_append) simp
  ultimately show ?thesis
    using assms by (simp add: LENGTH_SIZE_def frame_def length_bytes_le_bytes)
qed

lemma unat_minus_MARK_SIZE:
  "MARK_SIZE \<le> unat n \<Longrightarrow> unat (n - word_of_nat MARK_SIZE :: u32) = unat n - MARK_SIZE"
  by (simp add: MARK_SIZE_def unat_sub word_le_nat_alt)

lemma process_packet_cases [consumes 2]:
  assumes "conn_at st k = Some c" and "unat n \<le> length dat"
  obtains
    (bad_length) "\<not> registered c" "unat n \<noteq> MARK_SIZE"
      "process_packet os k dat n st = (False, count_packet st)"
  | (duplicate) t where "\<not> registered c" "unat n = MARK_SIZE" "target_of st (mark_to_key dat) = Some t"
      "process_packet os k dat n st =
         (False, set_conn k (c\<lparr>mark := take MARK_SIZE dat\<rparr>) (count_packet st))"
  | (register) "\<not> registered c" "unat n = MARK_SIZE" "target_of st (mark_to_key dat) = None"
      "process_packet os k dat n st = (True, after_register k c dat st)"
  | (small) "registered c" "unat n < MARK_SIZE"
      "process_packet os k dat n st = (True, bump_stat (\<lambda>s. s\<lparr>g_stat_drop_small_packet :=
         g_stat_drop_small_packet s + 1\<rparr>) (count_packet st))"
  | (no_target) "registered c" "MARK_SIZE \<le> unat n" "target_of st (mark_to_key dat) = None"
      "process_packet os k dat n st = (True, bump_stat (\<lambda>s. s\<lparr>g_stat_drop_no_target :=
         g_stat_drop_no_target s + 1\<rparr>) (count_packet st))"
  | (no_payload) t where "registered c" "unat n = MARK_SIZE"
      "target_of st (mark_to_key dat) = Some t"
      "process_packet os k dat n st = (True, count_packet st)"
  | (lost_target) t where "registered c" "MARK_SIZE < unat n"
      "target_of st (mark_to_key dat) = Some t" "conn_at st t = None"
      "process_packet os k dat n st = (True, count_packet st)"
  | (forward) t tc where "registered c" "MARK_SIZE < unat n"
      "target_of st (mark_to_key dat) = Some t" "conn_at st t = Some tc"
      "process_packet os k dat n st = (True, flush_send_buffer os t
         (after_enqueue t tc (drop MARK_SIZE (take (unat n) dat)) st))"
proof (cases "registered c")
  case False
  then show thesis
    using bad_length duplicate register assms(1)
    by (cases "unat n = MARK_SIZE"; cases "target_of st (mark_to_key dat)")
      (simp_all add: process_packet_def Let_def count_packet_def after_register_def
        MARK_SIZE_def set_conn_def)
next
  case reg: True
  note pp = process_packet_def [of os k dat n st] Let_def
  consider "unat n < MARK_SIZE" | "MARK_SIZE \<le> unat n" by linarith
  then show thesis
  proof cases
    case 1
    then show thesis using small assms(1) reg by (simp add: pp count_packet_def)
  next
    case 2
    let ?p = "n - word_of_nat MARK_SIZE :: u32"
    have u: "unat ?p = unat n - MARK_SIZE" using 2 by (rule unat_minus_MARK_SIZE)
    show thesis
    proof (cases "target_of st (mark_to_key dat)")
      case None
      then show thesis using no_target 2 assms(1) reg by (simp add: pp count_packet_def not_less)
    next
      case (Some t)
      show thesis
      proof (cases "unat n = MARK_SIZE")
        case True
        then have "\<not> ?p > 0" using u by (simp add: word_less_nat_alt)
        then show thesis
          using no_payload Some True assms(1) reg by (simp add: pp count_packet_def)
      next
        case False
        then have pos: "?p > 0" using u 2 by (simp add: word_less_nat_alt)
        have pl: "take (unat ?p) (drop MARK_SIZE dat) = drop MARK_SIZE (take (unat n) dat)"
          using u 2 by (simp add: take_drop)
        have len: "length (drop MARK_SIZE (take (unat n) dat)) = unat ?p"
          using u assms(2) by simp
        show thesis
        proof (cases "conn_at st t")
          case None
          then show thesis
            using lost_target [OF reg _ Some None] 2 False Some pos assms(1) reg
            by (simp add: pp count_packet_def not_less)
        next
          case tc: (Some tc)
          then show thesis
            using forward [OF reg _ Some tc] 2 False Some pos assms(1) reg
            by (simp add: pp pl enqueue_buffer [OF len] after_enqueue_def count_packet_def not_less)
        qed
      qed
    qed
  qed
qed


lemma keeps_recv_bump: "keeps_recv j st (bump_stat f st') \<longleftrightarrow> keeps_recv j st st'"
  by (simp add: keeps_recv_def)

lemma keeps_recv_marks: "keeps_recv j st (st'\<lparr>g_mark_to_fd := m\<rparr>) \<longleftrightarrow> keeps_recv j st st'"
  by (simp add: keeps_recv_def)

lemma keeps_recv_put:
  "keeps_recv j st st' \<Longrightarrow> conn_at st' t = Some c \<Longrightarrow> recv_buf c' = recv_buf c \<Longrightarrow>
   recv_len c' = recv_len c \<Longrightarrow> keeps_recv j st (set_conn t c' st')"
  by (rule keeps_recv_trans [OF _ keeps_recv_set_conn])

lemma keeps_recv_flushed: "keeps_recv j st st' \<Longrightarrow> keeps_recv j st (flush_send_buffer os t st')"
  by (rule keeps_recv_trans [OF _ keeps_recv_flush])

lemma keeps_recv_process_packet: "keeps_recv j st (snd (process_packet os k dat n st))"
proof (cases "conn_at st k")
  case (Some c)
  then show ?thesis
    by (auto simp: process_packet_def Let_def keeps_recv_bump keeps_recv_marks
        split: option.split intro!: keeps_recv_flushed keeps_recv_put)
qed (simp add: process_packet_def)


section \<open>Reading\<close>

text \<open>
  The packet loop of \<open>handle_client_data\<close>.  \<open>Inl UseAfterFree\<close>: \<open>conn.consume\<close> is called on a
  connection that \<open>process_packet\<close> erased.
\<close>

lemma recv_len_consume: "recv_len (consume n c) = recv_len c - n"
  by (simp add: consume_def)

lemma total_len_eq:
  "\<not> MAX_PACKET_SIZE < n \<Longrightarrow> unat (word_of_nat LENGTH_SIZE + n) = LENGTH_SIZE + unat n"
  by (simp add: LENGTH_SIZE_def MAX_PACKET_SIZE_def unat_word_ariths not_less word_le_nat_alt)

function packet_loop :: "os \<Rightarrow> int \<Rightarrow> server \<Rightarrow> fault + server" where
  "packet_loop os k st =
     (case conn_at st k of
        None \<Rightarrow> Inl UseAfterFree
      | Some conn \<Rightarrow>
          if recv_len conn < LENGTH_SIZE then Inr st
          else
            let packet_len = read_packet_length (recv_buf conn) in
            if packet_len = 0 \<or> packet_len > MAX_PACKET_SIZE
               \<or> word_of_nat LENGTH_SIZE + packet_len > word_of_nat BUFFER_SIZE
            then Inr (close_connection os k st)
            else
              let total_len = unat (word_of_nat LENGTH_SIZE + packet_len) in
              if recv_len conn < total_len then Inr st
              else
                (case process_packet os k (drop LENGTH_SIZE (recv_buf conn)) packet_len st of
                   (False, st1) \<Rightarrow> Inr (close_connection os k st1)
                 | (True, st1) \<Rightarrow>
                     (case conn_at st1 k of
                        None \<Rightarrow> Inl UseAfterFree
                      | Some conn1 \<Rightarrow> packet_loop os k (set_conn k (consume total_len conn1) st1))))"
  by pat_completeness auto
termination
proof (relation "measure (\<lambda>(os, k, st). case conn_at st k of None \<Rightarrow> 0 | Some c \<Rightarrow> recv_len c)",
    goal_cases)
  case (2 os k st c n total ok st1 c1)
  have "keeps_recv k st st1"
    using keeps_recv_process_packet [of k st os k "drop LENGTH_SIZE (recv_buf c)" n] 2(7)
    by (metis snd_conv)
  then have "recv_len c1 = recv_len c" using 2(1,9) by (auto simp: keeps_recv_def)
  moreover have "0 < total" using 2(4,5) total_len_eq [of n] by (simp add: LENGTH_SIZE_def)
  ultimately show ?case using 2 by (simp add: recv_len_consume)
qed simp

declare packet_loop.simps [simp del]

definition handle_client_data :: "os \<Rightarrow> int \<Rightarrow> server \<Rightarrow> fault + server" where
  "handle_client_data os k st =
     (case conn_at st k of
        None \<Rightarrow> Inr (close_connection os k st)
      | Some conn \<Rightarrow>
          let available = BUFFER_SIZE - recv_len conn in
          if available = 0 then Inr (close_connection os k st)
          else
            (case sys_read os k available st of
               (Inr bs, st1) \<Rightarrow>
                 if bs = [] then Inr (close_connection os k st1)
                 else
                   let conn1 = conn\<lparr>recv_buf := memcpy_at (recv_len conn) bs (recv_buf conn),
                                    recv_len := recv_len conn + length bs\<rparr>;
                       st2 = bump_stat (\<lambda>s. s\<lparr>g_stat_bytes_in :=
                               g_stat_bytes_in s + word_of_nat (length bs)\<rparr>) (set_conn k conn1 st1)
                   in packet_loop os k st2
             | (Inl e, st1) \<Rightarrow>
                 if e \<noteq> EAGAIN \<and> e \<noteq> EWOULDBLOCK then Inr (close_connection os k st1)
                 else Inr st1))"


text \<open>The packet lengths the server accepts, and the induction rule for its packet loop.\<close>

definition legal_length :: "u32 \<Rightarrow> bool" where
  "legal_length n \<longleftrightarrow> 1 \<le> unat n \<and> unat n \<le> BUFFER_SIZE - LENGTH_SIZE"

lemma legal_length_iff:
  "legal_length n \<longleftrightarrow> \<not> (n = 0 \<or> n > MAX_PACKET_SIZE
     \<or> word_of_nat LENGTH_SIZE + n > word_of_nat BUFFER_SIZE)"
proof (cases "n > MAX_PACKET_SIZE")
  case True
  then show ?thesis
    by (simp add: legal_length_def MAX_PACKET_SIZE_def BUFFER_SIZE_def LENGTH_SIZE_def
        word_less_nat_alt)
next
  case False
  have "n = 0 \<longleftrightarrow> unat n = 0" by (simp add: unat_eq_0)
  moreover have "word_of_nat LENGTH_SIZE + n > word_of_nat BUFFER_SIZE \<longleftrightarrow> unat n > BUFFER_SIZE - LENGTH_SIZE"
    using total_len_eq [OF False]
    by (simp add: word_less_nat_alt BUFFER_SIZE_def LENGTH_SIZE_def)
  ultimately show ?thesis using False by (auto simp: legal_length_def)
qed

lemma legal_total_len:
  "legal_length n \<Longrightarrow> unat (word_of_nat LENGTH_SIZE + n) = LENGTH_SIZE + unat n"
  using total_len_eq [of n] legal_length_iff [of n] by blast

abbreviation next_packet :: "Connection \<Rightarrow> u32" where
  "next_packet c \<equiv> read_packet_length (recv_buf c)"

text \<open>The four ways a round of the loop can begin.\<close>

lemma packet_loop_short:
  "conn_at st k = Some c \<Longrightarrow> recv_len c < LENGTH_SIZE \<Longrightarrow> packet_loop os k st = Inr st"
  by (simp add: packet_loop.simps)

lemmas packet_loop_unfold = packet_loop.simps [unfolded Let_def legal_length_iff [symmetric]]

lemma packet_loop_illegal:
  assumes "conn_at st k = Some c" and "LENGTH_SIZE \<le> recv_len c" and "\<not> legal_length (next_packet c)"
  shows "packet_loop os k st = Inr (close_connection os k st)"
  using assms by (subst packet_loop_unfold) (auto simp: legal_length_iff)

lemma packet_loop_incomplete:
  assumes "conn_at st k = Some c" and "LENGTH_SIZE \<le> recv_len c" and "legal_length (next_packet c)"
    and "recv_len c < LENGTH_SIZE + unat (next_packet c)"
  shows "packet_loop os k st = Inr st"
  using assms legal_total_len [OF assms(3)] by (subst packet_loop_unfold) (auto simp: legal_length_iff)

lemma packet_loop_complete:
  assumes "conn_at st k = Some c" and "legal_length (next_packet c)"
    and "LENGTH_SIZE + unat (next_packet c) \<le> recv_len c"
  shows "packet_loop os k st =
     (case process_packet os k (drop LENGTH_SIZE (recv_buf c)) (next_packet c) st of
        (False, st1) \<Rightarrow> Inr (close_connection os k st1)
      | (True, st1) \<Rightarrow>
          (case conn_at st1 k of
             None \<Rightarrow> Inl UseAfterFree
           | Some c1 \<Rightarrow> packet_loop os k
               (set_conn k (consume (LENGTH_SIZE + unat (next_packet c)) c1) st1)))"
  using assms legal_total_len [OF assms(2)]
  by (subst packet_loop_unfold)
    (simp add: legal_length_iff not_less [symmetric] split: prod.split bool.split option.split)

lemma packet_loop_induct [case_names gone short illegal incomplete rejected freed another]:
  assumes gone: "\<And>st. conn_at st k = None \<Longrightarrow> P st (Inl UseAfterFree)"
    and short: "\<And>st c. conn_at st k = Some c \<Longrightarrow> recv_len c < LENGTH_SIZE \<Longrightarrow> P st (Inr st)"
    and illegal: "\<And>st c. conn_at st k = Some c \<Longrightarrow> LENGTH_SIZE \<le> recv_len c \<Longrightarrow>
       \<not> legal_length (next_packet c) \<Longrightarrow> P st (Inr (close_connection os k st))"
    and incomplete: "\<And>st c. conn_at st k = Some c \<Longrightarrow> LENGTH_SIZE \<le> recv_len c \<Longrightarrow>
       legal_length (next_packet c) \<Longrightarrow> recv_len c < LENGTH_SIZE + unat (next_packet c) \<Longrightarrow>
       P st (Inr st)"
    and rejected: "\<And>st c st1. conn_at st k = Some c \<Longrightarrow> legal_length (next_packet c) \<Longrightarrow>
       LENGTH_SIZE + unat (next_packet c) \<le> recv_len c \<Longrightarrow>
       process_packet os k (drop LENGTH_SIZE (recv_buf c)) (next_packet c) st = (False, st1) \<Longrightarrow>
       P st (Inr (close_connection os k st1))"
    and freed: "\<And>st c st1. conn_at st k = Some c \<Longrightarrow> legal_length (next_packet c) \<Longrightarrow>
       LENGTH_SIZE + unat (next_packet c) \<le> recv_len c \<Longrightarrow>
       process_packet os k (drop LENGTH_SIZE (recv_buf c)) (next_packet c) st = (True, st1) \<Longrightarrow>
       conn_at st1 k = None \<Longrightarrow> P st (Inl UseAfterFree)"
    and another: "\<And>st c st1 c1 st2. conn_at st k = Some c \<Longrightarrow> legal_length (next_packet c) \<Longrightarrow>
       LENGTH_SIZE + unat (next_packet c) \<le> recv_len c \<Longrightarrow>
       process_packet os k (drop LENGTH_SIZE (recv_buf c)) (next_packet c) st = (True, st1) \<Longrightarrow>
       conn_at st1 k = Some c1 \<Longrightarrow>
       st2 = set_conn k (consume (LENGTH_SIZE + unat (next_packet c)) c1) st1 \<Longrightarrow>
       P st2 (packet_loop os k st2) \<Longrightarrow> P st (packet_loop os k st2)"
  shows "P st (packet_loop os k st)"
proof (induction "case conn_at st k of None \<Rightarrow> 0 | Some c \<Rightarrow> recv_len c"
    arbitrary: st rule: less_induct)
  case less
  show ?case
  proof (cases "conn_at st k")
    case None
    then show ?thesis using gone by (simp add: packet_loop.simps)
  next
    case (Some c)
    let ?n = "next_packet c"
    consider "recv_len c < LENGTH_SIZE" | "LENGTH_SIZE \<le> recv_len c" "\<not> legal_length ?n"
      | "LENGTH_SIZE \<le> recv_len c" "legal_length ?n" "recv_len c < LENGTH_SIZE + unat ?n"
      | "legal_length ?n" "LENGTH_SIZE + unat ?n \<le> recv_len c"
      by linarith
    then show ?thesis
    proof cases
      case 4
      note unf = packet_loop_complete [OF Some 4]
      obtain ok st1 where r: "process_packet os k (drop LENGTH_SIZE (recv_buf c)) ?n st = (ok, st1)"
        by (cases "process_packet os k (drop LENGTH_SIZE (recv_buf c)) ?n st")
      show ?thesis
      proof (cases "ok \<and> conn_at st1 k \<noteq> None")
        case False
        then show ?thesis
          using rejected [OF Some 4, of st1] freed [OF Some 4, of st1] r by (cases ok) (auto simp: unf)
      next
        case True
        then obtain c1 where ok: ok and c1: "conn_at st1 k = Some c1" by auto
        have "keeps_recv k st st1" using keeps_recv_process_packet [of k st] r by (metis snd_conv)
        then have "recv_len c1 = recv_len c" using Some c1 by (auto simp: keeps_recv_def)
        then have "P (set_conn k (consume (LENGTH_SIZE + unat ?n) c1) st1)
            (packet_loop os k (set_conn k (consume (LENGTH_SIZE + unat ?n) c1) st1))"
          using Some 4 by (intro less) (simp add: recv_len_consume LENGTH_SIZE_def)
        then show ?thesis using another [OF Some 4 _ c1 refl] r ok c1 by (simp add: unf)
      qed
    qed (simp_all add: Some short illegal incomplete packet_loop_short packet_loop_illegal packet_loop_incomplete)
  qed
qed

text \<open>One successful \<open>read\<close>, as the state in which the packet loop starts.\<close>

definition after_read :: "int \<Rightarrow> Connection \<Rightarrow> bytes \<Rightarrow> server \<Rightarrow> server" where
  "after_read k c bs st =
     bump_stat (\<lambda>s. s\<lparr>g_stat_bytes_in := g_stat_bytes_in s + word_of_nat (length bs)\<rparr>)
       (set_conn k (c\<lparr>recv_buf := memcpy_at (recv_len c) bs (recv_buf c),
                      recv_len := recv_len c + length bs\<rparr>)
         (record_call (SRead k (BUFFER_SIZE - recv_len c) (Inr bs)) st))"

lemma handle_client_data_cases [consumes 1, case_names full eof failed again data]:
  assumes "conn_at st k = Some c"
  obtains (full) "BUFFER_SIZE \<le> recv_len c"
      "handle_client_data os k st = Inr (close_connection os k st)"
  | (eof) r where "recv_len c < BUFFER_SIZE" "r = Inr []"
      "os_read os (sys_hist st) k (BUFFER_SIZE - recv_len c) = r"
      "handle_client_data os k st =
         Inr (close_connection os k (record_call (SRead k (BUFFER_SIZE - recv_len c) r) st))"
  | (failed) e r where "recv_len c < BUFFER_SIZE" "r = Inl e" "e \<noteq> EAGAIN" "e \<noteq> EWOULDBLOCK"
      "os_read os (sys_hist st) k (BUFFER_SIZE - recv_len c) = r"
      "handle_client_data os k st =
         Inr (close_connection os k (record_call (SRead k (BUFFER_SIZE - recv_len c) r) st))"
  | (again) e r where "recv_len c < BUFFER_SIZE" "r = Inl e" "e = EAGAIN \<or> e = EWOULDBLOCK"
      "os_read os (sys_hist st) k (BUFFER_SIZE - recv_len c) = r"
      "handle_client_data os k st = Inr (record_call (SRead k (BUFFER_SIZE - recv_len c) r) st)"
  | (data) bs where "recv_len c < BUFFER_SIZE" "bs \<noteq> []"
      "os_read os (sys_hist st) k (BUFFER_SIZE - recv_len c) = Inr bs"
      "handle_client_data os k st = packet_loop os k (after_read k c bs st)"
proof (cases "BUFFER_SIZE \<le> recv_len c")
  case True
  then show thesis using full assms by (simp add: handle_client_data_def)
next
  case False
  let ?r = "os_read os (sys_hist st) k (BUFFER_SIZE - recv_len c)"
  note unf = handle_client_data_def sys_read_def Let_def after_read_def
  show thesis
  proof (cases ?r)
    case (Inl e)
    then show thesis using failed [of ?r e] again [of ?r e] False assms by (force simp: unf)
  next
    case (Inr bs)
    then show thesis using eof [of ?r] data [of bs] False assms by (cases "bs = []") (auto simp: unf)
  qed
qed

lemma read_fits:
  assumes "os_read_bounded os" and "os_read os h k (BUFFER_SIZE - recv_len c) = Inr bs"
    and "recv_len c < BUFFER_SIZE"
  shows "recv_len c + length bs \<le> BUFFER_SIZE"
  using assms by (fastforce simp: os_read_bounded_def)

end
