(* ===== verification/Relay_Spec.thy ===== *)
theory Relay_Spec
  imports Relay_Server
begin

text \<open>
  What the relay is for, without sockets, buffers and epoll: an abstract relay in which every
  client has an optional registration, the bytes it sent that are not processed yet, and the
  stream of bytes it is due to receive.  It is executable, and its theory is that of streams: how
  the bytes of a client are cut into pieces does not matter, and a stream of packets is processed
  packet by packet.  \<open>Relay_Refinement\<close> shows that the server implements it.
\<close>

section \<open>The abstract relay\<close>

record client =
  reg :: "u64 option"
  inb :: bytes
  outb :: bytes

type_synonym relay = "int \<Rightarrow> client option"

datatype parse = Incomplete | Illegal | Complete bytes bytes

definition next_frame :: "bytes \<Rightarrow> parse" where
  "next_frame xs =
     (if length xs < LENGTH_SIZE then Incomplete
      else if \<not> legal_length (read_packet_length xs) then Illegal
      else
        let n = unat (read_packet_length xs)
        in if length xs < LENGTH_SIZE + n then Incomplete
           else Complete (take n (drop LENGTH_SIZE xs)) (drop (LENGTH_SIZE + n) xs))"

text \<open>
  A packet of client \<open>k\<close>: the first one registers the client (or ends the connection), every
  later one is delivered to the client that registered the mark in its first eight bytes.
\<close>

definition deliver :: "u64 \<Rightarrow> bytes \<Rightarrow> relay \<Rightarrow> relay" where
  "deliver key payload R =
     (\<lambda>j. map_option (\<lambda>c. if reg c = Some key then c\<lparr>outb := outb c @ frame payload\<rparr> else c) (R j))"

definition key_free :: "relay \<Rightarrow> u64 \<Rightarrow> bool" where
  "key_free R key \<longleftrightarrow> (\<forall>j c. R j = Some c \<longrightarrow> reg c \<noteq> Some key)"

definition spec_packet :: "int \<Rightarrow> bytes \<Rightarrow> relay \<Rightarrow> relay" where
  "spec_packet k p R =
     (case R k of
        None \<Rightarrow> R
      | Some c \<Rightarrow>
          (case reg c of
             None \<Rightarrow>
               if length p = MARK_SIZE \<and> key_free R (mark_to_key p)
               then R(k := Some (c\<lparr>reg := Some (mark_to_key p)\<rparr>))
               else R(k := None)
           | Some _ \<Rightarrow>
               if length p > MARK_SIZE then deliver (mark_to_key p) (drop MARK_SIZE p) R else R))"

lemma deliver_inb: "map_option inb (deliver key p R j) = map_option inb (R j)"
  by (cases "R j") (simp_all add: deliver_def)

lemma spec_packet_inb: "spec_packet k p R j = Some c' \<Longrightarrow> \<exists>c. R j = Some c \<and> inb c' = inb c"
  by (auto simp: spec_packet_def deliver_def split: option.splits if_splits)

lemma next_frame_shrinks: "next_frame xs = Complete p rest \<Longrightarrow> length rest < length xs"
  by (auto simp: next_frame_def Let_def LENGTH_SIZE_def split: if_splits)

lemma deliver_nobody: "key_free R key \<Longrightarrow> deliver key p R = R"
  by (rule ext) (auto simp: deliver_def key_free_def map_option_case split: option.split)

lemma next_frame_Nil [simp]: "next_frame [] = Incomplete"
  by (simp add: next_frame_def LENGTH_SIZE_def)

function spec_loop :: "int \<Rightarrow> relay \<Rightarrow> relay" where
  "spec_loop k R =
     (case R k of
        None \<Rightarrow> R
      | Some c \<Rightarrow>
          (case next_frame (inb c) of
             Incomplete \<Rightarrow> R
           | Illegal \<Rightarrow> R(k := None)
           | Complete p rest \<Rightarrow>
               (case spec_packet k p R k of
                  None \<Rightarrow> spec_packet k p R
                | Some c' \<Rightarrow> spec_loop k ((spec_packet k p R)(k := Some (c'\<lparr>inb := rest\<rparr>))))))"
  by pat_completeness auto
termination
  by (relation "measure (\<lambda>(k, R). case R k of None \<Rightarrow> 0 | Some c \<Rightarrow> length (inb c))")
    (auto dest: next_frame_shrinks)

declare spec_loop.simps [simp del]

lemma spec_loop_stop:
  "R k = Some c \<Longrightarrow> next_frame (inb c) = Incomplete \<Longrightarrow> spec_loop k R = R"
  by (simp add: spec_loop.simps)

lemma spec_loop_illegal:
  "R k = Some c \<Longrightarrow> next_frame (inb c) = Illegal \<Longrightarrow> spec_loop k R = R(k := None)"
  by (simp add: spec_loop.simps)

lemma spec_loop_reject:
  "R k = Some c \<Longrightarrow> next_frame (inb c) = Complete p rest \<Longrightarrow> spec_packet k p R k = None \<Longrightarrow>
   spec_loop k R = spec_packet k p R"
  by (simp add: spec_loop.simps)

lemma spec_loop_next:
  "R k = Some c \<Longrightarrow> next_frame (inb c) = Complete p rest \<Longrightarrow> spec_packet k p R k = Some c' \<Longrightarrow>
   spec_loop k R = spec_loop k ((spec_packet k p R)(k := Some (c'\<lparr>inb := rest\<rparr>)))"
  by (subst spec_loop.simps) simp

definition spec_input :: "int \<Rightarrow> bytes \<Rightarrow> relay \<Rightarrow> relay" where
  "spec_input k bs R =
     (case R k of
        None \<Rightarrow> R
      | Some c \<Rightarrow> spec_loop k (R(k := Some (c\<lparr>inb := inb c @ bs\<rparr>))))"


section \<open>Streams\<close>

definition with_inb :: "int \<Rightarrow> bytes \<Rightarrow> relay \<Rightarrow> relay" where
  "with_inb k i R = R(k := map_option (\<lambda>c. c\<lparr>inb := i\<rparr>) (R k))"

lemma with_inb_twice [simp]: "with_inb k i (with_inb k j R) = with_inb k i R"
  by (cases "R k") (simp_all add: with_inb_def)

lemma with_inb_same: "R k = Some c \<Longrightarrow> with_inb k (inb c) R = R"
  by (rule ext) (simp add: with_inb_def)

lemma with_inb_at: "R k = Some c \<Longrightarrow> with_inb k i R k = Some (c\<lparr>inb := i\<rparr>)"
  by (simp add: with_inb_def)

lemma reg_with_inb: "map_option reg (with_inb k i R j) = map_option reg (R j)"
  by (cases "R j") (auto simp: with_inb_def)

lemma key_free_alt: "key_free R key \<longleftrightarrow> (\<forall>j. map_option reg (R j) \<noteq> Some (Some key))"
  by (auto simp: key_free_def)

lemma key_free_with_inb [simp]: "key_free (with_inb k i R) key \<longleftrightarrow> key_free R key"
  by (simp only: key_free_alt reg_with_inb)

lemma deliver_with_inb: "deliver key p (with_inb k i R) = with_inb k i (deliver key p R)"
  by (rule ext) (cases "R k"; auto simp: deliver_def with_inb_def)

text \<open>What a packet does depends on the packet, not on the bytes that follow it.\<close>

lemma spec_packet_with_inb: "spec_packet k p (with_inb k i R) = with_inb k i (spec_packet k p R)"
proof (cases "R k")
  case (Some c)
  note at = with_inb_at [of R, OF this, of i]
  show ?thesis
  proof (cases "reg c")
    case None
    have "c\<lparr>inb := i, reg := r\<rparr> = c\<lparr>reg := r, inb := i\<rparr>" for r by (cases c) simp
    then show ?thesis using None Some at by (simp add: spec_packet_def) (auto simp: with_inb_def)
  next
    case (Some key)
    then show ?thesis using \<open>R k = Some c\<close> at by (simp add: spec_packet_def deliver_with_inb)
  qed
qed (simp add: spec_packet_def with_inb_def)

lemma spec_loop_alt:
  "spec_loop k (with_inb k i R) =
     (case next_frame i of
        Incomplete \<Rightarrow> with_inb k i R
      | Illegal \<Rightarrow> R(k := None)
      | Complete p rest \<Rightarrow> spec_loop k (with_inb k rest (spec_packet k p R)))"
proof (cases "R k")
  case None
  then have "with_inb k j R = R" "R(k := None) = R" "spec_packet k p R = R" "spec_loop k R = R" for j p
    by (auto simp: with_inb_def spec_packet_def spec_loop.simps fun_eq_iff)
  then show ?thesis by (simp split: parse.split)
next
  case (Some c)
  have at: "with_inb k i R k = Some (c\<lparr>inb := i\<rparr>)" using Some by (rule with_inb_at)
  show ?thesis
  proof (cases "next_frame i")
    case (Complete p rest)
    show ?thesis
    proof (cases "spec_packet k p R k")
      case None
      then have eq: "with_inb k j (spec_packet k p R) = spec_packet k p R" for j
        by (auto simp: with_inb_def fun_eq_iff)
      then show ?thesis
        using at Complete None
        by (simp add: spec_loop.simps [of k "with_inb k i R"] spec_packet_with_inb
            spec_loop.simps [of k "spec_packet k p R"])
    next
      case c': (Some c')
      have "spec_loop k (with_inb k i R) =
          spec_loop k ((spec_packet k p (with_inb k i R))(k := Some (c'\<lparr>inb := i, inb := rest\<rparr>)))"
        using Complete c' by (intro spec_loop_next [of "with_inb k i R" k, OF at]) (simp_all add: spec_packet_with_inb with_inb_at)
      also have "(spec_packet k p (with_inb k i R))(k := Some (c'\<lparr>inb := i, inb := rest\<rparr>)) =
          with_inb k rest (spec_packet k p R)"
        using c' by (simp add: spec_packet_with_inb) (simp add: with_inb_def)
      finally show ?thesis using Complete by simp
    qed
  next
    case Illegal
    then show ?thesis using spec_loop_illegal [of "with_inb k i R", OF at] by (simp add: with_inb_def)
  next
    case Incomplete
    then show ?thesis using spec_loop_stop [of "with_inb k i R", OF at] by simp
  qed
qed

lemma spec_input_eq: "R k = Some c \<Longrightarrow> spec_input k bs R = spec_loop k (with_inb k (inb c @ bs) R)"
  by (simp add: spec_input_def with_inb_def)

lemma next_frame_append:
  assumes "next_frame xs \<noteq> Incomplete"
  shows "next_frame (xs @ ys) =
     (case next_frame xs of Complete p rest \<Rightarrow> Complete p (rest @ ys) | Illegal \<Rightarrow> Illegal
      | Incomplete \<Rightarrow> Incomplete)"
proof -
  have len: "LENGTH_SIZE \<le> length xs"
    using assms by (auto simp: next_frame_def not_less [symmetric] split: if_splits)
  then have rd: "read_packet_length (xs @ ys) = read_packet_length xs"
    by (simp add: read_packet_length_prefix LENGTH_SIZE_def)
  show ?thesis
  proof (cases "legal_length (read_packet_length xs)")
    case True
    then have "LENGTH_SIZE + unat (read_packet_length xs) \<le> length xs"
      using assms len by (auto simp: next_frame_def Let_def not_less [symmetric] split: if_splits)
    then show ?thesis using True len by (simp add: next_frame_def Let_def rd)
  qed (use len in \<open>simp add: next_frame_def rd\<close>)
qed

text \<open>
  The bytes of a connection can arrive in any number of pieces: reading them one piece after the
  other has the effect of reading them at once.
\<close>

lemma spec_loop_append:
  assumes "R k = Some c"
  shows "spec_loop k (with_inb k (i @ ys) R) = spec_input k ys (spec_loop k (with_inb k i R))"
  using assms
proof (induction "length i" arbitrary: i R c rule: less_induct)
  case less
  note loop = spec_loop_alt [of k]
  have dead: "S k = None \<Longrightarrow> spec_input k ys S = S" for S by (simp add: spec_input_def)
  show ?case
  proof (cases "next_frame i")
    case Incomplete
    then show ?thesis
      using less.prems with_inb_at [of R, OF less.prems, of i]
      by (simp add: loop [of i] spec_input_eq)
  next
    case Illegal
    then show ?thesis using next_frame_append [of i ys] dead by (simp add: loop)
  next
    case (Complete p rest)
    have l: "spec_loop k (with_inb k (i @ ys) R) = spec_loop k (with_inb k (rest @ ys) (spec_packet k p R))"
      and r: "spec_loop k (with_inb k i R) = spec_loop k (with_inb k rest (spec_packet k p R))"
      using next_frame_append [of i ys] Complete loop [of i R] loop [of "i @ ys" R] by simp_all
    show ?thesis
    proof (cases "spec_packet k p R k")
      case None
      then have "with_inb k j (spec_packet k p R) = spec_packet k p R" for j
        by (auto simp: with_inb_def fun_eq_iff)
      moreover have "spec_loop k (spec_packet k p R) = spec_packet k p R"
        using None by (simp add: spec_loop.simps)
      ultimately show ?thesis using None dead by (simp add: l r)
    next
      case (Some c')
      then show ?thesis unfolding l r using next_frame_shrinks [OF Complete] by (rule less.hyps [rotated])
    qed
  qed
qed

lemma spec_input_append: "spec_input k (xs @ ys) R = spec_input k ys (spec_input k xs R)"
proof (cases "R k")
  case (Some c)
  then show ?thesis using spec_loop_append [of R k c "inb c @ xs" ys] by (simp add: spec_input_eq)
qed (simp add: spec_input_def)

text \<open>A stream of legal packets is processed packet by packet.\<close>

definition server_payload :: "bytes \<Rightarrow> bool" where
  "server_payload p \<longleftrightarrow> 1 \<le> length p \<and> length p \<le> BUFFER_SIZE - LENGTH_SIZE"

lemma next_frame_frame:
  assumes "server_payload p"
  shows "next_frame (frame p @ rest) = Complete p rest"
proof -
  have "unat (word_of_nat (length p) :: u32) = length p" and "length p < 2 ^ 32"
    using assms by (auto simp: server_payload_def BUFFER_SIZE_def unat_of_nat)
  then show ?thesis
    using assms
    by (simp add: next_frame_def read_frame legal_length_def server_payload_def Let_def)
      (simp add: frame_def LENGTH_SIZE_def)
qed

lemma spec_loop_frames:
  assumes "\<forall>p \<in> set ps. server_payload p"
  shows "spec_loop k (with_inb k (concat (map frame ps)) R) =
     with_inb k [] (fold (spec_packet k) ps R)"
  using assms
proof (induction ps arbitrary: R)
  case Nil
  then show ?case by (simp add: spec_loop_alt)
next
  case (Cons p ps)
  then have "next_frame (concat (map frame (p # ps))) = Complete p (concat (map frame ps))"
    using next_frame_frame [of p] by simp
  then show ?case using Cons by (simp add: spec_loop_alt [of k "concat (map frame (p # ps))" R] del: concat.simps list.map)
qed


text \<open>
  Messages of a registered client, each a mark and a payload: every client receives the payloads
  sent to its mark, framed, in the order they were sent.
\<close>

lemma fold_forward:
  assumes "R k = Some c" and "reg c \<noteq> None"
    and "\<forall>(m, p) \<in> set msgs. length m = MARK_SIZE \<and> p \<noteq> []"
  shows "fold (spec_packet k) (map (\<lambda>(m, p). m @ p) msgs) R =
     (\<lambda>j. map_option (\<lambda>c. c\<lparr>outb := outb c @
        concat (map (\<lambda>(m, p). if reg c = Some (mark_to_key m) then frame p else []) msgs)\<rparr>) (R j))"
  using assms
proof (induction msgs arbitrary: R c)
  case Nil
  then show ?case by (simp add: fun_eq_iff option.map_ident)
next
  case (Cons mp msgs)
  obtain m p where mp: "mp = (m, p)" by (cases mp)
  then have len: "length m = MARK_SIZE" "p \<noteq> []" using Cons.prems(3) by auto
  have sp: "spec_packet k (m @ p) R = deliver (mark_to_key m) p R"
    using Cons.prems(1,2) len by (auto simp: spec_packet_def mark_to_key_append MARK_SIZE_def)
  obtain c' where c': "deliver (mark_to_key m) p R k = Some c'" "reg c' \<noteq> None"
    using Cons.prems(1,2) by (auto simp: deliver_def)
  show ?case
    using Cons.IH [of "deliver (mark_to_key m) p R", OF c'] Cons.prems(3)
    by (simp add: mp sp) (auto simp: deliver_def fun_eq_iff map_option_case split: option.split)
qed

end
