(* ===== verification/Server_Main.thy ===== *)
theory Server_Main
  imports Relay_Server
begin

text \<open>
  The rest of \<open>server/main.cpp\<close>: starting up (\<open>create_listen_socket\<close> and the first half of
  \<open>main\<close>), the event loop, the periodic performance report and the clean-up at the end.

  The loop runs until a signal clears \<open>g_running\<close> or \<open>epoll_wait\<close> fails, so it need not end:
  \<open>main_loop\<close> is a partial function whose value \<open>None\<close> means that it runs for ever.  The handler
  of a signal only clears the flag, which is read at the head of the loop; a signal is therefore
  delivered while \<open>epoll_wait\<close> blocks.
\<close>

section \<open>Starting\<close>

definition stats_zero :: stats where
  "stats_zero =
     \<lparr>g_stat_bytes_in = 0, g_stat_bytes_out = 0, g_stat_packets_in = 0, g_stat_packets_out = 0,
      g_stat_drop_no_target = 0, g_stat_drop_small_packet = 0, g_stat_drop_send_eagain = 0,
      g_stat_partial_writes = 0, g_stat_write_errors = 0, g_stat_event_loops = 0,
      g_stat_events = 0\<rparr>"

definition server_init :: server where
  "server_init =
     \<lparr>g_running = True, g_connections = [], g_mark_to_fd = [], g_stats = stats_zero,
      main_perf = \<lparr>last_stats = stats_zero, last_perf_ts = 0, perf_lines = []\<rparr>, sys_hist = []\<rparr>"

definition sys_socket :: "os \<Rightarrow> server \<Rightarrow> (errno + int) \<times> server" where
  "sys_socket os st = (let r = os_socket os (sys_hist st) in (r, record_call (SSocket r) st))"

definition sys_bind :: "os \<Rightarrow> int \<Rightarrow> int \<Rightarrow> server \<Rightarrow> errno option \<times> server" where
  "sys_bind os k port st =
     (let r = os_bind os (sys_hist st) k port in (r, record_call (SBind k port r) st))"

definition sys_listen :: "os \<Rightarrow> int \<Rightarrow> server \<Rightarrow> errno option \<times> server" where
  "sys_listen os k st = (let r = os_listen os (sys_hist st) k in (r, record_call (SListen k r) st))"

definition sys_epoll_create1 :: "os \<Rightarrow> server \<Rightarrow> (errno + int) \<times> server" where
  "sys_epoll_create1 os st =
     (let r = os_epoll_create1 os (sys_hist st) in (r, record_call (SEpollCreate r) st))"

definition sys_epoll_wait :: "os \<Rightarrow> server \<Rightarrow> (errno + epoll_event list) \<times> server" where
  "sys_epoll_wait os st =
     (let r = os_epoll_wait os (sys_hist st) in (r, record_call (SEpollWait r) st))"

lemmas sys_main_defs = sys_socket_def sys_bind_def sys_listen_def sys_epoll_create1_def
  sys_epoll_wait_def

definition create_listen_socket :: "os \<Rightarrow> int \<Rightarrow> server \<Rightarrow> int \<times> server" where
  "create_listen_socket os port st =
     (case sys_socket os st of
        (Inl e, st1) \<Rightarrow> (-1, st1)
      | (Inr listen_fd, st1) \<Rightarrow>
          (case sys_setsockopt os listen_fd SO_REUSEADDR st1 of
             (Some e, st2) \<Rightarrow> (-1, sys_close listen_fd st2)
           | (None, st2) \<Rightarrow>
               (case sys_bind os listen_fd port st2 of
                  (Some e, st3) \<Rightarrow> (-1, sys_close listen_fd st3)
                | (None, st3) \<Rightarrow>
                    (case sys_listen os listen_fd st3 of
                       (Some e, st4) \<Rightarrow> (-1, sys_close listen_fd st4)
                     | (None, st4) \<Rightarrow>
                         (case set_nonblocking os listen_fd st4 of
                            (False, st5) \<Rightarrow> (-1, sys_close listen_fd st5)
                          | (True, st5) \<Rightarrow> (listen_fd, st5))))))"

text \<open>The variables of the performance report before the first round.\<close>

definition start_perf :: "os \<Rightarrow> server \<Rightarrow> server" where
  "start_perf os st =
     st\<lparr>main_perf := \<lparr>last_stats = stats_zero, last_perf_ts = os_clock os (sys_hist st), perf_lines = []\<rparr>\<rparr>"

lemma start_perf_simps [simp]:
  "g_connections (start_perf os st) = g_connections st"
  "g_mark_to_fd (start_perf os st) = g_mark_to_fd st"
  "g_running (start_perf os st) = g_running st"
  "sys_hist (start_perf os st) = sys_hist st"
  by (simp_all add: start_perf_def)

text \<open>\<open>main\<close> up to the loop: \<open>Inl\<close> is an early \<open>return 1\<close>, \<open>Inr\<close> the two descriptors.\<close>

definition server_start :: "os \<Rightarrow> int \<Rightarrow> server \<Rightarrow> (int + int \<times> int) \<times> server" where
  "server_start os port st =
     (case create_listen_socket os port st of (listen_fd, st1) \<Rightarrow>
        if listen_fd = -1 then (Inl 1, st1)
        else
          (case sys_epoll_create1 os st1 of
             (Inl e, st2) \<Rightarrow> (Inl 1, sys_close listen_fd st2)
           | (Inr epfd, st2) \<Rightarrow>
               (case sys_epoll_ctl os (CTL_ADD False) listen_fd st2 of
                  (Some e, st3) \<Rightarrow> (Inl 1, sys_close listen_fd (sys_close epfd st3))
                | (None, st3) \<Rightarrow> (Inr (listen_fd, epfd), start_perf os st3))))"


section \<open>The performance report\<close>

text \<open>
  What the log line of a reporting interval shows: the growth of each counter since the last
  report, in 64-bit arithmetic.
\<close>

definition stats_delta :: "stats \<Rightarrow> stats \<Rightarrow> stats" where
  "stats_delta now prev =
     \<lparr>g_stat_bytes_in = g_stat_bytes_in now - g_stat_bytes_in prev,
      g_stat_bytes_out = g_stat_bytes_out now - g_stat_bytes_out prev,
      g_stat_packets_in = g_stat_packets_in now - g_stat_packets_in prev,
      g_stat_packets_out = g_stat_packets_out now - g_stat_packets_out prev,
      g_stat_drop_no_target = g_stat_drop_no_target now - g_stat_drop_no_target prev,
      g_stat_drop_small_packet = g_stat_drop_small_packet now - g_stat_drop_small_packet prev,
      g_stat_drop_send_eagain = g_stat_drop_send_eagain now - g_stat_drop_send_eagain prev,
      g_stat_partial_writes = g_stat_partial_writes now - g_stat_partial_writes prev,
      g_stat_write_errors = g_stat_write_errors now - g_stat_write_errors prev,
      g_stat_event_loops = g_stat_event_loops now - g_stat_event_loops prev,
      g_stat_events = g_stat_events now - g_stat_events prev\<rparr>"

text \<open>The report, if one is due, and the new values of the \<open>last_\<dots>\<close> variables.\<close>

definition perf_report :: "nat \<Rightarrow> stats \<Rightarrow> stats \<Rightarrow> stats option \<times> stats" where
  "perf_report elapsed_ms now prev =
     (if elapsed_ms \<ge> 1000 then (Some (stats_delta now prev), now) else (None, prev))"

text \<open>The report in a round of the loop, with the time since the last one in whole milliseconds.\<close>

definition report_performance :: "os \<Rightarrow> server \<Rightarrow> server" where
  "report_performance os st =
     (let p = main_perf st;
          now_ts = os_clock os (sys_hist st);
          elapsed_ms = (now_ts - last_perf_ts p) div 1000000
      in case perf_report elapsed_ms (g_stats st) (last_stats p) of
           (None, _) \<Rightarrow> st
         | (Some delta, now) \<Rightarrow>
             st\<lparr>main_perf := \<lparr>last_stats = now, last_perf_ts = now_ts, perf_lines = delta # perf_lines p\<rparr>\<rparr>)"

lemma report_performance_simps [simp]:
  "g_connections (report_performance os st) = g_connections st"
  "g_mark_to_fd (report_performance os st) = g_mark_to_fd st"
  "g_running (report_performance os st) = g_running st"
  "g_stats (report_performance os st) = g_stats st"
  "sys_hist (report_performance os st) = sys_hist st"
  by (simp_all add: report_performance_def perf_report_def Let_def)


section \<open>The event loop\<close>

definition handle_event :: "os \<Rightarrow> int \<Rightarrow> epoll_event \<Rightarrow> server \<Rightarrow> fault + server" where
  "handle_event os listen_fd ev st =
     (if ev_fd ev = listen_fd then Inr (handle_new_connection os listen_fd st)
      else
        (case (if ev_err ev \<or> ev_hup ev then Inr (close_connection os (ev_fd ev) st)
               else if ev_in ev then handle_client_data os (ev_fd ev) st
               else Inr st) of
           Inl f \<Rightarrow> Inl f
         | Inr st1 \<Rightarrow>
             if ev_out ev then Inr (handle_client_write os (ev_fd ev) st1) else Inr st1))"

fun handle_events :: "os \<Rightarrow> int \<Rightarrow> epoll_event list \<Rightarrow> server \<Rightarrow> fault + server" where
  "handle_events os listen_fd [] st = Inr st"
| "handle_events os listen_fd (ev # evs) st =
     (case handle_event os listen_fd ev st of
        Inl f \<Rightarrow> Inl f
      | Inr st1 \<Rightarrow> handle_events os listen_fd evs st1)"

text \<open>One round of the loop.  The flag in the result is \<open>False\<close> after a \<open>break\<close>.\<close>

definition loop_iteration :: "os \<Rightarrow> int \<Rightarrow> server \<Rightarrow> fault + bool \<times> server" where
  "loop_iteration os listen_fd st =
     (let st1 = bump_stat (\<lambda>s. s\<lparr>g_stat_event_loops := g_stat_event_loops s + 1\<rparr>) st;
          st2 = (case os_signal os (sys_hist st1) of
                   None \<Rightarrow> st1
                 | Some signum \<Rightarrow> signal_handler signum st1)
      in case sys_epoll_wait os st2 of
           (Inl e, st3) \<Rightarrow> if e = EINTR then Inr (True, st3) else Inr (False, st3)
         | (Inr evs, st3) \<Rightarrow>
             let st4 = bump_stat (\<lambda>s. s\<lparr>g_stat_events :=
                         g_stat_events s + word_of_nat (length evs)\<rparr>) st3
             in (case handle_events os listen_fd evs (report_performance os st4) of
                   Inl f \<Rightarrow> Inl f
                 | Inr st5 \<Rightarrow> Inr (True, st5)))"

partial_function (option) main_loop :: "os \<Rightarrow> int \<Rightarrow> server \<Rightarrow> (fault + server) option" where
  "main_loop os listen_fd st =
     (if g_running st then
        (case loop_iteration os listen_fd st of
           Inl f \<Rightarrow> Some (Inl f)
         | Inr (cont, st1) \<Rightarrow>
             if cont then main_loop os listen_fd st1 else Some (Inr st1))
      else Some (Inr st))"

definition server_cleanup :: "int \<Rightarrow> int \<Rightarrow> server \<Rightarrow> server" where
  "server_cleanup listen_fd epfd st =
     (let st1 = foldl (\<lambda>s pair. sys_close (fst pair) s) st (g_connections st);
          st2 = st1\<lparr>g_connections := [], g_mark_to_fd := []\<rparr>
      in sys_close listen_fd (sys_close epfd st2))"

text \<open>\<open>main\<close> for a legal port: the exit code and the final state.\<close>

definition server_main :: "os \<Rightarrow> int \<Rightarrow> (fault + int \<times> server) option" where
  "server_main os port =
     (case server_start os port server_init of
        (Inl code, st) \<Rightarrow> Some (Inr (code, st))
      | (Inr (listen_fd, epfd), st) \<Rightarrow>
          (case main_loop os listen_fd st of
             None \<Rightarrow> None
           | Some (Inl f) \<Rightarrow> Some (Inl f)
           | Some (Inr st1) \<Rightarrow> Some (Inr (0, server_cleanup listen_fd epfd st1))))"

end
