(* ===== verification/Server_Invariant.thy ===== *)
theory Server_Invariant
  imports Server_Main
begin

text \<open>
  Invariants of the relay server.  Every server operation is broken down into atomic steps, the
  rules of the inductive relation \<open>atomic\<close>; a property that each atomic step keeps is then kept
  by every handler and by the whole event loop.  That is the contract \<open>server_property\<close>, and the
  invariants of the server are its instances.

  \<^item> \<open>server_inv\<close>: the two tables describe the same registrations (the mark table is exactly the
    inverse of the registered connections, so marks are unique), buffers keep their sizes, the
    limit of four connections holds, and every connection's descriptor is open;
  \<^item> \<open>no_leak\<close>: no other descriptor is open than those the server still knows.
\<close>

section \<open>The invariant\<close>

definition conn_ok :: "int \<Rightarrow> Connection \<Rightarrow> bool" where
  "conn_ok k c \<longleftrightarrow>
     conn_fd c = k \<and> 0 \<le> k \<and> length (mark c) = MARK_SIZE \<and>
     length (recv_buf c) = BUFFER_SIZE \<and> recv_len c \<le> BUFFER_SIZE"

definition marks_agree :: "server \<Rightarrow> bool" where
  "marks_agree st \<longleftrightarrow>
     (\<forall>key k. target_of st key = Some k \<longleftrightarrow>
        (\<exists>c. conn_at st k = Some c \<and> registered c \<and> mark_to_key (mark c) = key))"

definition server_inv :: "server \<Rightarrow> bool" where
  "server_inv st \<longleftrightarrow>
     um_wf (g_connections st) \<and> um_wf (g_mark_to_fd st) \<and>
     (\<forall>k c. conn_at st k = Some c \<longrightarrow> conn_ok k c \<and> is_open k (sys_hist st)) \<and>
     marks_agree st \<and> um_size (g_connections st) \<le> MAX_CONNECTIONS"

lemma server_invD:
  assumes "server_inv st"
  shows "um_wf (g_connections st)" and "um_wf (g_mark_to_fd st)"
    and "conn_at st k = Some c \<Longrightarrow> conn_ok k c"
    and "conn_at st k = Some c \<Longrightarrow> is_open k (sys_hist st)"
    and "marks_agree st" and "um_size (g_connections st) \<le> MAX_CONNECTIONS"
  using assms by (simp_all add: server_inv_def)

lemma marks_agreeD:
  "marks_agree st \<Longrightarrow> target_of st key = Some k \<longleftrightarrow>
     (\<exists>c. conn_at st k = Some c \<and> registered c \<and> mark_to_key (mark c) = key)"
  by (simp add: marks_agree_def)

lemma server_inv_init: "server_inv server_init"
  by (simp add: server_inv_def server_init_def marks_agree_def um_wf_def um_size_def)


section \<open>Atomic steps\<close>

text \<open>Calls that neither open nor close a descriptor.\<close>

fun quiet :: "syscall \<Rightarrow> bool" where
  "quiet (SAccept l r) = isl r"
| "quiet (SSocket r) = isl r"
| "quiet (SEpollCreate r) = isl r"
| "quiet (SClose k) = False"
| "quiet e = True"

inductive atomic :: "os \<Rightarrow> server \<Rightarrow> server \<Rightarrow> bool" for os where
  stat: "atomic os st (bump_stat f st)"
| signal: "atomic os st (signal_handler n st)"
| report: "atomic os st (report_performance os st)"
| quiet_call: "quiet e \<Longrightarrow> atomic os st (record_call e st)"
| closing: "atomic os st (close_connection os k st)"
| progress: "conn_at st k = Some c \<Longrightarrow> atomic os st (after_progress k c n st)"
| attempt: "conn_at st k = Some c \<Longrightarrow> \<not> registered c \<Longrightarrow> length m = MARK_SIZE \<Longrightarrow>
    atomic os st (set_conn k (c\<lparr>mark := m\<rparr>) st)"
| register: "conn_at st k = Some c \<Longrightarrow> \<not> registered c \<Longrightarrow> MARK_SIZE \<le> length dat \<Longrightarrow>
    target_of st (mark_to_key dat) = None \<Longrightarrow> atomic os st (after_register k c dat st)"
| enqueue: "conn_at st t = Some tc \<Longrightarrow> atomic os st (after_enqueue t tc p st)"
| fill: "conn_at st k = Some c \<Longrightarrow> recv_len c + length bs \<le> BUFFER_SIZE \<Longrightarrow>
    atomic os st (set_conn k (c\<lparr>recv_buf := memcpy_at (recv_len c) bs (recv_buf c),
                                recv_len := recv_len c + length bs\<rparr>) st)"
| consumed: "conn_at st k = Some c \<Longrightarrow> atomic os st (set_conn k (consume n c) st)"
| reject: "os_accept os (sys_hist st) l = Inr k \<Longrightarrow> list_all quiet es \<Longrightarrow>
    atomic os st (st\<lparr>sys_hist := SClose k # es @ SAccept l (Inr k) # sys_hist st\<rparr>)"
| admit: "os_accept os (sys_hist st) l = Inr k \<Longrightarrow> list_all quiet es \<Longrightarrow>
    um_size (g_connections st) < MAX_CONNECTIONS \<Longrightarrow>
    atomic os st (set_conn k (Connection_new k)
       (st\<lparr>sys_hist := es @ SAccept l (Inr k) # sys_hist st\<rparr>))"

lemma is_open_quiet [simp]: "quiet e \<Longrightarrow> is_open k (e # h) = is_open k h"
  by (cases e) (auto split: sum.splits)

lemma is_open_quiets [simp]: "list_all quiet es \<Longrightarrow> is_open k (es @ h) = is_open k h"
  by (induction es) auto

lemma conn_ok_consume: "conn_ok k c \<Longrightarrow> conn_ok k (consume n c)"
  by (auto simp: conn_ok_def consume_def length_memcpy_at)

lemma conn_ok_new: "0 \<le> k \<Longrightarrow> conn_ok k (Connection_new k)"
  by (simp add: conn_ok_def Connection_new_def)

lemma consume_same [simp]:
  "registered (consume n c) = registered c" "mark (consume n c) = mark c"
  "conn_fd (consume n c) = conn_fd c" "send_buf (consume n c) = send_buf c"
  by (simp_all add: consume_def)

lemma Connection_new_simps [simp]:
  "registered (Connection_new k) = False" "conn_fd (Connection_new k) = k"
  "send_buf (Connection_new k) = []" "recv_len (Connection_new k) = 0"
  by (simp_all add: Connection_new_def)

text \<open>
  Replacing a connection without touching its registration keeps the invariant, whatever
  happens to the history, as long as no descriptor of a connection is closed.
\<close>

lemma server_inv_update:
  assumes inv: "server_inv st" and c: "conn_at st k = Some c" and ok: "conn_ok k c'"
    and reg: "registered c' = registered c" "registered c \<Longrightarrow> mark c' = mark c"
    and conns: "g_connections st' = um_set k c' (g_connections st)"
    and marks: "g_mark_to_fd st' = g_mark_to_fd st"
    and hist: "\<And>j. is_open j (sys_hist st) \<Longrightarrow> is_open j (sys_hist st')"
  shows "server_inv st'"
proof -
  note D = server_invD [OF inv]
  have "marks_agree st'"
    using D(5) c reg by (auto simp: marks_agree_def conns marks)
  then show ?thesis
    using D(1,2,6) D(3,4) ok hist c
    by (auto simp: server_inv_def conns marks um_wf_um_set um.size_set_present)
qed

lemma server_inv_same:
  "server_inv st \<Longrightarrow> g_connections st' = g_connections st \<Longrightarrow> g_mark_to_fd st' = g_mark_to_fd st \<Longrightarrow>
   (\<And>j. is_open j (sys_hist st) \<Longrightarrow> is_open j (sys_hist st')) \<Longrightarrow> server_inv st'"
  by (auto simp: server_inv_def marks_agree_def)

lemma g_connections_after_progress:
  "g_connections (after_progress k c n st) =
     um_set k (c\<lparr>send_buf := drop n (send_buf c)\<rparr>) (g_connections st)"
  by (simp add: after_progress_def set_conn_def)

lemma g_connections_after_enqueue:
  "g_connections (after_enqueue k c p st) =
     um_set k (c\<lparr>send_buf := send_buf c @ frame p\<rparr>) (g_connections st)"
  by (simp add: after_enqueue_def set_conn_def)

lemma close_connection_hist:
  "sys_hist (close_connection os k st) =
     SClose k # SEpollCtl CTL_DEL k (os_epoll_ctl os (sys_hist st) CTL_DEL k) # sys_hist st"
  by (simp add: close_connection_def sys_defs split: option.splits)

lemma close_connection_conns:
  "g_connections (close_connection os k st) =
     (if conn_at st k = None then g_connections st else um_erase k (g_connections st))"
  by (simp add: close_connection_def sys_defs split: option.splits)

lemma close_connection_marks:
  "g_mark_to_fd (close_connection os k st) =
     (case conn_at st k of
        Some c \<Rightarrow> if registered c then um_erase (mark_to_key (mark c)) (g_mark_to_fd st)
                  else g_mark_to_fd st
      | None \<Rightarrow> g_mark_to_fd st)"
  by (simp add: close_connection_def sys_defs split: option.splits)

lemma server_inv_close:
  assumes inv: "server_inv st"
  shows "server_inv (close_connection os k st)"
proof -
  let ?st = "close_connection os k st"
  note D = server_invD [OF inv]
  note M = marks_agreeD [OF D(5)]
  have "marks_agree ?st"
    unfolding marks_agree_def
  proof (intro allI)
    fix key j
    show "target_of ?st key = Some j \<longleftrightarrow>
        (\<exists>c. conn_at ?st j = Some c \<and> registered c \<and> mark_to_key (mark c) = key)"
      using M [of key j] M [of key k]
      by (auto simp: close_connection_marks split: option.splits if_splits)
  qed
  moreover have "um_size (g_connections ?st) \<le> MAX_CONNECTIONS"
    using D(1,6) um.size_erase_le [of "g_connections st" k]
    by (auto simp: close_connection_conns)
  moreover have "um_wf (g_connections ?st)" "um_wf (g_mark_to_fd ?st)"
    using D(1,2)
    by (auto simp: close_connection_conns close_connection_marks um_wf_um_erase split: option.splits)
  ultimately show ?thesis
    using D(3,4) by (auto simp: server_inv_def close_connection_hist)
qed


lemma server_inv_register:
  assumes inv: "server_inv st" and c: "conn_at st k = Some c" and reg: "\<not> registered c"
    and len: "MARK_SIZE \<le> length dat" and free: "target_of st (mark_to_key dat) = None"
  shows "server_inv (after_register k c dat st)"
proof -
  let ?st = "after_register k c dat st"
  note D = server_invD [OF inv]
  note M = marks_agreeD [OF D(5)]
  have ok: "conn_ok k c" using c by (rule D(3))
  have key: "mark_to_key (take MARK_SIZE dat) = mark_to_key dat"
    by (simp add: MARK_SIZE_def)
  have "marks_agree ?st"
    unfolding marks_agree_def
  proof (intro allI)
    fix key j
    show "target_of ?st key = Some j \<longleftrightarrow>
        (\<exists>c. conn_at ?st j = Some c \<and> registered c \<and> mark_to_key (mark c) = key)"
      using M [of key j] M [of "mark_to_key dat" j] c reg ok free
      by (auto simp: key conn_ok_def split: if_splits)
  qed
  moreover have "g_connections ?st =
      um_set k (c\<lparr>mark := take MARK_SIZE dat, registered := True\<rparr>)
        (um_set k (c\<lparr>mark := take MARK_SIZE dat\<rparr>) (g_connections st))"
    by (simp add: after_register_def set_conn_def)
  moreover have "conn_ok k (c\<lparr>mark := take MARK_SIZE dat, registered := True\<rparr>)"
    using ok len by (simp add: conn_ok_def)
  ultimately show ?thesis
    using D(1,2,6) D(3,4) c
    by (simp add: server_inv_def um_wf_um_set um.size_set_present)
qed

lemma server_inv_admit:
  assumes inv: "server_inv st" and size: "um_size (g_connections st) < MAX_CONNECTIONS"
    and fresh: "0 \<le> k" "\<not> is_open k (sys_hist st)" and es: "list_all quiet es"
  shows "server_inv (set_conn k (Connection_new k)
       (st\<lparr>sys_hist := es @ SAccept l (Inr k) # sys_hist st\<rparr>))"
    (is "server_inv ?st")
proof -
  note D = server_invD [OF inv]
  have new: "conn_at st k = None" using D(4) fresh(2) by (cases "conn_at st k") auto
  have "marks_agree ?st"
    using D(5) new by (auto simp: marks_agree_def set_conn_def split: if_splits)
  then show ?thesis
    using D(1,2) D(3,4) new size fresh es
    by (simp add: server_inv_def set_conn_def um_wf_um_set um.size_set_absent conn_ok_new)
qed

lemma server_inv_atomic:
  assumes "atomic os st st'" and fresh: "os_accept_fresh os" and inv: "server_inv st"
  shows "server_inv st'"
  using assms(1)
proof cases
  case (progress k c n)
  show ?thesis
    unfolding progress(1) using progress(2) server_invD(3) [OF inv progress(2)]
    by (intro server_inv_update [OF inv progress(2)]) (auto simp: g_connections_after_progress conn_ok_def)
next
  case (attempt k c m)
  show ?thesis
    unfolding attempt(1) using server_invD(3) [OF inv attempt(2)] attempt(3,4)
    by (intro server_inv_update [OF inv attempt(2)]) (auto simp: set_conn_def conn_ok_def)
next
  case (enqueue t tc p)
  show ?thesis
    unfolding enqueue(1) using server_invD(3) [OF inv enqueue(2)]
    by (intro server_inv_update [OF inv enqueue(2)]) (auto simp: g_connections_after_enqueue conn_ok_def)
next
  case (fill k c bs)
  show ?thesis
    unfolding fill(1) using server_invD(3) [OF inv fill(2)] fill(3)
    by (intro server_inv_update [OF inv fill(2)])
      (auto simp: set_conn_def conn_ok_def length_memcpy_at)
next
  case (consumed k c n)
  show ?thesis
    unfolding consumed(1) using server_invD(3) [OF inv consumed(2)]
    by (intro server_inv_update [OF inv consumed(2)]) (auto simp: set_conn_def conn_ok_consume)
next
  case (admit l k es)
  then show ?thesis
    using server_inv_admit [OF inv] fresh by (auto simp: os_accept_fresh_def)
next
  case (reject l k es)
  then have "\<not> is_open k (sys_hist st)" using fresh by (simp add: os_accept_fresh_def)
  then show ?thesis
    unfolding reject(1) using reject(3) by (intro server_inv_same [OF inv]) auto
next
  case (register k c dat)
  then show ?thesis using server_inv_register [OF inv] by simp
next
  case (closing k)
  then show ?thesis using server_inv_close [OF inv] by simp
next
  case (quiet_call e)
  then show ?thesis using server_inv_same [OF inv] by simp
next
  case (stat f)
  then show ?thesis using server_inv_same [OF inv] by simp
next
  case (signal n)
  then show ?thesis using server_inv_same [OF inv] by (simp add: signal_handler_def)
next
  case report
  then show ?thesis using server_inv_same [OF inv] by simp
qed


section \<open>Every operation is a sequence of atomic steps\<close>

abbreviation steps :: "os \<Rightarrow> server \<Rightarrow> server \<Rightarrow> bool" where
  "steps os \<equiv> (atomic os)\<^sup>*\<^sup>*"

lemma server_inv_steps: "steps os st st' \<Longrightarrow> os_accept_fresh os \<Longrightarrow> server_inv st \<Longrightarrow> server_inv st'"
  by (induction rule: rtranclp_induct) (auto intro: server_inv_atomic)

lemma steps_stat: "steps os st st' \<Longrightarrow> steps os st (bump_stat f st')"
  by (erule rtranclp.rtrancl_into_rtrancl) (rule atomic.stat)

lemma steps_close: "steps os st st' \<Longrightarrow> steps os st (close_connection os k st')"
  by (erule rtranclp.rtrancl_into_rtrancl) (rule atomic.closing)

lemma steps_call: "steps os st st' \<Longrightarrow> quiet e \<Longrightarrow> steps os st (record_call e st')"
  by (erule rtranclp.rtrancl_into_rtrancl) (erule atomic.quiet_call)

lemma update_epoll_events_eq:
  "snd (update_epoll_events os k w st) =
     record_call (SEpollCtl (CTL_MOD w) k (os_epoll_ctl os (sys_hist st) (CTL_MOD w) k)) st"
  by (simp add: update_epoll_events_def sys_epoll_ctl_def Let_def split: option.splits)

lemma steps_epoll: "steps os st st' \<Longrightarrow> steps os st (snd (update_epoll_events os k w st'))"
  by (simp add: update_epoll_events_eq steps_call)

lemma steps_flush_loop: "steps os st (flush_loop os k st)"
proof (induction st rule: flush_loop_induct)
  case (progress st c n)
  then show ?case
    using atomic.progress [of st k c os n] by (meson converse_rtranclp_into_rtranclp)
next
  case (wait st c r)
  then show ?case by (intro steps_epoll) (simp add: after_write_def steps_call)
next
  case (failure st c r)
  then show ?case
    unfolding after_failure_def after_write_def by (intro steps_close steps_stat steps_call) simp_all
qed (simp_all add: steps_epoll)

lemma steps_flush: "steps os st (flush_send_buffer os k st)"
  using steps_flush_loop by (auto simp: flush_send_buffer_def steps_epoll split: option.splits)

lemma steps_handle_client_write: "steps os st (handle_client_write os k st)"
  by (auto simp: handle_client_write_def steps_flush steps_close split: option.splits)

lemma steps_count_packet: "steps os st (count_packet st)"
  by (simp add: count_packet_def steps_stat)

lemma steps_process_packet:
  assumes c: "conn_at st k = Some c" and n: "unat n \<le> length dat"
  shows "steps os st (snd (process_packet os k dat n st))"
  using c n
proof (cases rule: process_packet_cases [where os = os])
  case (duplicate t)
  then have "atomic os (count_packet st) (set_conn k (c\<lparr>mark := take MARK_SIZE dat\<rparr>) (count_packet st))"
    using c n by (intro atomic.attempt) auto
  then show ?thesis
    unfolding duplicate(4) using steps_count_packet
    by (metis rtranclp.rtrancl_into_rtrancl snd_conv)
next
  case register
  then show ?thesis
    using c n by (simp add: r_into_rtranclp atomic.register)
next
  case (forward t tc)
  then show ?thesis
    using atomic.enqueue [OF forward(4)] steps_flush
    by (metis converse_rtranclp_into_rtranclp snd_conv)
qed (auto simp: steps_count_packet steps_stat)


lemma packet_in_buffer:
  assumes "server_inv st" and "conn_at st k = Some c" and "LENGTH_SIZE + unat n \<le> recv_len c"
  shows "unat n \<le> length (drop LENGTH_SIZE (recv_buf c))"
  using server_invD(3) [OF assms(1,2)] assms(3) by (auto simp: conn_ok_def)

text \<open>One packet of the loop: it is processed and then taken off the buffer.\<close>

lemma steps_next_packet:
  assumes "server_inv st" and "conn_at st k = Some c" and "LENGTH_SIZE + unat (next_packet c) \<le> recv_len c"
    and "process_packet os k (drop LENGTH_SIZE (recv_buf c)) (next_packet c) st = (ok, st1)"
  shows "steps os st st1" and "conn_at st1 k = Some c1 \<Longrightarrow> steps os st (set_conn k (consume n c1) st1)"
proof -
  show st1: "steps os st st1"
    using steps_process_packet [OF assms(2) packet_in_buffer [OF assms(1-3)], of os] assms(4) by simp
  show "steps os st (set_conn k (consume n c1) st1)" if "conn_at st1 k = Some c1"
    using st1 atomic.consumed [OF that] by (rule rtranclp.rtrancl_into_rtrancl)
qed

lemma steps_packet_loop:
  assumes fresh: "os_accept_fresh os"
  shows "server_inv st \<longrightarrow> (\<forall>st'. packet_loop os k st = Inr st' \<longrightarrow> steps os st st')"
proof (induction st rule: packet_loop_induct
    [where P = "\<lambda>st r. server_inv st \<longrightarrow> (\<forall>st'. r = Inr st' \<longrightarrow> steps os st st')"])
  case (rejected st c st1)
  then show ?case using steps_next_packet(1) [OF _ rejected(1,3,4)] steps_close by auto
next
  case (another st c st1 c1 st2)
  have "server_inv st \<Longrightarrow> steps os st st2"
    unfolding another(6) using steps_next_packet(2) [OF _ another(1,3,4,5)] .
  then show ?case using another(7) server_inv_steps [OF _ fresh] rtranclp_trans [of "atomic os" st st2] by auto
qed (auto simp: steps_close)

lemma steps_after_read:
  assumes "conn_at st k = Some c" and "recv_len c + length bs \<le> BUFFER_SIZE"
  shows "steps os st (after_read k c bs st)"
proof -
  let ?st = "record_call (SRead k (BUFFER_SIZE - recv_len c) (Inr bs)) st"
  have "steps os st ?st" by (simp add: steps_call)
  moreover have "atomic os ?st (set_conn k (c\<lparr>recv_buf := memcpy_at (recv_len c) bs (recv_buf c),
      recv_len := recv_len c + length bs\<rparr>) ?st)"
    using assms by (intro atomic.fill) simp_all
  ultimately show ?thesis unfolding after_read_def by (intro steps_stat) (rule rtranclp.rtrancl_into_rtrancl)
qed

lemma after_read_inv:
  assumes "server_inv st" and "conn_at st k = Some c" and "recv_len c + length bs \<le> BUFFER_SIZE"
    and "os_accept_fresh os"
  shows "server_inv (after_read k c bs st)"
  using server_inv_steps [OF steps_after_read [OF assms(2,3)] assms(4,1)] .

lemma steps_handle_client_data:
  assumes fresh: "os_accept_fresh os" and rd: "os_read_bounded os" and inv: "server_inv st"
    and res: "handle_client_data os k st = Inr st'"
  shows "steps os st st'"
proof (cases "conn_at st k")
  case None
  then show ?thesis using res by (auto simp: handle_client_data_def steps_close)
next
  case (Some c)
  then show ?thesis
  proof (cases rule: handle_client_data_cases [where os = os])
    case (data bs)
    note fit = read_fits [OF rd data(3,1)]
    have "steps os (after_read k c bs st) st'"
      using res data(4) steps_packet_loop [OF fresh] after_read_inv [OF inv Some fit fresh] by simp
    with steps_after_read [OF Some fit] show ?thesis by (rule rtranclp_trans)
  qed (use res in \<open>auto simp: steps_close steps_call\<close>)
qed

lemma record_call_twice:
  "record_call e (record_call d st) = st\<lparr>sys_hist := e # d # sys_hist st\<rparr>"
  by (simp add: record_call_def)

lemma steps_handle_new_connection: "steps os st (handle_new_connection os l st)"
proof (cases "os_accept os (sys_hist st) l")
  case (Inl e)
  then show ?thesis
    by (simp add: handle_new_connection_def sys_accept_def Let_def steps_call)
next
  case (Inr k)
  have rej: "steps os st st'"
    if "st' = st\<lparr>sys_hist := SClose k # es @ SAccept l (Inr k) # sys_hist st\<rparr>" "list_all quiet es"
    for st' es using atomic.reject [OF Inr that(2)] that(1) by blast
  have adm: "steps os st st'"
    if "st' = set_conn k (Connection_new k) (st\<lparr>sys_hist := es @ SAccept l (Inr k) # sys_hist st\<rparr>)"
      "list_all quiet es" "um_size (g_connections st) < MAX_CONNECTIONS"
    for st' es using atomic.admit [OF Inr that(2,3)] that(1) by blast
  show ?thesis
    using Inr
    by (auto simp: handle_new_connection_def set_nonblocking_def sys_defs Let_def
        split: option.split sum.split
        intro: rej [of _ "[]"] rej [of _ "[_]"] rej [of _ "[_, _]"] rej [of _ "[_, _, _, _, _]"]
          adm [of _ "[_, _, _, _, _]"])
qed


section \<open>The event loop keeps what atomic steps keep\<close>

text \<open>What the server relies on of the kernel in every run.\<close>

definition os_sane :: "os \<Rightarrow> bool" where
  "os_sane os \<longleftrightarrow> os_accept_fresh os \<and> os_read_bounded os"

lemma os_sane_accept: "os_sane os \<Longrightarrow> os_accept_fresh os"
  by (simp add: os_sane_def)

lemma server_inv_handle_client_data:
  "os_sane os \<Longrightarrow> server_inv st \<Longrightarrow> handle_client_data os k st = Inr st' \<Longrightarrow> server_inv st'"
  unfolding os_sane_def by (blast intro: steps_handle_client_data server_inv_steps)

lemma steps_handle_event:
  assumes os: "os_sane os" and inv: "server_inv st" and res: "handle_event os l ev st = Inr st'"
  shows "steps os st st'"
proof (cases "ev_fd ev = l")
  case True
  then show ?thesis using res steps_handle_new_connection by (auto simp: handle_event_def)
next
  case False
  let ?r = "if ev_err ev \<or> ev_hup ev then Inr (close_connection os (ev_fd ev) st)
            else if ev_in ev then handle_client_data os (ev_fd ev) st else Inr st"
  obtain st1 where r: "?r = Inr st1"
    and st': "st' = (if ev_out ev then handle_client_write os (ev_fd ev) st1 else st1)"
    using res False by (cases ?r) (auto simp: handle_event_def split: if_splits)
  have "steps os st st1"
    using r os steps_handle_client_data inv
    by (auto simp: os_sane_def steps_close split: if_splits)
  then show ?thesis
    using st' steps_handle_client_write by (auto intro: rtranclp_trans)
qed

lemma steps_handle_events:
  assumes os: "os_sane os"
  shows "server_inv st \<Longrightarrow> handle_events os l evs st = Inr st' \<Longrightarrow> steps os st st'"
proof (induction evs arbitrary: st)
  case (Cons ev evs)
  obtain st1 where st1: "handle_event os l ev st = Inr st1" "handle_events os l evs st1 = Inr st'"
    using Cons.prems(2) by (auto split: sum.splits)
  have s1: "steps os st st1" using steps_handle_event [OF os Cons.prems(1) st1(1)] .
  then have "server_inv st1" using server_inv_steps os Cons.prems(1) by (auto simp: os_sane_def)
  then have "steps os st1 st'" using st1(2) by (rule Cons.IH)
  with s1 show ?case by (rule rtranclp_trans)
qed simp

lemma steps_loop_iteration:
  assumes os: "os_sane os" and inv: "server_inv st"
    and res: "loop_iteration os l st = Inr (cont, st')"
  shows "steps os st st'"
proof -
  let ?st1 = "bump_stat (\<lambda>s. s\<lparr>g_stat_event_loops := g_stat_event_loops s + 1\<rparr>) st"
  let ?st2 = "case os_signal os (sys_hist ?st1) of None \<Rightarrow> ?st1 | Some n \<Rightarrow> signal_handler n ?st1"
  let ?r = "os_epoll_wait os (sys_hist ?st2)"
  let ?st3 = "record_call (SEpollWait ?r) ?st2"
  have "steps os ?st1 ?st2" by (auto intro: atomic.signal split: option.split)
  then have "steps os st ?st2" by (meson rtranclp_trans steps_stat rtranclp.rtrancl_refl)
  then have st3: "steps os st ?st3" by (simp add: steps_call)
  show ?thesis
  proof (cases ?r)
    case (Inl e)
    then show ?thesis
      using res st3 by (auto simp: loop_iteration_def sys_epoll_wait_def Let_def split: if_splits)
  next
    case (Inr evs)
    let ?st4 = "report_performance os (bump_stat (\<lambda>s. s\<lparr>g_stat_events :=
        g_stat_events s + word_of_nat (length evs)\<rparr>) ?st3)"
    have st4: "steps os st ?st4"
      using steps_stat [OF st3] atomic.report by (rule rtranclp.rtrancl_into_rtrancl)
    have "handle_events os l evs ?st4 = Inr st'"
      using res Inr by (auto simp: loop_iteration_def sys_epoll_wait_def Let_def split: sum.splits)
    then have "steps os ?st4 st'"
      using steps_handle_events [OF os] server_inv_steps [OF st4] os inv by (auto simp: os_sane_def)
    with st4 show ?thesis by (rule rtranclp_trans)
  qed
qed

lemma steps_main_loop:
  assumes os: "os_sane os" and ret: "main_loop os l st = Some (Inr st')" and inv: "server_inv st"
  shows "steps os st st'"
proof -
  have "\<forall>s'. (Inr st' :: fault + server) = Inr s' \<longrightarrow> os_sane os \<longrightarrow> server_inv st \<longrightarrow> steps os st s'"
  proof (rule main_loop.raw_induct [where P = "\<lambda>os l st r. \<forall>s'. r = Inr s' \<longrightarrow> os_sane os \<longrightarrow>
        server_inv st \<longrightarrow> steps os st s'", OF _ ret], intro allI impI)
    fix f os l st r s'
    assume IH: "\<And>os l st r. f os l st = Some r \<Longrightarrow>
          \<forall>s'. r = Inr s' \<longrightarrow> os_sane os \<longrightarrow> server_inv st \<longrightarrow> steps os st s'"
      and eq: "(if g_running st then
          (case loop_iteration os l st of Inl e \<Rightarrow> Some (Inl e)
           | Inr (cont, st1) \<Rightarrow> if cont then f os l st1 else Some (Inr st1))
         else Some (Inr st)) = Some r"
      and r: "r = Inr s'" and os: "os_sane os" and inv: "server_inv st"
    show "steps os st s'"
    proof (cases "g_running st")
      case True
      then obtain cont st1 where it: "loop_iteration os l st = Inr (cont, st1)"
        using eq r by (cases "loop_iteration os l st") auto
      have s1: "steps os st st1" using steps_loop_iteration [OF os inv it] .
      then have "server_inv st1" using server_inv_steps os inv by (auto simp: os_sane_def)
      then show ?thesis
        using eq r True it s1 IH [of os l st1 r] os by (cases cont) (auto intro: rtranclp_trans)
    qed (use eq r in simp)
  qed
  then show ?thesis using os inv by simp
qed

text \<open>
  The contract of an invariant: atomic steps from good states keep it.  The parameter \<open>'a\<close> is
  whatever the property depends on besides the state, such as the listening descriptor.
\<close>

locale server_property =
  fixes I :: "'a \<Rightarrow> server \<Rightarrow> bool"
  assumes preserved:
    "os_accept_fresh os \<Longrightarrow> server_inv st \<Longrightarrow> I a st \<Longrightarrow> atomic os st st' \<Longrightarrow> I a st'"
begin

lemma steps_keep:
  assumes "os_accept_fresh os" and "steps os st st'" and "server_inv st" and "I a st"
  shows "I a st'"
  using assms(2,3,4)
proof (induction rule: rtranclp_induct)
  case (step st1 st2)
  then have "server_inv st1" using server_inv_steps assms(1) by blast
  then show ?case using step preserved [OF assms(1)] by blast
qed

lemma handle_event_keeps:
  "os_sane os \<Longrightarrow> server_inv st \<Longrightarrow> I a st \<Longrightarrow> handle_event os l ev st = Inr st' \<Longrightarrow> I a st'"
  by (blast intro: steps_keep steps_handle_event os_sane_accept)

lemma loop_iteration_keeps:
  "os_sane os \<Longrightarrow> server_inv st \<Longrightarrow> I a st \<Longrightarrow> loop_iteration os l st = Inr (cont, st') \<Longrightarrow> I a st'"
  by (blast intro: steps_keep steps_loop_iteration os_sane_accept)

lemma main_loop_keeps:
  "os_sane os \<Longrightarrow> server_inv st \<Longrightarrow> I a st \<Longrightarrow> main_loop os l st = Some (Inr st') \<Longrightarrow> I a st'"
  by (blast intro: steps_keep steps_main_loop os_sane_accept)

end

interpretation tables: server_property "\<lambda>_ :: unit. server_inv"
  by unfold_locales (rule server_inv_atomic)

definition no_leak :: "int \<times> int \<Rightarrow> server \<Rightarrow> bool" where
  "no_leak fds st \<longleftrightarrow>
     (\<forall>k. is_open k (sys_hist st) \<longrightarrow> conn_at st k \<noteq> None \<or> k = fst fds \<or> k = snd fds)"

lemma no_leak_atomic:
  assumes "atomic os st st'" and "no_leak fds st"
  shows "no_leak fds st'"
  using assms
  by cases (auto simp: no_leak_def close_connection_hist signal_handler_def split: if_splits)

interpretation leak: server_property no_leak
  by unfold_locales (rule no_leak_atomic)

end
