(* ===== verification/Server_Safety.thy ===== *)
theory Server_Safety
  imports Server_Invariant
begin

text \<open>
  What the invariants of \<open>Server_Invariant\<close> give: the reachable states of the relay server, no
  descriptor outlives the process's use of it, and when exactly the packet handler can touch a
  connection it has freed.
\<close>

section \<open>Starting and stopping\<close>

definition os_socket_valid :: "os \<Rightarrow> bool" where
  "os_socket_valid os \<longleftrightarrow> (\<forall>h k. os_socket os h = Inr k \<longrightarrow> 0 \<le> k)"

lemma create_listen_socket_tables:
  assumes "create_listen_socket os port st = (l, st')"
  shows "g_connections st' = g_connections st \<and> g_mark_to_fd st' = g_mark_to_fd st"
  using assms
  by (auto simp: create_listen_socket_def set_nonblocking_def sys_main_defs sys_defs
      split: sum.splits option.splits)

lemma create_listen_socket_open:
  assumes res: "create_listen_socket os port st = (l, st')" and "os_socket_valid os"
    and none: "\<And>k. \<not> is_open k (sys_hist st)"
  shows "is_open k (sys_hist st') \<longrightarrow> l \<noteq> -1 \<and> k = l"
proof -
  have "os_socket os (sys_hist st) \<noteq> Inr (-1)"
    using assms(2) by (force simp: os_socket_valid_def)
  then show ?thesis
    using res none
    by (auto simp: create_listen_socket_def set_nonblocking_def sys_main_defs sys_defs
        split: sum.splits option.splits)
qed

lemma server_start_fail:
  assumes "server_start os port server_init = (Inl code, st)" and "os_socket_valid os"
  shows "\<not> is_open k (sys_hist st)"
proof -
  obtain l st1 where c: "create_listen_socket os port server_init = (l, st1)"
    by (cases "create_listen_socket os port server_init")
  have "is_open j (sys_hist st1) \<longrightarrow> l \<noteq> -1 \<and> j = l" for j
    by (rule create_listen_socket_open [OF c assms(2)]) (simp add: server_init_def)
  then show ?thesis
    using assms(1) c
    by (auto simp: server_start_def sys_main_defs sys_defs split: sum.splits option.splits if_splits)
qed

lemma server_start_ok:
  assumes "server_start os port server_init = (Inr (l, e), st)" and "os_socket_valid os"
  shows "server_inv st" and "no_leak (l, e) st"
proof -
  obtain l' st1 where c: "create_listen_socket os port server_init = (l', st1)"
    by (cases "create_listen_socket os port server_init")
  have tabs: "g_connections st1 = []" "g_mark_to_fd st1 = []"
    using create_listen_socket_tables [OF c] by (simp_all add: server_init_def)
  have op: "is_open j (sys_hist st1) \<longrightarrow> l' \<noteq> -1 \<and> j = l'" for j
    by (rule create_listen_socket_open [OF c assms(2)]) (simp add: server_init_def)
  have "g_connections st = [] \<and> g_mark_to_fd st = [] \<and>
      (\<forall>k. is_open k (sys_hist st) \<longrightarrow> k = l \<or> k = e)"
    using assms(1) c tabs op
    by (auto simp: server_start_def sys_main_defs sys_defs split: sum.splits option.splits if_splits)
  then show "server_inv st" "no_leak (l, e) st"
    by (auto simp: server_inv_def no_leak_def marks_agree_def um_wf_def um_size_def)
qed

lemma is_open_closes:
  "is_open k (sys_hist (foldl (\<lambda>s p. sys_close (fst p) s) st ps)) \<longleftrightarrow>
     is_open k (sys_hist st) \<and> k \<notin> fst ` set ps"
  by (induction ps arbitrary: st) (auto simp: sys_close_def)

lemma server_cleanup_open:
  assumes "no_leak (l, e) st"
  shows "\<not> is_open k (sys_hist (server_cleanup l e st))"
  using assms is_open_closes [of k st "g_connections st"]
  by (auto simp: server_cleanup_def sys_close_def no_leak_def um_find_None_iff record_call_def Let_def)


section \<open>Reachable states\<close>

text \<open>The states at the head of the event loop of a server started on \<open>port\<close>.\<close>

inductive reachable :: "os \<Rightarrow> int \<Rightarrow> int \<times> int \<Rightarrow> server \<Rightarrow> bool" for os port where
  start: "server_start os port server_init = (Inr fds, st) \<Longrightarrow> reachable os port fds st"
| round: "reachable os port fds st \<Longrightarrow> g_running st \<Longrightarrow>
    loop_iteration os (fst fds) st = Inr (True, st') \<Longrightarrow> reachable os port fds st'"

lemma reachable_inv:
  assumes "reachable os port fds st" and "os_sane os" and "os_socket_valid os"
  shows "server_inv st \<and> no_leak fds st"
  using assms(1)
proof induction
  case (start fds st)
  then show ?case using server_start_ok assms(3) by (cases fds) auto
next
  case (round fds st st')
  then show ?case
    using tables.loop_iteration_keeps [OF assms(2)] leak.loop_iteration_keeps [OF assms(2)] by blast
qed


section \<open>Use after free\<close>

lemma conn_fd_key: "server_inv st \<Longrightarrow> conn_at st k = Some c \<Longrightarrow> conn_fd c = k"
  using server_invD(3) by (auto simp: conn_ok_def)

lemma flush_loop_alive:
  assumes "\<And>h buf. buf \<noteq> [] \<Longrightarrow> \<not> fatal_write (os_write os h k buf)"
  shows "(\<forall>j c. conn_at st j = Some c \<longrightarrow> conn_fd c = j) \<and> conn_at st k \<noteq> None \<longrightarrow>
     conn_at (flush_loop os t st) k \<noteq> None"
proof (induction st rule: flush_loop_induct [where P = "\<lambda>st st'.
    (\<forall>j c. conn_at st j = Some c \<longrightarrow> conn_fd c = j) \<and> conn_at st k \<noteq> None \<longrightarrow>
    conn_at st' k \<noteq> None"])
  case (failure st c r)
  then show ?case using assms by auto
qed auto

lemma process_packet_alive:
  assumes inv: "server_inv st" and c: "conn_at st k = Some c" and n: "unat n \<le> length dat"
    and safe: "\<And>h buf. buf \<noteq> [] \<Longrightarrow> \<not> fatal_write (os_write os h k buf)"
  shows "conn_at (snd (process_packet os k dat n st)) k \<noteq> None"
  using c n
proof (cases rule: process_packet_cases [where os = os])
  case (forward t tc)
  let ?st = "after_enqueue t tc (drop MARK_SIZE (take (unat n) dat)) st"
  have "conn_at (flush_loop os t ?st) k \<noteq> None"
    using flush_loop_alive [OF safe, of ?st t] conn_fd_key [OF inv] c forward(4) by auto
  then show ?thesis
    using forward c by (auto simp: flush_send_buffer_def split: option.splits)
qed (use c in auto)

lemma packet_loop_no_fault:
  assumes fresh: "os_accept_fresh os" and safe: "\<And>h buf. buf \<noteq> [] \<Longrightarrow> \<not> fatal_write (os_write os h k buf)"
  shows "server_inv st \<and> conn_at st k \<noteq> None \<longrightarrow> packet_loop os k st \<noteq> Inl UseAfterFree"
proof (induction st rule: packet_loop_induct
    [where P = "\<lambda>st r. server_inv st \<and> conn_at st k \<noteq> None \<longrightarrow> r \<noteq> Inl UseAfterFree"])
  case (freed st c st1)
  then show ?case
    using process_packet_alive [OF _ freed(1) packet_in_buffer [OF _ freed(1)] safe] by fastforce
next
  case (another st c st1 c1 st2)
  have "server_inv st \<Longrightarrow> server_inv st2"
    unfolding another(4) using steps_next_packet(2) [OF _ another(1,7,2,3)] server_inv_steps fresh by blast
  then show ?case using another(4,5) by simp
qed auto

lemma handle_client_data_no_fault:
  assumes os: "os_sane os" and safe: "\<And>h buf. buf \<noteq> [] \<Longrightarrow> \<not> fatal_write (os_write os h k buf)"
    and inv: "server_inv st"
  shows "handle_client_data os k st \<noteq> Inl UseAfterFree"
proof (cases "conn_at st k")
  case (Some c)
  then show ?thesis
  proof (cases rule: handle_client_data_cases [where os = os])
    case (data bs)
    have fit: "recv_len c + length bs \<le> BUFFER_SIZE" using read_fits data os by (auto simp: os_sane_def)
    have "conn_at (after_read k c bs st) k \<noteq> None" by (simp add: after_read_def)
    then show ?thesis
      using packet_loop_no_fault [OF os_sane_accept [OF os] safe] data(4)
        after_read_inv [OF inv Some fit os_sane_accept [OF os]] by simp
  qed simp_all
qed (simp add: handle_client_data_def)

lemma no_fault_returns: "r \<noteq> Inl UseAfterFree \<Longrightarrow> \<exists>st'. r = Inr st'"
  by (cases r) (auto intro: fault.exhaust)


section \<open>A calm kernel\<close>

text \<open>
  A concrete kernel for the witnesses: every call succeeds, one client connects (descriptor 5),
  then the process gets a \<open>SIGTERM\<close>.
\<close>

definition listen_event :: epoll_event where
  "listen_event = \<lparr>ev_fd = 3, ev_in = True, ev_out = False, ev_err = False, ev_hup = False\<rparr>"

definition calm_os :: os where
  "calm_os =
     \<lparr>os_write = (\<lambda>h k buf. Inr (length buf)),
      os_read = (\<lambda>h k n. Inl EAGAIN),
      os_accept = (\<lambda>h l. if is_open 5 h then Inl EAGAIN else Inr 5),
      os_epoll_ctl = (\<lambda>h op k. None),
      os_fcntl = (\<lambda>h k cmd. Inr 0),
      os_setsockopt = (\<lambda>h k opt. None),
      os_socket = (\<lambda>h. Inr 3),
      os_bind = (\<lambda>h k port. None),
      os_listen = (\<lambda>h k. None),
      os_epoll_create1 = (\<lambda>h. Inr 4),
      os_epoll_wait = (\<lambda>h. Inr (if is_open 5 h then [] else [listen_event])),
      os_signal = (\<lambda>h. if is_open 5 h then Some 15 else None),
      os_clock = (\<lambda>h. 0)\<rparr>"

lemma report_idle: "os_clock os = (\<lambda>h. 0) \<Longrightarrow> report_performance os st = st"
  by (simp add: report_performance_def perf_report_def)

lemma calm_os_sane: "os_sane calm_os"
  by (auto simp: calm_os_def os_sane_def os_accept_fresh_def os_read_bounded_def split: if_splits)

lemma calm_os_socket: "os_socket_valid calm_os"
  by (simp add: calm_os_def os_socket_valid_def)

lemma calm_os_write: "buf \<noteq> [] \<Longrightarrow> \<not> fatal_write (os_write calm_os h k buf)"
  by (simp add: calm_os_def fatal_write_def)

lemmas calm_run_simps = calm_os_def server_start_def create_listen_socket_def set_nonblocking_def
  sys_main_defs sys_defs server_init_def start_perf_def report_idle loop_iteration_def handle_event_def
  handle_new_connection_def listen_event_def signal_handler_def bump_stat_def set_conn_def
  MAX_CONNECTIONS_def um_size_def

definition calm_started :: server where
  "calm_started = snd (server_start calm_os 27015 server_init)"

lemma calm_start: "server_start calm_os 27015 server_init = (Inr (3, 4), calm_started)"
  by (simp add: calm_started_def calm_run_simps)

definition calm_connected :: server where
  "calm_connected = (case loop_iteration calm_os 3 calm_started of Inr (_, st) \<Rightarrow> st | Inl _ \<Rightarrow> server_init)"

lemma calm_round: "loop_iteration calm_os 3 calm_started = Inr (True, calm_connected)"
  by (simp add: calm_connected_def calm_started_def calm_run_simps)

lemma calm_connected_conn: "conn_at calm_connected 5 = Some (Connection_new 5)"
  by (simp add: calm_connected_def calm_started_def calm_run_simps)

lemma calm_reachable: "reachable calm_os 27015 (3, 4) calm_connected"
proof -
  have "reachable calm_os 27015 (3, 4) calm_started" using calm_start by (rule reachable.start)
  moreover have "g_running calm_started" by (simp add: calm_started_def calm_run_simps)
  ultimately show ?thesis using reachable.round [of calm_os 27015 "(3, 4)"] calm_round by simp
qed

lemma calm_main: "\<exists>st. server_main calm_os 27015 = Some (Inr (0, st))"
proof -
  have "\<exists>st. main_loop calm_os 3 calm_connected = Some (Inr st)"
    by (subst main_loop.simps) (simp add: main_loop.simps calm_connected_def calm_started_def calm_run_simps)
  moreover have "main_loop calm_os 3 calm_started = main_loop calm_os 3 calm_connected"
    using calm_round by (subst main_loop.simps) (simp add: calm_started_def calm_run_simps)
  ultimately show ?thesis using calm_start by (auto simp: server_main_def)
qed


section \<open>Properties\<close>

text \<open>
  C4: in every state the event loop can reach, the tables of the server are consistent: a mark is
  mapped to a descriptor exactly if that descriptor's connection registered this mark (so no mark
  is shared and no entry outlives its connection), there are at most four connections, receive
  buffers keep their size and fill level, and every connection's descriptor is open.
\<close>

theorem reachable_tables_consistent:
  assumes "reachable os port fds st" and "os_sane os" and "os_socket_valid os"
  shows "server_inv st"
  using reachable_inv [OF assms] by simp

theorem reachable_tables_consistent_witness:
  "conn_at calm_connected 5 = Some (Connection_new 5) \<and> server_inv calm_connected"
  using reachable_tables_consistent [OF calm_reachable calm_os_sane calm_os_socket]
    calm_connected_conn by simp

text \<open>
  C15: when \<open>main\<close> returns, on an early error or after the event loop, every descriptor that the
  process opened (sockets, accepted connections, the epoll instance) has been closed.
\<close>

theorem main_closes_all_descriptors:
  assumes "server_main os port = Some (Inr (code, st))" and "os_sane os" and "os_socket_valid os"
  shows "\<not> is_open k (sys_hist st)"
proof (cases "server_start os port server_init")
  case (Pair r st0)
  show ?thesis
  proof (cases r)
    case (Inl c)
    then show ?thesis
      using assms(1,3) Pair server_start_fail by (auto simp: server_main_def)
  next
    case (Inr fds)
    obtain l e where fds: "fds = (l, e)" by (cases fds)
    then obtain st1 where loop: "main_loop os l st0 = Some (Inr st1)"
      and st: "st = server_cleanup l e st1"
      using assms(1) Pair Inr by (auto simp: server_main_def split: option.splits sum.splits)
    have start: "server_start os port server_init = (Inr (l, e), st0)" using Pair Inr fds by simp
    have "no_leak (l, e) st1"
      using leak.main_loop_keeps [OF assms(2) server_start_ok [OF start assms(3)] loop] .
    then show ?thesis unfolding st by (rule server_cleanup_open)
  qed
qed

theorem main_closes_all_descriptors_witness:
  "\<exists>st. server_main calm_os 27015 = Some (Inr (0, st)) \<and> \<not> is_open 5 (sys_hist st)"
  using calm_main main_closes_all_descriptors [OF _ calm_os_sane calm_os_socket] by blast

text \<open>
  C16: \<open>handle_client_data\<close> never uses a connection after it was freed, as long as writing to that
  same connection does not fail.
\<close>

theorem handle_client_data_memory_safe:
  assumes "os_sane os" and "\<And>h buf. buf \<noteq> [] \<Longrightarrow> \<not> fatal_write (os_write os h k buf)"
    and "server_inv st"
  shows "\<exists>st'. handle_client_data os k st = Inr st'"
  using handle_client_data_no_fault [OF assms] by (rule no_fault_returns)

theorem handle_client_data_memory_safe_witness:
  "\<exists>st'. handle_client_data calm_os 5 calm_connected = Inr st'"
  using handle_client_data_memory_safe [OF calm_os_sane calm_os_write]
    reachable_inv [OF calm_reachable calm_os_sane calm_os_socket] by blast

end
