(* ===== verification/Server_Events.thy ===== *)
theory Server_Events
  imports Server_Safety
begin

text \<open>
  Invariants that hold between two events, but not in the middle of a handler.  The interface
  \<open>event_invariant\<close> asks that every event keeps the property and gives it for all reachable
  states.  The instance here is the absence of lost wake-ups: a connection with unsent bytes is
  always watched for writability.
\<close>

section \<open>Rounds of the event loop\<close>

lemma loop_iteration_cases:
  assumes "loop_iteration os l st = Inr (cont, st')"
  obtains (no_events) e where "g_connections st' = g_connections st"
      "g_mark_to_fd st' = g_mark_to_fd st" "sys_hist st' = SEpollWait (Inl e) # sys_hist st"
  | (events) evs st1 where "g_connections st1 = g_connections st"
      "g_mark_to_fd st1 = g_mark_to_fd st" "sys_hist st1 = SEpollWait (Inr evs) # sys_hist st"
      "handle_events os l evs st1 = Inr st'"
proof -
  let ?st1 = "bump_stat (\<lambda>s. s\<lparr>g_stat_event_loops := g_stat_event_loops s + 1\<rparr>) st"
  define st2 where
    "st2 = (case os_signal os (sys_hist ?st1) of None \<Rightarrow> ?st1 | Some n \<Rightarrow> signal_handler n ?st1)"
  have st2: "g_connections st2 = g_connections st" "g_mark_to_fd st2 = g_mark_to_fd st"
    "sys_hist st2 = sys_hist st"
    by (simp_all add: st2_def signal_handler_def split: option.split)
  note it = assms [unfolded loop_iteration_def Let_def, folded st2_def, unfolded sys_epoll_wait_def Let_def]
  show thesis
  proof (cases "os_epoll_wait os (sys_hist st2)")
    case (Inl e)
    then show thesis using it st2 no_events by (auto split: if_splits)
  next
    case (Inr evs)
    then show thesis
      using it st2
        events [of "report_performance os (bump_stat (\<lambda>s. s\<lparr>g_stat_events := g_stat_events s + word_of_nat (length evs)\<rparr>)
                    (record_call (SEpollWait (Inr evs)) st2))" evs]
      by (auto split: sum.splits)
  qed
qed

locale event_invariant =
  fixes J :: "server \<Rightarrow> bool" and ok :: "os \<Rightarrow> bool"
  assumes initially: "ok os \<Longrightarrow> server_start os port server_init = (Inr fds, st) \<Longrightarrow> J st"
    and wait: "J st \<Longrightarrow> g_connections st' = g_connections st \<Longrightarrow>
      sys_hist st' = SEpollWait r # sys_hist st \<Longrightarrow> J st'"
    and event: "ok os \<Longrightarrow> os_sane os \<Longrightarrow> server_inv st \<Longrightarrow> J st \<Longrightarrow>
      handle_event os l ev st = Inr st' \<Longrightarrow> J st'"
begin

lemma events_keep:
  assumes ok: "ok os" and os: "os_sane os"
  shows "server_inv st \<Longrightarrow> J st \<Longrightarrow> handle_events os l evs st = Inr st' \<Longrightarrow> J st'"
proof (induction evs arbitrary: st)
  case (Cons ev evs)
  obtain st1 where st1: "handle_event os l ev st = Inr st1" "handle_events os l evs st1 = Inr st'"
    using Cons.prems(3) by (auto split: sum.splits)
  have "J st1" using event [OF ok os Cons.prems(1,2) st1(1)] .
  moreover have "server_inv st1"
    using tables.handle_event_keeps [OF os Cons.prems(1) Cons.prems(1) st1(1)] by blast
  ultimately show ?case using st1(2) Cons.IH by blast
qed simp

lemma round_keeps:
  assumes "ok os" and "os_sane os" and inv: "server_inv st" and J: "J st"
    and "loop_iteration os l st = Inr (cont, st')"
  shows "J st'"
  using assms(5)
proof (cases rule: loop_iteration_cases)
  case (no_events e)
  then show ?thesis using wait [OF J] by blast
next
  case (events evs st1)
  have "server_inv st1" by (rule server_inv_same [OF inv]) (simp_all add: events)
  moreover have "J st1" using wait [OF J events(1,3)] .
  ultimately show ?thesis using events_keep [OF assms(1,2)] events(4) by blast
qed

lemma reachable_keeps:
  assumes "reachable os port fds st" and "ok os" and "os_sane os" and "os_socket_valid os"
  shows "J st"
  using assms(1)
proof induction
  case (start fds st)
  then show ?case using assms(2) initially by blast
next
  case (round fds st st')
  then show ?case using round_keeps [OF assms(2,3)] reachable_inv [OF _ assms(3,4)] by blast
qed

end

lemma server_start_no_conns:
  "server_start os port server_init = (Inr fds, st) \<Longrightarrow> g_connections st = []"
  by (auto simp: server_start_def create_listen_socket_def set_nonblocking_def sys_main_defs sys_defs
      server_init_def split: sum.splits option.splits if_splits)


section \<open>No lost wake-ups\<close>

text \<open>
  A connection is watched by epoll, and for writability too as long as bytes wait to be sent.
  While a packet is being forwarded this fails for its target, until the flush that follows.
\<close>

definition armed_at :: "int \<Rightarrow> server \<Rightarrow> bool" where
  "armed_at k st \<longleftrightarrow> (\<forall>c. conn_at st k = Some c \<longrightarrow>
     wants_write k (sys_hist st) \<noteq> None \<and>
     (send_buf c \<noteq> [] \<longrightarrow> wants_write k (sys_hist st) = Some True))"

definition armed :: "server \<Rightarrow> bool" where
  "armed st \<longleftrightarrow> (\<forall>k. armed_at k st)"

text \<open>What the flush of connection \<open>k\<close> needs: the others are armed, and epoll knows \<open>k\<close>.\<close>

definition armed_but :: "int \<Rightarrow> server \<Rightarrow> bool" where
  "armed_but k st \<longleftrightarrow> (\<forall>j. j \<noteq> k \<longrightarrow> armed_at j st) \<and>
     (conn_at st k \<noteq> None \<longrightarrow> wants_write k (sys_hist st) \<noteq> None) \<and>
     (\<forall>j c. conn_at st j = Some c \<longrightarrow> conn_fd c = j)"

lemma armed_same:
  "armed st \<Longrightarrow> g_connections st' = g_connections st \<Longrightarrow>
   (\<And>j. wants_write j (sys_hist st') = wants_write j (sys_hist st)) \<Longrightarrow> armed st'"
  by (simp add: armed_def armed_at_def)

lemma armed_imp_but: "armed st \<Longrightarrow> server_inv st \<Longrightarrow> armed_but k st"
  using conn_fd_key by (auto simp: armed_def armed_but_def armed_at_def)

lemma armed_close:
  assumes "\<And>j. j \<noteq> k \<Longrightarrow> armed_at j st"
  shows "armed (close_connection os k st)"
  using assms by (auto simp: armed_def armed_at_def close_connection_hist)

lemma armed_flush_loop:
  assumes mod: "os_epoll_mod_works os"
  shows "armed_but k st \<longrightarrow> armed (flush_loop os k st)"
proof (induction st rule: flush_loop_induct [where P = "\<lambda>st st'. armed_but k st \<longrightarrow> armed st'"])
  case (missing st)
  then show ?case by (metis armed_at_def armed_but_def armed_def option.distinct(1))
next
  case (empty st c)
  then show ?case
    using mod by (auto simp: armed_but_def armed_def armed_at_def update_epoll_events_eq os_epoll_mod_works_def)
next
  case (progress st c n)
  have "armed_but k st \<Longrightarrow> armed_but k (after_progress k c n st)"
    using progress by (auto simp: armed_but_def armed_at_def split: if_splits)
  then show ?case using progress.IH by blast
next
  case (wait st c r)
  then show ?case
    using mod by (auto simp: armed_but_def armed_def armed_at_def update_epoll_events_eq os_epoll_mod_works_def)
next
  case (failure st c r)
  then have "armed_but k st \<Longrightarrow> conn_fd c = k" by (auto simp: armed_but_def)
  then show ?case
    by (auto simp: after_failure_def armed_but_def armed_at_def intro!: armed_close split: if_splits)
qed

lemma armed_flush:
  assumes "os_epoll_mod_works os" and "armed_but k st" and "conn_at st k = Some c" and "0 \<le> k"
  shows "armed (flush_send_buffer os k st)"
proof -
  have "conn_fd c = k" using assms(2,3) by (simp add: armed_but_def)
  then have "flush_send_buffer os k st = flush_loop os k st"
    using assms(3,4) by (simp add: flush_send_buffer_def flush_loop.simps)
  then show ?thesis using armed_flush_loop [OF assms(1)] assms(2) by simp
qed

lemma armed_process_packet:
  assumes mod: "os_epoll_mod_works os" and inv: "server_inv st" and arm: "armed st"
    and c: "conn_at st k = Some c" and n: "unat n \<le> length dat"
  shows "armed (snd (process_packet os k dat n st))"
  using c n
proof (cases rule: process_packet_cases [where os = os])
  case (forward t tc)
  have "armed_but t (after_enqueue t tc p st)" for p
    using armed_imp_but [OF arm inv, of t] forward(4)
    by (auto simp: armed_but_def armed_at_def split: if_splits)
  moreover have "0 \<le> t" using server_invD(3) [OF inv forward(4)] by (simp add: conn_ok_def)
  ultimately show ?thesis using armed_flush [OF mod] forward by simp
qed (use arm c in \<open>auto simp: armed_def armed_at_def split: if_splits\<close>)

lemma armed_packet_loop:
  assumes mod: "os_epoll_mod_works os" and fresh: "os_accept_fresh os"
  shows "server_inv st \<and> armed st \<longrightarrow> (\<forall>st'. packet_loop os k st = Inr st' \<longrightarrow> armed st')"
proof (induction st rule: packet_loop_induct
    [where P = "\<lambda>st r. server_inv st \<and> armed st \<longrightarrow> (\<forall>st'. r = Inr st' \<longrightarrow> armed st')"])
  case (illegal st c)
  then show ?case by (auto simp: armed_def intro: armed_close [unfolded armed_def, rule_format])
next
  case (rejected st c st1)
  then show ?case
    using armed_process_packet [OF mod _ _ rejected(1) packet_in_buffer [OF _ rejected(1,3)]]
      armed_close [of k st1] by (auto simp: armed_def)
next
  case (another st c st1 c1 st2)
  show ?case
  proof (intro impI allI)
    fix st' assume pre: "server_inv st \<and> armed st" and st': "packet_loop os k st2 = Inr st'"
    note pb = packet_in_buffer [OF conjunct1 [OF pre] another(1,3)]
    have "armed st1" using armed_process_packet [OF mod _ _ another(1) pb] pre another(4) by (metis snd_conv)
    then have "armed st2" unfolding another(6) using another(5) by (auto simp: armed_def armed_at_def)
    moreover have "server_inv st2"
      unfolding another(6) using steps_next_packet(2) [OF conjunct1 [OF pre] another(1,3,4,5)]
        server_inv_steps fresh pre by blast
    ultimately show "armed st'" using another(7) st' by blast
  qed
qed auto

lemma armed_handle_client_data:
  assumes mod: "os_epoll_mod_works os" and os: "os_sane os" and inv: "server_inv st"
    and arm: "armed st" and res: "handle_client_data os k st = Inr st'"
  shows "armed st'"
proof (cases "conn_at st k")
  case None
  then show ?thesis using res arm armed_close by (auto simp: handle_client_data_def armed_def)
next
  case (Some c)
  have rd: "armed (record_call (SRead k m r) st)" for m r by (rule armed_same [OF arm]) simp_all
  then have cl: "armed (close_connection os k (record_call (SRead k m r) st))" for m r
    by (intro armed_close) (simp add: armed_def)
  show ?thesis
    using Some
  proof (cases rule: handle_client_data_cases [where os = os])
    case (data bs)
    have fit: "recv_len c + length bs \<le> BUFFER_SIZE" using read_fits data os by (auto simp: os_sane_def)
    have "armed (after_read k c bs st)"
      using arm Some by (auto simp: armed_def armed_at_def after_read_def)
    then show ?thesis
      using armed_packet_loop [OF mod os_sane_accept [OF os]] data(4) res
        after_read_inv [OF inv Some fit os_sane_accept [OF os]] by simp
  next
    case full
    then show ?thesis using res arm armed_close by (auto simp: armed_def)
  qed (use res rd cl in auto)
qed

lemma armed_handle_new_connection:
  assumes os: "os_accept_fresh os" and inv: "server_inv st" and arm: "armed st"
  shows "armed (handle_new_connection os l st)"
proof (cases "os_accept os (sys_hist st) l")
  case (Inl e)
  then show ?thesis
    using arm by (auto simp: handle_new_connection_def sys_defs armed_def armed_at_def)
next
  case (Inr k)
  then have "\<not> is_open k (sys_hist st)" using os by (simp add: os_accept_fresh_def)
  then have "conn_at st k = None" using server_invD(4) [OF inv] by (cases "conn_at st k") auto
  then show ?thesis
    using arm Inr
    by (auto simp: handle_new_connection_def set_nonblocking_def sys_defs armed_def armed_at_def
        set_conn_def split: option.split sum.split)
qed

lemma armed_handle_event:
  assumes mod: "os_epoll_mod_works os" and os: "os_sane os" and inv: "server_inv st" and arm: "armed st"
    and res: "handle_event os l ev st = Inr st'"
  shows "armed st'"
proof (cases "ev_fd ev = l")
  case True
  then show ?thesis
    using res armed_handle_new_connection [OF os_sane_accept [OF os] inv arm] by (auto simp: handle_event_def)
next
  case False
  let ?k = "ev_fd ev"
  have wr: "armed (handle_client_write os ?k s)" if "armed s" "server_inv s" for s
  proof (cases "conn_at s ?k")
    case (Some c)
    then have "0 \<le> ?k" using server_invD(3) [OF that(2)] by (auto simp: conn_ok_def)
    then show ?thesis
      using armed_flush [OF mod armed_imp_but [OF that] Some] Some by (simp add: handle_client_write_def)
  qed (use that armed_close in \<open>auto simp: handle_client_write_def armed_def\<close>)
  let ?r = "if ev_err ev \<or> ev_hup ev then Inr (close_connection os ?k st)
            else if ev_in ev then handle_client_data os ?k st else Inr st"
  obtain st1 where r: "?r = Inr st1"
    and st': "st' = (if ev_out ev then handle_client_write os ?k st1 else st1)"
    using res False by (cases ?r) (auto simp: handle_event_def split: if_splits)
  have "armed st1"
    using r armed_handle_client_data [OF mod os inv arm] armed_close arm
    by (auto simp: armed_def split: if_splits)
  moreover have "server_inv st1"
    using r server_inv_close [OF inv] server_inv_handle_client_data [OF os inv] inv
    by (auto split: if_splits)
  ultimately show ?thesis using st' wr by simp
qed

interpretation wakeup: event_invariant armed os_epoll_mod_works
proof unfold_locales
  fix os port fds st
  assume "server_start os port server_init = (Inr fds, st)"
  then show "armed st" by (simp add: armed_def armed_at_def server_start_no_conns)
next
  fix st st' :: server and r
  assume "armed st" "g_connections st' = g_connections st" "sys_hist st' = SEpollWait r # sys_hist st"
  then show "armed st'" using armed_same [of st st'] by simp
qed (rule armed_handle_event)

end
