(* ===== verification/Relay_Refinement.thy ===== *)
theory Relay_Refinement
  imports Relay_Spec Server_Events
begin

text \<open>
  The server implements the abstract relay: \<open>abs_relay\<close> reads the abstract state off the server's
  tables and its history of system calls (what the kernel took for a client and what still waits
  in \<open>send_buf\<close> are one stream), and processing a packet, running the packet loop and handling a
  readable socket on the server are steps of the abstract relay.
\<close>

section \<open>The abstraction\<close>

definition abs_client :: "history \<Rightarrow> int \<Rightarrow> Connection \<Rightarrow> client" where
  "abs_client h k c =
     \<lparr>reg = (if registered c then Some (mark_to_key (mark c)) else None),
      inb = take (recv_len c) (recv_buf c),
      outb = sent_bytes k h @ send_buf c\<rparr>"

definition abs_relay :: "server \<Rightarrow> relay" where
  "abs_relay st = (\<lambda>k. map_option (abs_client (sys_hist st) k) (conn_at st k))"

lemma abs_relay_at: "abs_relay st k = map_option (abs_client (sys_hist st) k) (conn_at st k)"
  by (simp add: abs_relay_def)

lemma abs_client_cong:
  "sent_bytes k h' = sent_bytes k h \<Longrightarrow> abs_client h' k c = abs_client h k c"
  by (simp add: abs_client_def)

lemma abs_relay_eqI:
  assumes "\<And>j. conn_at st' j = None \<longleftrightarrow> R j = None"
    and "\<And>j c. conn_at st' j = Some c \<Longrightarrow> R j = Some (abs_client (sys_hist st') j c)"
  shows "abs_relay st' = R"
proof
  fix j show "abs_relay st' j = R j"
    using assms(1) [of j] assms(2) [of j] by (cases "conn_at st' j") (simp_all add: abs_relay_at)
qed

lemma abs_relay_cong:
  assumes "g_connections st' = g_connections st"
    and "\<And>j. sent_bytes j (sys_hist st') = sent_bytes j (sys_hist st)"
  shows "abs_relay st' = abs_relay st"
  using assms by (intro abs_relay_eqI) (simp_all add: abs_relay_at abs_client_def)

lemma abs_relay_bump [simp]: "abs_relay (bump_stat f st) = abs_relay st"
  by (rule abs_relay_cong) simp_all

lemma abs_relay_count [simp]: "abs_relay (count_packet st) = abs_relay st"
  by (simp add: count_packet_def)

lemma abs_relay_set_conn:
  "abs_relay (set_conn k c st) = (abs_relay st)(k := Some (abs_client (sys_hist st) k c))"
  by (auto simp: abs_relay_def fun_eq_iff)

lemma abs_relay_close [simp]: "abs_relay (close_connection os k st) = (abs_relay st)(k := None)"
  by (rule abs_relay_eqI)
    (auto simp: abs_relay_at close_connection_hist abs_client_def split: if_splits)

lemma abs_relay_epoll [simp]: "abs_relay (snd (update_epoll_events os k w st)) = abs_relay st"
  by (rule abs_relay_cong) (simp_all add: update_epoll_events_eq)

lemma abs_relay_progress:
  assumes "conn_at st k = Some c" and "conn_fd c = k"
  shows "abs_relay (after_progress k c n st) = abs_relay st"
  using assms by (intro abs_relay_eqI) (auto simp: abs_relay_at abs_client_def split: if_splits)

lemma no_error_not_fatal:
  assumes "os_write_no_error os" and "buf \<noteq> []"
  shows "\<not> fatal_write (os_write os h k buf)"
  using assms(1) [unfolded os_write_no_error_def, rule_format, OF assms(2), of h k]
  by (auto simp: fatal_write_def)

text \<open>Flushing moves bytes from the buffer to the kernel and changes nothing else.\<close>

lemma abs_relay_flush_loop:
  assumes "os_write_no_error os"
  shows "(\<forall>j c. conn_at st j = Some c \<longrightarrow> conn_fd c = j) \<longrightarrow>
     abs_relay (flush_loop os k st) = abs_relay st"
proof (induction st rule: flush_loop_induct [where P = "\<lambda>st st'.
    (\<forall>j c. conn_at st j = Some c \<longrightarrow> conn_fd c = j) \<longrightarrow> abs_relay st' = abs_relay st"])
  case (progress st c n)
  show ?case
  proof
    assume key: "\<forall>j c. conn_at st j = Some c \<longrightarrow> conn_fd c = j"
    then have "abs_relay (after_progress k c n st) = abs_relay st"
      using progress(1) by (intro abs_relay_progress) auto
    moreover have "\<forall>j c'. conn_at (after_progress k c n st) j = Some c' \<longrightarrow> conn_fd c' = j"
      using key progress(1) by auto
    ultimately show "abs_relay (flush_loop os k (after_progress k c n st)) = abs_relay st"
      using progress.IH by (simp only: simp_thms)
  qed
next
  case (wait st c r)
  then have "abs_relay (after_write k c r st) = abs_relay st" by (intro abs_relay_cong) auto
  then show ?case by simp
next
  case (failure st c r)
  then show ?case using no_error_not_fatal [OF assms, of "send_buf c"] by blast
qed auto

lemma abs_relay_flush:
  assumes "os_write_no_error os" and "\<And>j c. conn_at st j = Some c \<Longrightarrow> conn_fd c = j"
  shows "abs_relay (flush_send_buffer os k st) = abs_relay st"
  using abs_relay_flush_loop [OF assms(1)] assms(2)
  by (auto simp: flush_send_buffer_def split: option.splits)


text \<open>
  The same for a kernel that may fail: what the flush of \<open>k\<close> did.  Either the connection survived, and
  then the kernel took a prefix of its buffer, up to all of it or to the point where it told the
  server to wait; or a write failed, and then the connection is closed.
\<close>

definition flushed :: "int \<Rightarrow> Connection \<Rightarrow> server \<Rightarrow> server \<Rightarrow> bool" where
  "flushed k c st st' \<longleftrightarrow>
     (\<exists>new. sys_hist st' = new @ sys_hist st \<and>
        (case conn_at st' k of
           None \<Rightarrow> \<exists>buf r. SWrite k buf r \<in> set new \<and> fatal_write r
         | Some c' \<Rightarrow>
             (\<exists>n. c' = c\<lparr>send_buf := drop n (send_buf c)\<rparr> \<and>
                sent_bytes k (sys_hist st') = sent_bytes k (sys_hist st) @ take n (send_buf c)) \<and>
             (send_buf c' = [] \<or>
              (\<exists>e. SWrite k (send_buf c') (Inl e) \<in> set new \<and> (e = EAGAIN \<or> e = EWOULDBLOCK)))))"

lemma flushed_progress:
  assumes "conn_fd c = k"
    and "flushed k (c\<lparr>send_buf := drop n (send_buf c)\<rparr>) (after_progress k c n st) st'"
  shows "flushed k c st st'"
proof (cases "conn_at st' k")
  case None
  then obtain new buf r where new: "sys_hist st' = new @ SWrite k (send_buf c) (Inr n) # sys_hist st"
    "SWrite k buf r \<in> set new" "fatal_write r"
    using assms by (auto simp: flushed_def)
  then show ?thesis
    using None unfolding flushed_def by (intro exI [of _ "new @ [SWrite k (send_buf c) (Inr n)]"]) auto
next
  case (Some c')
  let ?c = "c\<lparr>send_buf := drop n (send_buf c)\<rparr>"
  have "\<exists>new. sys_hist st' = new @ sys_hist (after_progress k c n st) \<and>
     (\<exists>m. c' = ?c\<lparr>send_buf := drop m (send_buf ?c)\<rparr> \<and>
        sent_bytes k (sys_hist st') = sent_bytes k (sys_hist (after_progress k c n st)) @ take m (send_buf ?c)) \<and>
     (send_buf c' = [] \<or> (\<exists>e. SWrite k (send_buf c') (Inl e) \<in> set new \<and> (e = EAGAIN \<or> e = EWOULDBLOCK)))"
    using assms(2) unfolding flushed_def Some by (simp only: option.case)
  then obtain new m where new: "sys_hist st' = new @ SWrite k (send_buf c) (Inr n) # sys_hist st"
    and m: "c' = ?c\<lparr>send_buf := drop m (send_buf ?c)\<rparr>"
      "sent_bytes k (sys_hist st') = sent_bytes k (sys_hist (after_progress k c n st)) @ take m (send_buf ?c)"
    and stop: "send_buf c' = [] \<or>
      (\<exists>e. SWrite k (send_buf c') (Inl e) \<in> set new \<and> (e = EAGAIN \<or> e = EWOULDBLOCK))"
    unfolding after_simps assms(1) by blast
  have "c' = c\<lparr>send_buf := drop (n + m) (send_buf c)\<rparr>"
    "sent_bytes k (sys_hist st') = sent_bytes k (sys_hist st) @ take (n + m) (send_buf c)"
    using m assms(1) by (simp add: add.commute, simp add: take_add)
  moreover have "sys_hist st' = (new @ [SWrite k (send_buf c) (Inr n)]) @ sys_hist st" using new by simp
  moreover have "send_buf c' = [] \<or> (\<exists>e. SWrite k (send_buf c') (Inl e) \<in> set (new @ [SWrite k (send_buf c) (Inr n)]) \<and>
      (e = EAGAIN \<or> e = EWOULDBLOCK))"
    using stop by auto
  ultimately show ?thesis unfolding flushed_def Some option.case by blast
qed

lemma flush_loop_flushes:
  "\<forall>c. conn_at st k = Some c \<and> conn_fd c = k \<longrightarrow> flushed k c st (flush_loop os k st) \<and>
     abs_relay (flush_loop os k st) =
       (if conn_at (flush_loop os k st) k = None then (abs_relay st)(k := None) else abs_relay st)"
proof (induction st rule: flush_loop_induct [where P = "\<lambda>st st'. \<forall>c.
    conn_at st k = Some c \<and> conn_fd c = k \<longrightarrow> flushed k c st st' \<and>
    abs_relay st' = (if conn_at st' k = None then (abs_relay st)(k := None) else abs_relay st)"])
  case (empty st c)
  then show ?case by (auto simp: flushed_def) (auto simp: update_epoll_events_eq)
next
  case (progress st c n)
  then show ?case using flushed_progress [of c k n st] abs_relay_progress [of st k c n] by auto
next
  case (wait st c r)
  then have "abs_relay (after_write k c r st) = abs_relay st" by (intro abs_relay_cong) auto
  then show ?case using wait by (auto simp: flushed_def) (auto simp: update_epoll_events_eq intro!: exI [of _ 0])
next
  case (failure st c r)
  then have "abs_relay (after_write k c r st) = abs_relay st"
    by (intro abs_relay_cong) (auto simp: fatal_write_def split: sum.splits)
  then show ?case
    using failure by (auto simp: flushed_def after_failure_def close_connection_hist)
qed simp


section \<open>Packets\<close>

lemma abs_client_simps [simp]:
  "reg (abs_client h k c) = (if registered c then Some (mark_to_key (mark c)) else None)"
  "inb (abs_client h k c) = take (recv_len c) (recv_buf c)"
  "outb (abs_client h k c) = sent_bytes k h @ send_buf c"
  by (simp_all add: abs_client_def)

lemma reg_abs_relay:
  assumes "marks_agree st" and "abs_relay st j = Some c"
  shows "reg c = Some key \<longleftrightarrow> target_of st key = Some j"
  using assms(2) marks_agreeD [OF assms(1), of key j]
  by (auto simp: abs_relay_at split: if_splits)

lemma key_free_abs:
  assumes "marks_agree st"
  shows "key_free (abs_relay st) key \<longleftrightarrow> target_of st key = None"
proof
  assume free: "key_free (abs_relay st) key"
  show "target_of st key = None"
  proof (rule ccontr)
    assume "target_of st key \<noteq> None"
    then obtain j where j: "target_of st key = Some j" by blast
    then obtain c where "abs_relay st j = Some c"
      using marks_agreeD [OF assms, of key j] by (auto simp: abs_relay_at)
    then show False using free j reg_abs_relay [OF assms] by (auto simp: key_free_def)
  qed
qed (use reg_abs_relay [OF assms] in \<open>auto simp: key_free_def\<close>)

lemma abs_relay_enqueue:
  assumes inv: "server_inv st" and t: "target_of st key = Some t" and tc: "conn_at st t = Some tc"
  shows "abs_relay (after_enqueue t tc p st) = deliver key p (abs_relay st)"
proof
  fix j
  have "abs_relay st j = Some c \<Longrightarrow> reg c = Some key \<longleftrightarrow> j = t" for c
    using reg_abs_relay [OF server_invD(5) [OF inv]] t by auto
  then show "abs_relay (after_enqueue t tc p st) j = deliver key p (abs_relay st) j"
    using tc by (cases "conn_at st j") (auto simp: deliver_def abs_relay_at abs_client_def)
qed

lemma abs_relay_register:
  assumes "conn_at st k = Some c"
  shows "abs_relay (after_register k c dat st) =
     (abs_relay st)(k := Some (abs_client (sys_hist st) k c\<lparr>reg := Some (mark_to_key dat)\<rparr>))"
  using assms
  by (intro ext) (auto simp: abs_relay_at abs_client_def MARK_SIZE_def)

text \<open>
  Processing one packet on the server, and closing the connection when the packet handler asks
  for that, is one step of the abstract relay.
\<close>

lemma process_packet_spec:
  assumes inv: "server_inv st" and c: "conn_at st k = Some c" and n: "unat n \<le> length dat"
    and wr: "os_write_no_error os" and res: "process_packet os k dat n st = (ok, st1)"
  shows "abs_relay (if ok then st1 else close_connection os k st1) =
     spec_packet k (take (unat n) dat) (abs_relay st)"
proof -
  let ?p = "take (unat n) dat"
  note M = server_invD(5) [OF inv]
  have ck: "abs_relay st k = Some (abs_client (sys_hist st) k c)" using c by (simp add: abs_relay_at)
  have key: "MARK_SIZE \<le> unat n \<Longrightarrow> mark_to_key ?p = mark_to_key dat"
    by (simp add: mark_to_key_def)
  have sp: "spec_packet k ?p (abs_relay st) =
     (if \<not> registered c then
        if unat n = MARK_SIZE \<and> target_of st (mark_to_key dat) = None
        then (abs_relay st)(k := Some (abs_client (sys_hist st) k c\<lparr>reg := Some (mark_to_key dat)\<rparr>))
        else (abs_relay st)(k := None)
      else if MARK_SIZE < unat n then deliver (mark_to_key dat) (drop MARK_SIZE ?p) (abs_relay st)
      else abs_relay st)"
    using ck n key mark_to_key_take [of dat, folded MARK_SIZE_def]
    by (cases "unat n = MARK_SIZE") (simp_all add: spec_packet_def min_def key_free_abs [OF M])
  show ?thesis
    using c n
  proof (cases rule: process_packet_cases [where os = os])
    case bad_length
    then show ?thesis unfolding sp using res by auto
  next
    case (duplicate t)
    then show ?thesis unfolding sp using res by (auto simp: abs_relay_set_conn)
  next
    case register
    then show ?thesis unfolding sp using res by (auto simp: abs_relay_register [OF c])
  next
    case small
    then show ?thesis unfolding sp using res by auto
  next
    case no_target
    then show ?thesis unfolding sp using res deliver_nobody key_free_abs [OF M] by auto
  next
    case (no_payload t)
    then show ?thesis unfolding sp using res by auto
  next
    case (lost_target t)
    then show ?thesis using marks_agreeD [OF M] by auto
  next
    case (forward t tc)
    let ?st = "after_enqueue t tc (drop MARK_SIZE ?p) st"
    have "conn_at ?st j = Some c' \<Longrightarrow> conn_fd c' = j" for j c'
      using conn_fd_key [OF inv] forward(4) by (auto split: if_splits)
    then have "abs_relay (flush_send_buffer os t ?st) = abs_relay ?st"
      using abs_relay_flush [OF wr] by blast
    then show ?thesis
      unfolding sp using res forward abs_relay_enqueue [OF inv forward(3,4)] by auto
  qed
qed


section \<open>Input\<close>

lemma next_frame_buffer:
  assumes "m \<le> length buf"
  shows "next_frame (take m buf) =
     (if m < LENGTH_SIZE then Incomplete
      else if \<not> legal_length (read_packet_length buf) then Illegal
      else if m < LENGTH_SIZE + unat (read_packet_length buf) then Incomplete
      else Complete (take (unat (read_packet_length buf)) (drop LENGTH_SIZE buf))
             (drop (LENGTH_SIZE + unat (read_packet_length buf)) (take m buf)))"
proof (cases "m < LENGTH_SIZE")
  case False
  then have rd: "read_packet_length (take m buf) = read_packet_length buf"
    using read_packet_length_prefix [of "take m buf" "drop m buf"] assms
    by (simp add: LENGTH_SIZE_def)
  have "LENGTH_SIZE + n \<le> m \<Longrightarrow> take n (drop LENGTH_SIZE (take m buf)) = take n (drop LENGTH_SIZE buf)"
    for n by (simp add: take_drop min_absorb1 add.commute)
  then show ?thesis using False assms by (simp add: next_frame_def Let_def rd)
qed (use assms in \<open>simp add: next_frame_def\<close>)

lemma next_frame_abs:
  assumes "server_inv st" and "conn_at st k = Some c"
  shows "next_frame (inb (abs_client (sys_hist st) k c)) =
     (if recv_len c < LENGTH_SIZE then Incomplete
      else if \<not> legal_length (next_packet c) then Illegal
      else if recv_len c < LENGTH_SIZE + unat (next_packet c) then Incomplete
      else Complete (take (unat (next_packet c)) (drop LENGTH_SIZE (recv_buf c)))
             (drop (LENGTH_SIZE + unat (next_packet c)) (take (recv_len c) (recv_buf c))))"
  using next_frame_buffer [of "recv_len c" "recv_buf c"] server_invD(3) [OF assms]
  by (simp add: conn_ok_def)

text \<open>\<open>consume\<close> drops a prefix of the bytes received.\<close>

lemma consume_received:
  assumes "recv_len c \<le> length (recv_buf c)"
  shows "take (recv_len (consume n c)) (recv_buf (consume n c)) =
     drop n (take (recv_len c) (recv_buf c))"
proof (cases "recv_len c \<le> n")
  case False
  let ?mid = "take (recv_len c - n) (drop n (recv_buf c))"
  have "length ?mid = recv_len c - n" using assms False by simp
  then have "take (recv_len c - n) (memcpy_at 0 ?mid (recv_buf c)) = ?mid"
    using take_memcpy_at_0 [of ?mid "recv_buf c"] by simp
  then show ?thesis using False by (simp add: consume_def drop_take)
qed (simp add: consume_def)

text \<open>A rejected packet ends the connection; an accepted one leaves the rest of the input.\<close>

lemma rejected_packet_spec:
  assumes inv: "server_inv st" and wr: "os_write_no_error os" and c: "conn_at st k = Some c"
    and n: "legal_length (next_packet c)" "LENGTH_SIZE + unat (next_packet c) \<le> recv_len c"
    and res: "process_packet os k (drop LENGTH_SIZE (recv_buf c)) (next_packet c) st = (False, st1)"
  shows "abs_relay (close_connection os k st1) = spec_loop k (abs_relay st)"
proof -
  let ?p = "take (unat (next_packet c)) (drop LENGTH_SIZE (recv_buf c))"
  have sp: "spec_packet k ?p (abs_relay st) = (abs_relay st1)(k := None)"
    using process_packet_spec [OF inv c packet_in_buffer [OF inv c n(2)] wr res] by simp
  have "abs_relay st k = Some (abs_client (sys_hist st) k c)" using c by (simp add: abs_relay_at)
  from spec_loop_reject [of "abs_relay st" k, OF this] show ?thesis
    using next_frame_abs [OF inv c] n sp by auto
qed

lemma accepted_packet_spec:
  assumes inv: "server_inv st" and wr: "os_write_no_error os" and c: "conn_at st k = Some c"
    and n: "legal_length (next_packet c)" "LENGTH_SIZE + unat (next_packet c) \<le> recv_len c"
    and res: "process_packet os k (drop LENGTH_SIZE (recv_buf c)) (next_packet c) st = (True, st1)"
    and c1: "conn_at st1 k = Some c1"
  shows "spec_loop k (abs_relay (set_conn k (consume (LENGTH_SIZE + unat (next_packet c)) c1) st1)) =
     spec_loop k (abs_relay st)"
proof -
  let ?n = "unat (next_packet c)"
  have st1: "abs_relay st1 = spec_packet k (take ?n (drop LENGTH_SIZE (recv_buf c))) (abs_relay st)"
    using process_packet_spec [OF inv c packet_in_buffer [OF inv c n(2)] wr res] by simp
  have same: "recv_buf c1 = recv_buf c" "recv_len c1 = recv_len c"
    using keeps_recv_process_packet [of k st os k "drop LENGTH_SIZE (recv_buf c)" "next_packet c"] c res c1
    by (auto simp: keeps_recv_def)
  have "recv_len c \<le> length (recv_buf c)" using server_invD(3) [OF inv c] by (simp add: conn_ok_def)
  then have "abs_relay (set_conn k (consume (LENGTH_SIZE + ?n) c1) st1) = (abs_relay st1)
      (k := Some (abs_client (sys_hist st1) k c1
         \<lparr>inb := drop (LENGTH_SIZE + ?n) (take (recv_len c) (recv_buf c))\<rparr>))"
    using consume_received [of c1] same by (simp add: abs_relay_set_conn) (simp add: abs_client_def)
  moreover have "abs_relay st1 k = Some (abs_client (sys_hist st1) k c1)"
    using c1 by (simp add: abs_relay_at)
  ultimately show ?thesis
    using spec_loop_next [of "abs_relay st" k] next_frame_abs [OF inv c] c n by (simp add: st1 abs_relay_at)
qed

lemma packet_loop_spec:
  assumes fresh: "os_accept_fresh os" and wr: "os_write_no_error os"
  shows "server_inv st \<longrightarrow>
     (\<forall>st'. packet_loop os k st = Inr st' \<longrightarrow> abs_relay st' = spec_loop k (abs_relay st))"
proof (induction st rule: packet_loop_induct [where P = "\<lambda>st r. server_inv st \<longrightarrow>
      (\<forall>st'. r = Inr st' \<longrightarrow> abs_relay st' = spec_loop k (abs_relay st))"])
  case (short st c)
  then show ?case using next_frame_abs [OF _ short(1)] by (auto simp: abs_relay_at intro!: spec_loop_stop [symmetric])
next
  case (illegal st c)
  then show ?case
    using next_frame_abs [OF _ illegal(1)] by (auto simp: abs_relay_at intro!: spec_loop_illegal [symmetric])
next
  case (incomplete st c)
  then show ?case
    using next_frame_abs [OF _ incomplete(1)]
    by (auto simp: abs_relay_at intro!: spec_loop_stop [symmetric])
next
  case (rejected st c st1)
  then show ?case using rejected_packet_spec [OF _ wr rejected(1-4)] by auto
next
  case (another st c st1 c1 st2)
  have "server_inv st \<Longrightarrow> server_inv st2"
    unfolding another(6) using steps_next_packet(2) [OF _ another(1,3,4,5)] server_inv_steps fresh by blast
  then show ?case
    using another(7) accepted_packet_spec [OF _ wr another(1-5)] unfolding another(6) by simp
qed auto


section \<open>Nothing complete is left behind\<close>

text \<open>
  Between two events, no connection has a complete packet in its receive buffer.  In particular
  the buffer is never full, so the branch of \<open>handle_client_data\<close> that gives up on a full
  buffer is dead.
\<close>

definition settled :: "server \<Rightarrow> bool" where
  "settled st \<longleftrightarrow> (\<forall>k c. conn_at st k = Some c \<longrightarrow>
     next_frame (take (recv_len c) (recv_buf c)) = Incomplete)"

lemma incomplete_not_full:
  assumes "next_frame xs = Incomplete"
  shows "length xs < BUFFER_SIZE"
  using assms
  by (auto simp: next_frame_def Let_def LENGTH_SIZE_def BUFFER_SIZE_def legal_length_def split: if_splits)

lemma settled_not_full:
  assumes "settled st" and "server_inv st" and "conn_at st k = Some c"
  shows "recv_len c < BUFFER_SIZE"
  using incomplete_not_full [of "take (recv_len c) (recv_buf c)"] assms server_invD(3) [OF assms(2,3)]
  by (auto simp: settled_def conn_ok_def)

lemma settled_keeps: "settled st \<Longrightarrow> (\<And>j. keeps_recv j st st') \<Longrightarrow> settled st'"
  unfolding settled_def keeps_recv_def by metis

lemma packet_loop_settles:
  "server_inv st \<and> os_accept_fresh os \<longrightarrow> (\<forall>st'. packet_loop os k st = Inr st' \<longrightarrow>
     (\<forall>c. conn_at st' k = Some c \<longrightarrow> next_frame (take (recv_len c) (recv_buf c)) = Incomplete) \<and>
     (\<forall>j. j \<noteq> k \<longrightarrow> keeps_recv j st st'))"
proof (induction st rule: packet_loop_induct [where P = "\<lambda>st r. server_inv st \<and> os_accept_fresh os \<longrightarrow>
     (\<forall>st'. r = Inr st' \<longrightarrow>
       (\<forall>c. conn_at st' k = Some c \<longrightarrow> next_frame (take (recv_len c) (recv_buf c)) = Incomplete) \<and>
       (\<forall>j. j \<noteq> k \<longrightarrow> keeps_recv j st st'))"])
  case (short st c)
  then show ?case using next_frame_abs [OF _ short(1)] by auto
next
  case (incomplete st c)
  then show ?case using next_frame_abs [OF _ incomplete(1)] by auto
next
  case (rejected st c st1)
  have "keeps_recv j st st1" for j
    using keeps_recv_process_packet [of j st os k] rejected(4) by (metis snd_conv)
  then show ?case using keeps_recv_trans [OF _ keeps_recv_close] by auto
next
  case (another st c st1 c1 st2)
  have st1: "keeps_recv j st st1" for j
    using keeps_recv_process_packet [of j st os k] another(4) by (metis snd_conv)
  then have st2: "j \<noteq> k \<Longrightarrow> keeps_recv j st st2" for j
    unfolding another(6) by (auto simp: keeps_recv_def)
  have inv2: "server_inv st \<Longrightarrow> os_accept_fresh os \<Longrightarrow> server_inv st2"
    unfolding another(6) using steps_next_packet(2) [OF _ another(1,3,4,5)] server_inv_steps by blast
  show ?case using another(7) inv2 st2 keeps_recv_trans by blast
qed (auto simp: keeps_recv_close)


lemma abs_relay_after_read:
  assumes "server_inv st" and "conn_at st k = Some c"
  shows "abs_relay (after_read k c bs st) =
     (abs_relay st)(k := Some (abs_client (sys_hist st) k c
        \<lparr>inb := take (recv_len c) (recv_buf c) @ bs\<rparr>))"
proof -
  have "recv_len c \<le> length (recv_buf c)"
    using server_invD(3) [OF assms] by (simp add: conn_ok_def)
  note tk = take_memcpy_at [OF this, of bs]
  have "abs_relay (record_call (SRead k m r) st) = abs_relay st" for m r
    by (rule abs_relay_cong) simp_all
  then show ?thesis
    using tk by (simp add: after_read_def abs_relay_set_conn) (simp add: abs_client_def)
qed

lemma settled_handle_client_data:
  assumes os: "os_sane os" and inv: "server_inv st" and set: "settled st"
    and res: "handle_client_data os k st = Inr st'"
  shows "settled st'"
proof (cases "conn_at st k")
  case None
  then show ?thesis using res set settled_keeps keeps_recv_close by (auto simp: handle_client_data_def)
next
  case (Some c)
  then show ?thesis
  proof (cases rule: handle_client_data_cases [where os = os])
    case (data bs)
    let ?st = "after_read k c bs st"
    have fit: "recv_len c + length bs \<le> BUFFER_SIZE"
      using read_fits data os by (auto simp: os_sane_def)
    have "server_inv ?st" using after_read_inv [OF inv Some fit os_sane_accept [OF os]] .
    then have st': "conn_at st' k = Some c' \<Longrightarrow> next_frame (take (recv_len c') (recv_buf c')) = Incomplete"
      "j \<noteq> k \<Longrightarrow> keeps_recv j ?st st'" for c' j
      using packet_loop_settles [of ?st os k] res data(4) os by (simp_all add: os_sane_def)
    have "j \<noteq> k \<Longrightarrow> keeps_recv j st ?st" for j by (simp add: keeps_recv_def after_read_def)
    then have "j \<noteq> k \<Longrightarrow> keeps_recv j st st'" for j using st'(2) keeps_recv_trans by blast
    then show ?thesis using set st'(1) unfolding settled_def keeps_recv_def by metis
  qed (use res set in \<open>auto simp: settled_def split: if_splits\<close>)
qed

lemma settled_handle_event:
  assumes "os_sane os" and "server_inv st" and "settled st"
    and "handle_event os l ev st = Inr st'"
  shows "settled st'"
proof -
  have close: "settled s \<Longrightarrow> settled (close_connection os j s)" for s j
    by (rule settled_keeps [OF _ keeps_recv_close])
  have flush: "settled s \<Longrightarrow> settled (handle_client_write os j s)" for s j
    using close settled_keeps [OF _ keeps_recv_flush]
    by (auto simp: handle_client_write_def split: option.split)
  have "settled s \<Longrightarrow> settled (handle_new_connection os l s)" for s
    by (auto simp: handle_new_connection_def set_nonblocking_def sys_defs settled_def
        split: option.split sum.split)
  then show ?thesis
    using assms close flush settled_handle_client_data
    by (auto simp: handle_event_def split: if_splits sum.splits)
qed

interpretation idle: event_invariant settled "\<lambda>_. True"
proof unfold_locales
  fix os port fds st
  assume "server_start os port server_init = (Inr fds, st)"
  then show "settled st" by (simp add: settled_def server_start_no_conns)
next
  show "settled st'" if "settled st" "g_connections st' = g_connections st" for st st'
    using that by (simp add: settled_def)
qed (rule settled_handle_event)


section \<open>Reading is one step of the abstract relay\<close>

definition spec_read :: "int \<Rightarrow> errno + bytes \<Rightarrow> relay \<Rightarrow> relay" where
  "spec_read k r R =
     (case r of
        Inl e \<Rightarrow> if e = EAGAIN \<or> e = EWOULDBLOCK then R else R(k := None)
      | Inr bs \<Rightarrow> if bs = [] then R(k := None) else spec_input k bs R)"

lemma abs_relay_record_read [simp]: "abs_relay (record_call (SRead k m r) st) = abs_relay st"
  by (rule abs_relay_cong) simp_all

lemma handle_client_data_spec:
  assumes os: "os_sane os" and wr: "os_write_no_error os" and inv: "server_inv st"
    and set: "settled st" and c: "conn_at st k = Some c"
  shows "\<exists>st'. handle_client_data os k st = Inr st' \<and>
     abs_relay st' = spec_read k (os_read os (sys_hist st) k (BUFFER_SIZE - recv_len c)) (abs_relay st)"
  using c
proof (cases rule: handle_client_data_cases [where os = os])
  case full
  then show ?thesis using settled_not_full [OF set inv c] by simp
next
  case (data bs)
  let ?st = "after_read k c bs st"
  have fit: "recv_len c + length bs \<le> BUFFER_SIZE" using read_fits data os by (auto simp: os_sane_def)
  have inv': "server_inv ?st" using after_read_inv [OF inv c fit os_sane_accept [OF os]] .
  have "\<exists>st'. handle_client_data os k st = Inr st'"
    using handle_client_data_no_fault [OF os no_error_not_fatal [OF wr] inv] by (rule no_fault_returns)
  then obtain st' where st': "handle_client_data os k st = Inr st'" by blast
  then have "abs_relay st' = spec_loop k (abs_relay ?st)"
    using packet_loop_spec [OF os_sane_accept [OF os] wr] inv' data(4) by simp
  then show ?thesis
    using st' data c
    by (simp add: spec_read_def spec_input_def abs_relay_after_read [OF inv c] abs_relay_at)
qed (auto simp: spec_read_def)


section \<open>A client that writes to itself\<close>

lemma flush_fails:
  assumes "conn_at st k = Some c" and "conn_fd c = k" "0 \<le> k" and "send_buf c \<noteq> []"
    and "\<And>h buf. buf \<noteq> [] \<Longrightarrow> fatal_write (os_write os h k buf)"
  shows "conn_at (flush_send_buffer os k st) k = None"
proof -
  let ?r = "os_write os (sys_hist st) k (send_buf c)"
  have "fatal_write ?r" using assms(4,5) by blast
  then show ?thesis
    using assms(1-4)
    by (cases ?r) (auto simp: flush_send_buffer_def flush_loop.simps sys_write_eq fatal_write_def)
qed

lemma self_addressed_frees:
  assumes os: "os_sane os" and inv: "server_inv st" and c: "conn_at st k = Some c" "registered c" "recv_len c = 0"
    and rd: "os_read os (sys_hist st) k BUFFER_SIZE = Inr (frame (mark c @ p) @ rest)"
    and p: "p \<noteq> []" "server_payload (mark c @ p)"
    and fail: "\<And>h buf. buf \<noteq> [] \<Longrightarrow> fatal_write (os_write os h k buf)"
  shows "handle_client_data os k st = Inl UseAfterFree"
proof -
  let ?bs = "frame (mark c @ p) @ rest"
  let ?st = "after_read k c ?bs st"
  let ?c = "c\<lparr>recv_buf := memcpy_at 0 ?bs (recv_buf c), recv_len := length ?bs\<rparr>"
  have ok: "conn_ok k c" using server_invD(3) [OF inv c(1)] .
  then have m: "length (mark c) = MARK_SIZE" "conn_fd c = k" "0 \<le> k" by (simp_all add: conn_ok_def)
  have fit: "recv_len c + length ?bs \<le> BUFFER_SIZE"
    using read_fits [of os "sys_hist st" k c ?bs] os rd c(3) by (simp add: os_sane_def BUFFER_SIZE_def)
  have inv': "server_inv ?st" using after_read_inv [OF inv c(1) fit os_sane_accept [OF os]] .
  have c': "conn_at ?st k = Some ?c" using c(3) by (simp add: after_read_def)
  have "take (length ?bs) (memcpy_at 0 ?bs (recv_buf c)) = ?bs" by (rule take_memcpy_at_0)
  then have nf: "next_frame (inb (abs_client (sys_hist ?st) k ?c)) = Complete (mark c @ p) rest"
    using next_frame_frame [OF p(2), of rest] by simp
  note na = next_frame_abs [OF inv' c', unfolded nf]
  have leg: "legal_length (next_packet ?c)" "LENGTH_SIZE + unat (next_packet ?c) \<le> recv_len ?c"
    and pk: "take (unat (next_packet ?c)) (drop LENGTH_SIZE (recv_buf ?c)) = mark c @ p"
    using na by (auto split: if_splits)
  let ?dat = "drop LENGTH_SIZE (recv_buf ?c)"
  have n: "unat (next_packet ?c) \<le> length ?dat" using packet_in_buffer [OF inv' c' leg(2)] .
  then have len: "unat (next_packet ?c) = length (mark c @ p)"
    using arg_cong [OF pk, of length] by (simp only: length_take min_absorb2)
  have "mark_to_key ?dat = mark_to_key (mark c)"
    using arg_cong [OF pk, of "take 8"] len m(1) mark_to_key_take [of ?dat] mark_to_key_take [of "mark c"]
    by (simp add: MARK_SIZE_def min_def del: mark_to_key_take)
  then have tk: "target_of ?st (mark_to_key ?dat) = Some k"
    using marks_agreeD [OF server_invD(5) [OF inv'], of "mark_to_key (mark c)" k] c' c(2) by simp
  obtain st1 where st1: "process_packet os k ?dat (next_packet ?c) ?st = (True, st1)" "conn_at st1 k = None"
    using c' n
  proof (cases rule: process_packet_cases [where os = os])
    case (forward t tc)
    then have "t = k" "tc = ?c" using tk c' by simp_all
    moreover have "conn_at (flush_send_buffer os k (after_enqueue k ?c q ?st)) k = None" for q
      by (rule flush_fails [OF _ _ m(3) _ fail, of _ "?c\<lparr>send_buf := send_buf ?c @ frame q\<rparr>"])
        (simp_all add: m(2) frame_def le_bytes_4)
    ultimately show thesis using that forward(5) by blast
  qed (use c(2) tk m(1) p(1) len in \<open>auto simp: MARK_SIZE_def\<close>)
  have "frame (mark c @ p) \<noteq> []" using p(1) by (simp add: frame_def)
  then have "handle_client_data os k st = packet_loop os k ?st"
    using c rd fit by (simp add: handle_client_data_def sys_read_def after_read_def Let_def BUFFER_SIZE_def)
  then show ?thesis using packet_loop_complete [OF c' leg] st1 by simp
qed


section \<open>Forwarding\<close>

lemma spec_forward:
  assumes "R k = Some c" and "reg c \<noteq> None" and "inb c = []"
    and msgs: "\<forall>(m, p) \<in> set msgs. length m = MARK_SIZE \<and> p \<noteq> [] \<and> server_payload (m @ p)"
    and t: "R t = Some tc"
  shows "\<exists>tc'. spec_input k (concat (map (\<lambda>(m, p). frame (m @ p)) msgs)) R t = Some tc' \<and>
     outb tc' = outb tc @
       concat (map (\<lambda>(m, p). if reg tc = Some (mark_to_key m) then frame p else []) msgs)"
proof -
  let ?ps = "map (\<lambda>(m, p). m @ p) msgs"
  have "concat (map (\<lambda>(m, p). frame (m @ p)) msgs) = concat (map frame ?ps)"
    by (simp add: comp_def case_prod_unfold)
  moreover have "\<forall>p \<in> set ?ps. server_payload p" using msgs by auto
  moreover have "\<forall>(m, p) \<in> set msgs. length m = MARK_SIZE \<and> p \<noteq> []" using msgs by auto
  ultimately have "spec_input k (concat (map (\<lambda>(m, p). frame (m @ p)) msgs)) R =
      with_inb k [] (\<lambda>j. map_option (\<lambda>c. c\<lparr>outb := outb c @
        concat (map (\<lambda>(m, p). if reg c = Some (mark_to_key m) then frame p else []) msgs)\<rparr>) (R j))"
    using spec_loop_frames [of ?ps k R] fold_forward [of R, OF assms(1,2)]
      spec_input_eq [of R, OF assms(1)] assms(3)
    by simp
  then show ?thesis using t by (auto simp: with_inb_def)
qed

lemma concat_filter: "concat (map (\<lambda>x. if P x then f x else []) xs) = concat (map f (filter P xs))"
  by (induction xs) auto

text \<open>
  The same on the server: if the relay has made the step for a sequence of packets, however the
  bytes were read, who got which bytes.
\<close>

lemma forwarded_streams:
  assumes inv: "server_inv st" and c: "conn_at st k = Some c" "registered c" "recv_len c = 0"
    and msgs: "\<forall>(m, p) \<in> set msgs. length m = MARK_SIZE \<and> p \<noteq> [] \<and> server_payload (m @ p)"
    and tc: "conn_at st t = Some tc" "registered tc"
    and st': "abs_relay st' = spec_input k (concat (map (\<lambda>(m, p). frame (m @ p)) msgs)) (abs_relay st)"
  shows "\<exists>tc'. conn_at st' t = Some tc' \<and>
     sent_bytes t (sys_hist st') @ send_buf tc' = sent_bytes t (sys_hist st) @ send_buf tc @
       concat (map (\<lambda>(m, p). frame p) (filter (\<lambda>(m, p). m = mark tc) msgs))"
proof -
  have ak: "abs_relay st k = Some (abs_client (sys_hist st) k c)"
    and at: "abs_relay st t = Some (abs_client (sys_hist st) t tc)"
    using c(1) tc(1) by (simp_all add: abs_relay_at)
  have "length (mark tc) = MARK_SIZE" using server_invD(3) [OF inv tc(1)] by (simp add: conn_ok_def)
  then have "(m, p) \<in> set msgs \<Longrightarrow> mark_to_key (mark tc) = mark_to_key m \<longleftrightarrow> m = mark tc" for m p
    using msgs mark_to_key_inject [of "mark tc" m] by (auto simp: MARK_SIZE_def)
  then have "filter (\<lambda>p. mark_to_key (mark tc) = mark_to_key (fst p)) msgs =
      filter (\<lambda>p. fst p = mark tc) msgs"
    by (intro filter_cong refl) (metis prod.collapse)
  then obtain tc' where "abs_relay st' t = Some tc'" "outb tc' = sent_bytes t (sys_hist st) @ send_buf tc @
       concat (map (\<lambda>(m, p). frame p) (filter (\<lambda>(m, p). m = mark tc) msgs))"
    using spec_forward [of "abs_relay st", OF ak _ _ msgs at] c tc st'
    by (auto simp: concat_filter case_prod_unfold)
  then show ?thesis by (auto simp: abs_relay_at)
qed

lemma server_forward:
  assumes os: "os_sane os" and wr: "os_write_no_error os" and inv: "server_inv st" and set: "settled st"
    and c: "conn_at st k = Some c" "registered c" "recv_len c = 0"
    and rd: "os_read os (sys_hist st) k BUFFER_SIZE = Inr (concat (map (\<lambda>(m, p). frame (m @ p)) msgs))"
    and msgs: "msgs \<noteq> []"
      "\<forall>(m, p) \<in> set msgs. length m = MARK_SIZE \<and> p \<noteq> [] \<and> server_payload (m @ p)"
    and tc: "conn_at st t = Some tc" "registered tc"
  shows "\<exists>st' tc'. handle_client_data os k st = Inr st' \<and> conn_at st' t = Some tc' \<and>
     sent_bytes t (sys_hist st') @ send_buf tc' = sent_bytes t (sys_hist st) @ send_buf tc @
       concat (map (\<lambda>(m, p). frame p) (filter (\<lambda>(m, p). m = mark tc) msgs))"
proof -
  let ?bs = "concat (map (\<lambda>(m, p). frame (m @ p)) msgs)"
  have "?bs \<noteq> []" using msgs by (cases msgs) (auto simp: frame_def)
  then have sr: "spec_read k (Inr ?bs) R = spec_input k ?bs R" for R
    unfolding spec_read_def by (simp only: sum.case if_False)
  obtain st' where st': "handle_client_data os k st = Inr st'"
      "abs_relay st' = spec_input k ?bs (abs_relay st)"
    using handle_client_data_spec [OF os wr inv set c(1)] c(3) rd sr by auto
  then show ?thesis using forwarded_streams [OF inv c msgs(2) tc st'(2)] by blast
qed


section \<open>Consecutive reads\<close>

text \<open>Handling readable events of one connection, each of which reads one piece.\<close>

inductive reads :: "os \<Rightarrow> int \<Rightarrow> server \<Rightarrow> bytes list \<Rightarrow> server \<Rightarrow> bool" for os k where
  none: "reads os k st [] st"
| piece: "conn_at st k = Some c \<Longrightarrow>
    os_read os (sys_hist st) k (BUFFER_SIZE - recv_len c) = Inr bs \<Longrightarrow> bs \<noteq> [] \<Longrightarrow>
    handle_client_data os k st = Inr st1 \<Longrightarrow> reads os k st1 pieces st2 \<Longrightarrow>
    reads os k st (bs # pieces) st2"

lemma reads_spec:
  assumes "reads os k st pieces st'" and "os_sane os" and "os_write_no_error os"
    and "server_inv st" and "settled st" and "conn_at st k \<noteq> None"
  shows "abs_relay st' = spec_input k (concat pieces) (abs_relay st)"
  using assms(1,4-6)
proof induction
  case (none st)
  then obtain c where c: "conn_at st k = Some c" by blast
  let ?c = "abs_client (sys_hist st) k c"
  have ak: "abs_relay st k = Some ?c" using c by (simp add: abs_relay_at)
  have "next_frame (inb ?c) = Incomplete" using none(2) c by (simp add: settled_def)
  then show ?case
    using spec_loop_stop [of "abs_relay st", OF ak] with_inb_same [of "abs_relay st", OF ak]
      spec_input_eq [of "abs_relay st", OF ak, of "[]"] by simp
next
  case (piece st c bs st1 pieces st2)
  have st1: "abs_relay st1 = spec_input k bs (abs_relay st)"
    using handle_client_data_spec [OF assms(2,3) piece.prems(1,2) piece.hyps(1)] piece.hyps
    by (auto simp: spec_read_def)
  have dead: "abs_relay st2 = abs_relay st1" if "conn_at st1 k = None"
    using piece.hyps(5) that by (cases rule: reads.cases) auto
  have inv: "server_inv st1" "settled st1"
    using server_inv_handle_client_data settled_handle_client_data assms(2) piece by blast+
  have "abs_relay st2 = spec_input k (concat pieces) (abs_relay st1)"
  proof (cases "conn_at st1 k")
    case None
    then show ?thesis using dead by (simp add: spec_input_def abs_relay_at)
  next
    case (Some c1)
    then show ?thesis using piece.IH inv by simp
  qed
  then show ?case by (simp add: st1 spec_input_append)
qed

text \<open>After any number of reads the server is ready for the next one: its handler returns.\<close>

lemma reads_go_on:
  assumes "reads os k st pieces st'" and "os_sane os" and "os_write_no_error os"
    and "server_inv st" and "settled st"
  shows "\<exists>st''. handle_client_data os k st' = Inr st''"
  using assms(1,4,5)
proof induction
  case (none st)
  then show ?case
    using handle_client_data_spec [OF assms(2,3) none, of k]
    by (cases "conn_at st k") (simp add: handle_client_data_def, blast)
next
  case (piece st c bs st1 pieces st2)
  then show ?case
    using server_inv_handle_client_data settled_handle_client_data assms(2) by blast
qed

lemma reads_forward:
  assumes "reads os k st pieces st'" and "os_sane os" and "os_write_no_error os"
    and "server_inv st" and "settled st"
    and "conn_at st k = Some c" "registered c" "recv_len c = 0"
    and "concat pieces = concat (map (\<lambda>(m, p). frame (m @ p)) msgs)"
    and "\<forall>(m, p) \<in> set msgs. length m = MARK_SIZE \<and> p \<noteq> [] \<and> server_payload (m @ p)"
    and "conn_at st t = Some tc" "registered tc"
  shows "\<exists>tc'. conn_at st' t = Some tc' \<and>
     sent_bytes t (sys_hist st') @ send_buf tc' = sent_bytes t (sys_hist st) @ send_buf tc @
       concat (map (\<lambda>(m, p). frame p) (filter (\<lambda>(m, p). m = mark tc) msgs))"
  using reads_spec [OF assms(1-5)] assms(6,9)
  by (intro forwarded_streams [OF assms(4,6-8,10-12)]) simp

end
