(* ===== verification/Server_Theorems.thy ===== *)
theory Server_Theorems
  imports Relay_Refinement
begin

text \<open>
  The correctness theorems of the relay server that rest on the abstract relay and on the
  invariants between events, each with a concrete run that satisfies its hypotheses, and two
  theorems that exhibit defects of the event handlers.
\<close>

section \<open>A relay with two players\<close>

text \<open>
  Descriptors 5 and 6 are connected and registered with the marks 1 and 2.  The first \<open>read\<close>
  returns the first half of a packet for mark 2 and the second one the rest.
\<close>

definition mark1 :: bytes where "mark1 = [1, 0, 0, 0, 0, 0, 0, 0]"
definition mark2 :: bytes where "mark2 = [2, 0, 0, 0, 0, 0, 0, 0]"

definition player :: "int \<Rightarrow> bytes \<Rightarrow> Connection" where
  "player k m = (Connection_new k)\<lparr>mark := m, registered := True\<rparr>"

definition two_players :: server where
  "two_players = server_init
     \<lparr>g_connections := [(5, player 5 mark1), (6, player 6 mark2)],
      g_mark_to_fd := [(mark_to_key mark1, 5), (mark_to_key mark2, 6)],
      sys_hist := [SAccept 3 (Inr 6), SAccept 3 (Inr 5)]\<rparr>"

definition talk :: bytes where "talk = frame (mark2 @ [7, 8, 9])"

definition is_read :: "syscall \<Rightarrow> bool" where
  "is_read e = (case e of SRead k n r \<Rightarrow> True | _ \<Rightarrow> False)"

definition talking_os :: os where
  "talking_os = calm_os\<lparr>os_read := \<lambda>h k n. Inr (take n talk)\<rparr>"

definition slow_os :: os where
  "slow_os = calm_os\<lparr>os_read := \<lambda>h k n.
     Inr (take n (if filter is_read h = [] then take 5 talk else drop 5 talk))\<rparr>"

lemma mark_keys: "mark_to_key mark1 = 1" "mark_to_key mark2 = 2"
  by (simp_all add: mark_to_key_def mark1_def mark2_def MARK_SIZE_def)

lemma two_players_conns [simp]:
  "conn_at two_players k = (if k = 5 then Some (player 5 mark1)
     else if k = 6 then Some (player 6 mark2) else None)"
  by (simp add: two_players_def)

lemma player_simps [simp]:
  "registered (player k m)" "mark (player k m) = m" "send_buf (player k m) = []"
  "recv_len (player k m) = 0" "conn_fd (player k m) = k"
  by (simp_all add: player_def)

lemma two_players_hist [simp]: "sys_hist two_players = [SAccept 3 (Inr 6), SAccept 3 (Inr 5)]"
  by (simp add: two_players_def)

lemma two_players_inv: "server_inv two_players"
  by (auto simp: server_inv_def marks_agree_def um_wf_def um_size_def MAX_CONNECTIONS_def mark_keys
      conn_ok_def, simp_all add: two_players_def player_def Connection_new_def mark1_def mark2_def
      MARK_SIZE_def mark_to_key_def split: if_splits)

lemma two_players_settled: "settled two_players"
  by (simp add: settled_def)

lemma calm_variant:
  assumes "os_read_bounded (calm_os\<lparr>os_read := f\<rparr>)"
  shows "os_sane (calm_os\<lparr>os_read := f\<rparr>)" and "os_write_no_error (calm_os\<lparr>os_read := f\<rparr>)"
  using assms by (auto simp: os_sane_def os_accept_fresh_def os_write_no_error_def calm_os_def)

lemma talking_os_ok: "os_sane talking_os" "os_write_no_error talking_os"
  unfolding talking_os_def by (rule calm_variant; simp add: os_read_bounded_def)+

lemma slow_os_ok: "os_sane slow_os" "os_write_no_error slow_os"
  unfolding slow_os_def by (rule calm_variant; auto simp: os_read_bounded_def)+

lemma length_talk: "length talk = 15"
  by (simp add: talk_def mark2_def)

lemma talking_read: "os_read talking_os h k BUFFER_SIZE = Inr talk"
  by (simp add: talking_os_def length_talk BUFFER_SIZE_def)


section \<open>Refinement\<close>

text \<open>
  C3: handling a readable connection is one step of the abstract relay: nothing when the socket
  would block, the end of the connection on an error or at end of file, and otherwise exactly
  what the abstract relay does with the bytes that were read (registering the client, delivering
  its packets, closing it on an illegal one).  The handler returns.  This is under the condition that
  no write to a client fails for good (\<open>os_write_no_error\<close>: a write takes some bytes or is told to
  wait); what a failing write does is the subject of later theorems.
\<close>

theorem handle_client_data_refines_relay:
  assumes "os_sane os" and "os_write_no_error os" and "server_inv st" and "settled st"
    and "conn_at st k = Some c"
  shows "\<exists>st'. handle_client_data os k st = Inr st' \<and> server_inv st' \<and> settled st' \<and>
     abs_relay st' = spec_read k (os_read os (sys_hist st) k (BUFFER_SIZE - recv_len c)) (abs_relay st)"
  using handle_client_data_spec [OF assms] server_inv_handle_client_data [OF assms(1,3)]
    settled_handle_client_data [OF assms(1,3,4)] by blast

theorem handle_client_data_refines_relay_witness:
  "\<exists>st'. handle_client_data talking_os 5 two_players = Inr st' \<and>
     abs_relay st' = spec_input 5 talk (abs_relay two_players)"
proof -
  have "talk \<noteq> []" using length_talk by auto
  then show ?thesis
    using handle_client_data_refines_relay [OF talking_os_ok two_players_inv two_players_settled,
        of 5 "player 5 mark1"]
    by (auto simp: talking_read spec_read_def)
qed

lemma first_piece:
  obtains st1 c1 where "handle_client_data slow_os 5 two_players = Inr st1"
    "conn_at st1 5 = Some c1" "recv_len c1 = 5" "filter is_read (sys_hist st1) \<noteq> []"
    "server_inv st1" "settled st1"
proof -
  let ?st = "after_read 5 (player 5 mark1) (take 5 talk) two_players"
  have rd: "os_read slow_os (sys_hist two_players) 5 BUFFER_SIZE = Inr (take 5 talk)"
    by (simp add: slow_os_def is_read_def BUFFER_SIZE_def)
  have ne: "take 5 talk \<noteq> []" using length_talk by auto
  have c: "conn_at two_players 5 = Some (player 5 mark1)" by simp
  have hc: "handle_client_data slow_os 5 two_players = packet_loop slow_os 5 ?st"
    using rd ne by (simp add: handle_client_data_def sys_read_def after_read_def Let_def BUFFER_SIZE_def)
  have inv: "server_inv ?st"
    using after_read_inv [OF two_players_inv c, of "take 5 talk" slow_os] slow_os_ok
    by (simp add: os_sane_def BUFFER_SIZE_def)
  obtain c1 where c1: "conn_at ?st 5 = Some c1" "recv_len c1 = 5"
    "next_packet c1 = 11"
    by (simp add: after_read_def memcpy_at_def talk_def frame_def mark2_def le_bytes_4
        read_packet_length_def length_talk)
  then have "packet_loop slow_os 5 ?st = Inr ?st"
    by (simp add: packet_loop.simps LENGTH_SIZE_def MAX_PACKET_SIZE_def BUFFER_SIZE_def)
  then show thesis
    using that [of ?st c1] c1 hc inv settled_handle_client_data [OF slow_os_ok(1) two_players_inv two_players_settled]
    by (simp add: after_read_def is_read_def)
qed

lemma slow_reads:
  obtains st' where "reads slow_os 5 two_players [take 5 talk, drop 5 talk] st'"
proof -
  obtain st1 c1 where st1: "handle_client_data slow_os 5 two_players = Inr st1"
    "conn_at st1 5 = Some c1" "recv_len c1 = 5" "filter is_read (sys_hist st1) \<noteq> []"
    "server_inv st1" "settled st1"
    by (rule first_piece)
  obtain st2 where st2: "handle_client_data slow_os 5 st1 = Inr st2"
    using handle_client_data_spec [OF slow_os_ok st1(5,6,2)] by blast
  have "reads slow_os 5 st1 [drop 5 talk] st2"
    using st1 length_talk
    by (intro reads.piece [OF st1(2) _ _ st2] reads.none) (auto simp: slow_os_def BUFFER_SIZE_def)
  then have "reads slow_os 5 two_players [take 5 talk, drop 5 talk] st2"
    using length_talk
    by (intro reads.piece [of _ _ "player 5 mark1", OF _ _ _ st1(1)])
      (auto simp: slow_os_def BUFFER_SIZE_def is_read_def)
  then show thesis by (rule that)
qed

text \<open>
  C7: packets are forwarded to the right clients, complete, unchanged and in order.  Suppose that a
  registered client with an empty receive buffer sends a sequence of packets, each a mark followed by
  a payload, that the server reads these bytes in any number of pieces, cut anywhere, and that no write
  fails for good.  Then the stream of every registered client (what the kernel already took for it and
  what still waits in its send buffer) has grown by exactly the framed payloads addressed to its mark,
  and the handler returns for whatever is read next.
\<close>

theorem relay_forwards_in_order:
  assumes "reads os k st pieces st'" and "os_sane os" and "os_write_no_error os"
    and "server_inv st" and "settled st"
    and "conn_at st k = Some c" "registered c" "recv_len c = 0"
    and "concat pieces = concat (map (\<lambda>(m, p). frame (m @ p)) msgs)"
    and "\<forall>(m, p) \<in> set msgs. length m = MARK_SIZE \<and> p \<noteq> [] \<and> server_payload (m @ p)"
    and "conn_at st t = Some tc" "registered tc"
  shows "\<exists>tc'. conn_at st' t = Some tc' \<and>
     sent_bytes t (sys_hist st') @ send_buf tc' = sent_bytes t (sys_hist st) @ send_buf tc @
       concat (map (\<lambda>(m, p). frame p) (filter (\<lambda>(m, p). m = mark tc) msgs)) \<and>
     (\<exists>st''. handle_client_data os k st' = Inr st'')"
  using reads_forward [OF assms] reads_go_on [OF assms(1-5)] by blast

theorem relay_forwards_in_order_witness:
  "\<exists>st' tc'. reads slow_os 5 two_players [take 5 talk, drop 5 talk] st' \<and> conn_at st' 6 = Some tc' \<and>
     sent_bytes 6 (sys_hist st') @ send_buf tc' = frame [7, 8, 9]"
proof -
  obtain st' where st': "reads slow_os 5 two_players [take 5 talk, drop 5 talk] st'" by (rule slow_reads)
  have "server_payload (mark2 @ [7, 8, 9])" "length mark2 = MARK_SIZE"
    by (simp_all add: server_payload_def mark2_def BUFFER_SIZE_def LENGTH_SIZE_def MARK_SIZE_def)
  then have "\<exists>tc'. conn_at st' 6 = Some tc' \<and> sent_bytes 6 (sys_hist st') @ send_buf tc' = frame [7, 8, 9]"
    using relay_forwards_in_order [OF st' slow_os_ok two_players_inv two_players_settled,
        of "player 5 mark1" "[(mark2, [7, 8, 9])]" 6 "player 6 mark2"]
    by (auto simp: talk_def)
  then show ?thesis using st' by blast
qed

text \<open>
  C9: TCP may deliver a client's bytes in any pieces.  However the bytes are cut into consecutive
  reads, the relay ends in the state it would reach if it had received them at once, as long as no
  write fails for good.
\<close>

theorem reads_in_any_pieces:
  assumes "reads os k st pieces st'" and "os_sane os" and "os_write_no_error os"
    and "server_inv st" and "settled st" and "conn_at st k \<noteq> None"
  shows "abs_relay st' = spec_input k (concat pieces) (abs_relay st)"
  using reads_spec [OF assms] .

theorem reads_in_any_pieces_witness:
  "\<exists>st'. reads slow_os 5 two_players [take 5 talk, drop 5 talk] st' \<and>
     abs_relay st' = spec_input 5 talk (abs_relay two_players)"
proof -
  obtain st' where st': "reads slow_os 5 two_players [take 5 talk, drop 5 talk] st'" by (rule slow_reads)
  then show ?thesis
    using reads_in_any_pieces [OF st' slow_os_ok two_players_inv two_players_settled] by auto
qed


text \<open>
  C28: handling a writable connection hands its buffered bytes to the kernel, whatever the kernel
  answers.  If the connection survives, the kernel took a prefix of the buffer, the rest stays, and the
  handler stopped only because nothing was left or because the kernel told it to wait with exactly that
  rest; the relay as a whole has not changed.  Otherwise a write to this client failed, and the relay
  has lost exactly this client.
\<close>

theorem handle_client_write_flushes:
  assumes "server_inv st" and "conn_at st k = Some c"
  shows "flushed k c st (handle_client_write os k st) \<and>
     abs_relay (handle_client_write os k st) =
       (if conn_at (handle_client_write os k st) k = None then (abs_relay st)(k := None) else abs_relay st)"
proof -
  have k: "conn_fd c = k" "0 \<le> k" using server_invD(3) [OF assms] by (simp_all add: conn_ok_def)
  then have "handle_client_write os k st = flush_loop os k st"
    using assms(2) by (simp add: handle_client_write_def flush_send_buffer_def flush_loop.simps)
  then show ?thesis using flush_loop_flushes [of st k os] assms(2) k(1) by simp
qed

text \<open>A client with three buffered bytes, of which the kernel takes one and then none.\<close>

definition sluggish_os :: os where
  "sluggish_os = calm_os\<lparr>os_write := \<lambda>h k buf. if length buf = 3 then Inr 1 else Inl EAGAIN\<rparr>"

definition waiting_player :: server where
  "waiting_player = set_conn 6 ((player 6 mark2)\<lparr>send_buf := [7, 8, 9]\<rparr>) two_players"

lemma waiting_player_inv: "server_inv waiting_player"
  unfolding waiting_player_def
  by (rule server_inv_update [OF two_players_inv, of 6 "player 6 mark2" "(player 6 mark2)\<lparr>send_buf := [7, 8, 9]\<rparr>"])
    (use server_invD(3) [OF two_players_inv, of 6] in \<open>auto simp: conn_ok_def set_conn_def\<close>)

theorem handle_client_write_flushes_witness:
  "\<exists>c'. conn_at (handle_client_write sluggish_os 6 waiting_player) 6 = Some c' \<and> send_buf c' = [8, 9] \<and>
     sent_bytes 6 (sys_hist (handle_client_write sluggish_os 6 waiting_player)) = [7]"
proof -
  let ?st' = "handle_client_write sluggish_os 6 waiting_player"
  have c: "conn_at waiting_player 6 = Some ((player 6 mark2)\<lparr>send_buf := [7, 8, 9]\<rparr>)"
    by (simp add: waiting_player_def)
  obtain c' where c': "conn_at ?st' 6 = Some c'" "send_buf c' = [8, 9]"
    using c by (simp add: handle_client_write_def flush_send_buffer_def flush_loop.simps sys_write_eq sluggish_os_def)
  then obtain n where n: "drop n [7, 8, 9] = [8, 9 :: byte]"
    "sent_bytes 6 (sys_hist ?st') = sent_bytes 6 (sys_hist waiting_player) @ take n [7, 8, 9]"
    using handle_client_write_flushes [OF waiting_player_inv c, of sluggish_os] by (auto simp: flushed_def)
  have "length (drop n [7, 8, 9 :: byte]) = 2" using n(1) by simp
  then have "n = 1" by simp
  then show ?thesis using c' n(2) by (simp add: waiting_player_def)
qed


section \<open>A busy relay\<close>

text \<open>
  A whole run of the event loop: two clients connect and register, then the first one sends a
  packet to the second one, whose socket does not take any data.
\<close>

definition event_of :: "int \<Rightarrow> epoll_event" where
  "event_of k = \<lparr>ev_fd = k, ev_in = True, ev_out = False, ev_err = False, ev_hup = False\<rparr>"

definition reads_of :: "int \<Rightarrow> history \<Rightarrow> nat" where
  "reads_of k h = length (filter (\<lambda>e. case e of SRead j n r \<Rightarrow> j = k | _ \<Rightarrow> False) h)"

definition busy_os :: os where
  "busy_os = calm_os
     \<lparr>os_accept := \<lambda>h l. if is_open 5 h then (if is_open 6 h then Inl EAGAIN else Inr 6) else Inr 5,
      os_read := \<lambda>h k n. Inr (take n (if k = 6 then frame mark2
                   else if reads_of 5 h = 0 then frame mark1 else talk)),
      os_write := \<lambda>h k buf. Inl EAGAIN,
      os_epoll_wait := \<lambda>h. Inr (map event_of [3, 3, 5, 6, 5])\<rparr>"

lemma busy_os_ok: "os_sane busy_os" "os_socket_valid busy_os" "os_epoll_mod_works busy_os"
  by (auto simp: busy_os_def calm_os_def os_sane_def os_accept_fresh_def os_read_bounded_def
      os_socket_valid_def os_epoll_mod_works_def split: if_splits)

definition busy_start :: server where
  "busy_start = snd (server_start busy_os 27015 server_init)"

lemma busy_started: "server_start busy_os 27015 server_init = (Inr (3, 4), busy_start)"
  by (simp add: busy_start_def busy_os_def calm_run_simps)

text \<open>Unfolding everything a handler does on concrete data.\<close>

lemmas run_simps = calm_run_simps event_of_def handle_client_data_def reads_of_def
  Connection_new_def BUFFER_SIZE_def packet_loop.simps memcpy_at_def frame_def mark1_def mark2_def
  talk_def le_bytes_4 read_packet_length_def LENGTH_SIZE_def MAX_PACKET_SIZE_def process_packet_def
  MARK_SIZE_def mark_to_key_def consume_def flush_send_buffer_def flush_loop.simps
  write_packet_length_def update_epoll_events_def

lemma replicate_7: "replicate 7 x = [x, x, x, x, x, x, x]"
  by (simp add: numeral_eq_Suc)

lemma busy_round:
  "\<exists>st c. loop_iteration busy_os 3 busy_start = Inr (True, st) \<and> conn_at st 6 = Some c \<and>
     registered c \<and> send_buf c = frame [7, 8, 9]"
  by (simp add: busy_start_def busy_os_def run_simps replicate_7)

lemma busy_reachable:
  obtains st c where "reachable busy_os 27015 (3, 4) st" "conn_at st 6 = Some c" "registered c"
    "send_buf c = frame [7, 8, 9]"
proof -
  obtain st c where st: "loop_iteration busy_os 3 busy_start = Inr (True, st)" "conn_at st 6 = Some c"
    "registered c" "send_buf c = frame [7, 8, 9]"
    using busy_round by blast
  have "g_running busy_start" by (simp add: busy_start_def busy_os_def calm_run_simps)
  then have "reachable busy_os 27015 (3, 4) st"
    using reachable.round [OF reachable.start [OF busy_started]] st(1) by simp
  then show thesis using that st(2-4) by blast
qed


section \<open>Between events\<close>

text \<open>
  C10: no wake-up is lost.  In every reachable state, a connection with unsent bytes is registered
  with epoll for writability, so the bytes are sent as soon as the socket takes them.
\<close>

theorem no_lost_wakeups:
  assumes "reachable os port fds st" and "os_sane os" and "os_socket_valid os"
    and "os_epoll_mod_works os" and "conn_at st k = Some c" and "send_buf c \<noteq> []"
  shows "wants_write k (sys_hist st) = Some True"
  using wakeup.reachable_keeps [OF assms(1,4,2,3)] assms(5,6) by (simp add: armed_def armed_at_def)

theorem no_lost_wakeups_witness:
  "\<exists>st c. reachable busy_os 27015 (3, 4) st \<and> conn_at st 6 = Some c \<and> send_buf c = frame [7, 8, 9] \<and>
     wants_write 6 (sys_hist st) = Some True"
proof -
  obtain st c where st: "reachable busy_os 27015 (3, 4) st" "conn_at st 6 = Some c"
    "send_buf c = frame [7, 8, 9]"
    by (rule busy_reachable)
  moreover have "send_buf c \<noteq> []" using st(3) by (simp add: frame_def)
  ultimately show ?thesis using no_lost_wakeups [OF st(1) busy_os_ok st(2)] by blast
qed

text \<open>
  C11: input does not get stuck.  In every reachable state, the bytes a connection has buffered are
  an incomplete packet and the buffer has room for more, so the branch that closes a connection
  because its buffer is full is never taken.
\<close>

theorem no_stuck_input:
  assumes "reachable os port fds st" and "os_sane os" and "os_socket_valid os"
    and "conn_at st k = Some c"
  shows "next_frame (take (recv_len c) (recv_buf c)) = Incomplete \<and> recv_len c < BUFFER_SIZE"
  using idle.reachable_keeps [OF assms(1) _ assms(2,3)] settled_not_full assms(4)
    reachable_inv [OF assms(1-3)] by (auto simp: settled_def)

text \<open>A client of which the first five bytes of a packet have arrived.\<close>

definition halting_os :: os where
  "halting_os = calm_os\<lparr>os_read := \<lambda>h k n. Inr (take n (take 5 talk)),
     os_epoll_wait := \<lambda>h. Inr (map event_of [3, 5])\<rparr>"

lemma halting_os_ok: "os_sane halting_os" "os_socket_valid halting_os"
  by (auto simp: halting_os_def calm_os_def os_sane_def os_accept_fresh_def os_read_bounded_def
      os_socket_valid_def split: if_splits)

lemma halting_reachable:
  obtains st c where "reachable halting_os 27015 (3, 4) st" "conn_at st 5 = Some c" "recv_len c = 5"
proof -
  let ?start = "snd (server_start halting_os 27015 server_init)"
  have start: "server_start halting_os 27015 server_init = (Inr (3, 4), ?start)" "g_running ?start"
    by (simp_all add: halting_os_def calm_run_simps)
  have "\<exists>st c. loop_iteration halting_os 3 ?start = Inr (True, st) \<and> conn_at st 5 = Some c \<and> recv_len c = 5"
    by (simp add: halting_os_def run_simps replicate_7)
  then obtain st c where st: "loop_iteration halting_os 3 ?start = Inr (True, st)" "conn_at st 5 = Some c" "recv_len c = 5"
    by blast
  then show thesis
    using reachable.round [OF reachable.start [OF start(1)] start(2)] by (intro that) simp_all
qed

theorem no_stuck_input_witness:
  "\<exists>st c. reachable halting_os 27015 (3, 4) st \<and> conn_at st 5 = Some c \<and> recv_len c = 5 \<and>
     next_frame (take 5 (recv_buf c)) = Incomplete"
proof -
  obtain st c where st: "reachable halting_os 27015 (3, 4) st" "conn_at st 5 = Some c" "recv_len c = 5"
    by (rule halting_reachable)
  then show ?thesis using no_stuck_input [OF st(1) halting_os_ok st(2)] by auto
qed

text \<open>
  Marks identify clients.  In every reachable state, two registered connections with the same
  mark are the same connection.
\<close>

theorem marks_identify_clients:
  assumes "reachable os port fds st" and "os_sane os" and "os_socket_valid os"
    and "conn_at st k1 = Some c1" "registered c1" and "conn_at st k2 = Some c2" "registered c2"
    and "mark c1 = mark c2"
  shows "k1 = k2"
proof -
  have "marks_agree st" using reachable_inv [OF assms(1-3)] server_invD(5) by blast
  then show ?thesis
    using marks_agreeD [of st "mark_to_key (mark c1)" k1] marks_agreeD [of st "mark_to_key (mark c1)" k2]
      assms(4-8) by auto
qed

theorem marks_identify_clients_witness:
  "\<exists>st c. reachable busy_os 27015 (3, 4) st \<and> conn_at st 6 = Some c \<and> registered c \<and>
     (\<forall>k c'. conn_at st k = Some c' \<and> registered c' \<and> mark c' = mark c \<longrightarrow> k = 6)"
proof -
  obtain st c where st: "reachable busy_os 27015 (3, 4) st" "conn_at st 6 = Some c" "registered c"
    by (rule busy_reachable)
  then show ?thesis using marks_identify_clients [OF st(1) busy_os_ok(1,2)] by blast
qed

text \<open>
  C31: a fifth client is turned away.  With four connections, an accepted socket is closed at once,
  after which it is not open any more and both tables are as before.
\<close>

theorem full_server_rejects:
  assumes "um_size (g_connections st) = MAX_CONNECTIONS" and "os_accept os (sys_hist st) l = Inr k"
  shows "g_connections (handle_new_connection os l st) = g_connections st
    \<and> g_mark_to_fd (handle_new_connection os l st) = g_mark_to_fd st
    \<and> sys_hist (handle_new_connection os l st) = SClose k # SAccept l (Inr k) # sys_hist st"
  using assms by (simp add: handle_new_connection_def sys_defs)

definition four_clients :: server where
  "four_clients = server_init\<lparr>g_connections := map (\<lambda>k. (k, Connection_new k)) [5, 6, 7, 8]\<rparr>"

theorem full_server_rejects_witness:
  "sys_hist (handle_new_connection (calm_os\<lparr>os_accept := \<lambda>h l. Inr 9\<rparr>) 3 four_clients)
     = [SClose 9, SAccept 3 (Inr 9)]"
  using full_server_rejects [of four_clients "calm_os\<lparr>os_accept := \<lambda>h l. Inr 9\<rparr>" 3 9]
  by (simp add: four_clients_def um_size_def MAX_CONNECTIONS_def server_init_def)


section \<open>Defects\<close>

text \<open>
  C37: the packet handler can use a connection it has just freed.  Whenever a registered client sends a
  packet to its own mark, anything after it in the same read, and writing to that client fails,
  \<open>flush_send_buffer\<close> closes and frees the connection whose receive buffer the packet loop goes on to
  use.
\<close>

theorem self_addressed_packet_uses_freed_connection:
  assumes "os_sane os" and "server_inv st" and "conn_at st k = Some c" "registered c" "recv_len c = 0"
    and "os_read os (sys_hist st) k BUFFER_SIZE = Inr (frame (mark c @ p) @ rest)"
    and "p \<noteq> []" "server_payload (mark c @ p)"
    and "\<And>h buf. buf \<noteq> [] \<Longrightarrow> fatal_write (os_write os h k buf)"
  shows "handle_client_data os k st = Inl UseAfterFree"
  using self_addressed_frees [OF assms] .

definition broken_os :: os where
  "broken_os = calm_os\<lparr>os_read := \<lambda>h k n. Inr (take n (frame (mark1 @ [7]))), os_write := \<lambda>h k buf. Inl EPIPE\<rparr>"

theorem self_addressed_packet_uses_freed_connection_witness:
  "handle_client_data broken_os 5 two_players = Inl UseAfterFree"
proof -
  have "os_sane broken_os"
    by (auto simp: broken_os_def calm_os_def os_sane_def os_accept_fresh_def os_read_bounded_def split: if_splits)
  moreover have "length (frame (mark1 @ [7])) = 13" by (simp add: mark1_def)
  then have "os_read broken_os h 5 BUFFER_SIZE = Inr (frame (mark1 @ [7]) @ [])" for h
    by (simp add: broken_os_def BUFFER_SIZE_def)
  moreover have "server_payload (mark1 @ [7])"
    by (simp add: server_payload_def mark1_def BUFFER_SIZE_def LENGTH_SIZE_def)
  moreover have "fatal_write (os_write broken_os h 5 buf)" for h buf by (simp add: broken_os_def fatal_write_def)
  ultimately show ?thesis
    by (intro self_addressed_packet_uses_freed_connection [OF _ two_players_inv, of _ 5 "player 5 mark1" "[7]" "[]"])
      simp_all
qed

text \<open>
  C38: an event that reports both a hang-up and writability closes the descriptor twice: the
  handler goes on after \<open>close_connection\<close>, and the write handler closes a descriptor that has
  no connection.
\<close>

theorem hangup_and_writable_closes_twice:
  assumes "ev_fd ev \<noteq> listen_fd" and "ev_hup ev" and "ev_out ev"
  shows "\<exists>st'. handle_event os listen_fd ev st = Inr st' \<and>
     close_count (ev_fd ev) (sys_hist st') = close_count (ev_fd ev) (sys_hist st) + 2"
  using assms by (simp add: handle_event_def handle_client_write_def close_connection_hist close_count_def)

theorem hangup_and_writable_closes_twice_witness:
  "\<exists>st'. handle_event calm_os 3 ((event_of 5)\<lparr>ev_hup := True, ev_out := True\<rparr>) two_players = Inr st' \<and>
     close_count 5 (sys_hist st') = 2"
  using hangup_and_writable_closes_twice [of "(event_of 5)\<lparr>ev_hup := True, ev_out := True\<rparr>" 3 calm_os two_players]
  by (simp add: event_of_def close_count_def numeral_2_eq_2)

end
