(* ===== verification/C_Strings.thy ===== *)
theory C_Strings
  imports Relay_Prelude
begin

text \<open>
  The parts of the C and C++ string library that the server's command line, the hook's
  configuration file and the proxy DLL use, in the \<open>C\<close> locale: character classes, the integer
  parser behind \<open>std::stoi\<close> and \<open>std::atoi\<close>, \<open>std::getline\<close>, the searches from the end of a string
  and \<open>tolower\<close>.
\<close>

section \<open>Characters\<close>

definition isspace :: "char \<Rightarrow> bool" where
  "isspace c \<longleftrightarrow> c = CHR '' '' \<or> (9 \<le> (of_char c :: nat) \<and> (of_char c :: nat) \<le> 13)"

definition isdigit :: "char \<Rightarrow> bool" where
  "isdigit c \<longleftrightarrow> 48 \<le> (of_char c :: nat) \<and> (of_char c :: nat) \<le> 57"

definition digit_value :: "char \<Rightarrow> nat" where
  "digit_value c = of_char c - 48"

definition tolower :: "char \<Rightarrow> char" where
  "tolower c = (if 65 \<le> (of_char c :: nat) \<and> (of_char c :: nat) \<le> 90
                then char_of (of_char c + 32 :: nat) else c)"

definition lowercase :: "string \<Rightarrow> string" where
  "lowercase s = map tolower s"

lemma tolower_idem: "tolower (tolower c) = tolower c"
  by (auto simp: tolower_def)

lemma lowercase_idem [simp]: "lowercase (lowercase s) = lowercase s"
  by (simp add: lowercase_def tolower_idem)


section \<open>Integers\<close>

fun digits_value :: "nat \<Rightarrow> string \<Rightarrow> nat" where
  "digits_value acc [] = acc"
| "digits_value acc (c # cs) = digits_value (10 * acc + digit_value c) cs"

text \<open>
  The conversion that \<open>strtol\<close> performs in base ten: white space, a sign, digits.  \<open>None\<close> when there
  are no digits; the text after the digits is ignored.
\<close>

definition strtol :: "string \<Rightarrow> int option" where
  "strtol s =
     (let s1 = dropWhile isspace s;
          neg = (s1 \<noteq> [] \<and> hd s1 = CHR ''-'');
          s2 = (if s1 \<noteq> [] \<and> (hd s1 = CHR ''-'' \<or> hd s1 = CHR ''+'') then tl s1 else s1);
          ds = takeWhile isdigit s2
      in if ds = [] then None
         else Some ((if neg then -1 else 1) * int (digits_value 0 ds)))"

datatype conversion_error = invalid_argument | out_of_range

definition stoi :: "string \<Rightarrow> conversion_error + int" where
  "stoi s =
     (case strtol s of
        None \<Rightarrow> Inl invalid_argument
      | Some v \<Rightarrow> if v < - (2 ^ 31) \<or> v \<ge> 2 ^ 31 then Inl out_of_range else Inr v)"

text \<open>
  \<open>atoi\<close> of the GNU library: \<open>strtol\<close>, which saturates at the bounds of a 64-bit \<open>long\<close>, and a
  conversion to \<open>int\<close>, which keeps the lower 32 bits.
\<close>

definition atoi :: "string \<Rightarrow> int" where
  "atoi s =
     (case strtol s of
        None \<Rightarrow> 0
      | Some v \<Rightarrow> sint (word_of_int (max (- (2 ^ 63)) (min v (2 ^ 63 - 1))) :: 32 word))"

fun decimal :: "nat \<Rightarrow> string" where
  "decimal n = (if n < 10 then [char_of (48 + n)] else decimal (n div 10) @ [char_of (48 + n mod 10)])"

declare decimal.simps [simp del]

lemma digits_value_append:
  "digits_value acc (xs @ ys) = digits_value (digits_value acc xs) ys"
  by (induction acc xs rule: digits_value.induct) simp_all

lemma digit_char:
  assumes "d < 10"
  shows "isdigit (char_of (48 + d :: nat))" and "digit_value (char_of (48 + d :: nat)) = d"
  using assms by (simp_all add: isdigit_def digit_value_def)

lemma decimal_digits: "list_all isdigit (decimal n) \<and> decimal n \<noteq> [] \<and> digits_value 0 (decimal n) = n"
proof (induction n rule: decimal.induct)
  case (1 n)
  show ?case
  proof (cases "n < 10")
    case True
    then show ?thesis by (subst (1 2 3) decimal.simps) (simp add: digit_char)
  next
    case False
    have "n mod 10 < 10" by simp
    then show ?thesis
      using 1 [OF False] False by (subst (1 2 3) decimal.simps) (simp add: digits_value_append digit_char)
  qed
qed

lemma isdigit_not:
  "isdigit c \<Longrightarrow> \<not> isspace c \<and> c \<noteq> CHR ''-'' \<and> c \<noteq> CHR ''+''"
  by (auto simp: isdigit_def isspace_def)

lemma strtol_digits:
  assumes "list_all isdigit ds" and "ds \<noteq> []" and "rest = [] \<or> \<not> isdigit (hd rest)"
  shows "strtol (ds @ rest) = Some (int (digits_value 0 ds))"
proof -
  obtain d ds' where ds: "ds = d # ds'" using assms(2) by (cases ds) auto
  have "takeWhile isdigit rest = []" using assms(3) by (cases rest) auto
  then have "takeWhile isdigit (ds @ rest) = ds" using assms(1) by (simp add: takeWhile_append2 list_all_iff)
  then show ?thesis using isdigit_not [of d] assms(1) ds by (simp add: strtol_def Let_def)
qed

lemma strtol_decimal:
  "rest = [] \<or> \<not> isdigit (hd rest) \<Longrightarrow> strtol (decimal n @ rest) = Some (int n)"
  using strtol_digits [of "decimal n" rest] decimal_digits [of n] by simp

lemma stoi_decimal:
  assumes "n < 2 ^ 31" and "rest = [] \<or> \<not> isdigit (hd rest)"
  shows "stoi (decimal n @ rest) = Inr (int n)"
  using assms by (simp add: stoi_def strtol_decimal)

lemma atoi_decimal:
  assumes "n < 2 ^ 31"
  shows "atoi (decimal n) = int n"
proof -
  have "strtol (decimal n) = Some (int n)" using strtol_decimal [of "[]" n] by simp
  moreover have "sint (word_of_int (int n) :: 32 word) = int n"
    using assms by (simp only: signed_of_int) (simp add: signed_take_bit_int_eq_self)
  ultimately show ?thesis using assms by (simp add: atoi_def)
qed


section \<open>Lines\<close>

text \<open>The lines that \<open>std::getline\<close> finds; the last one need not end with a line feed.\<close>

abbreviation line_feed :: char where "line_feed \<equiv> CHR 0x0A"
abbreviation carriage_return :: char where "carriage_return \<equiv> CHR 0x0D"

fun getlines :: "string \<Rightarrow> string list" where
  "getlines [] = []"
| "getlines (c # cs) =
     (if c = line_feed then [] # getlines cs
      else (case getlines cs of [] \<Rightarrow> [[c]] | l # ls \<Rightarrow> (c # l) # ls))"

lemma getlines_line:
  assumes "line_feed \<notin> set l"
  shows "getlines (l @ line_feed # cs) = l # getlines cs"
  using assms by (induction l) auto

lemma getlines_lines:
  assumes "\<forall>l \<in> set ls. line_feed \<notin> set l"
  shows "getlines (concat (map (\<lambda>l. l @ [line_feed]) ls)) = ls"
  using assms by (induction ls) (simp_all add: getlines_line)


text \<open>The part of a string that \<open>c_str()\<close> shows to a C function.\<close>

definition c_str :: "string \<Rightarrow> string" where
  "c_str s = takeWhile (\<lambda>c. c \<noteq> CHR 0x00) s"

lemma c_str_id: "CHR 0x00 \<notin> set s \<Longrightarrow> c_str s = s"
  unfolding c_str_def by (rule takeWhile_eq_all_conv [THEN iffD2]) auto


section \<open>Searching from the end\<close>

text \<open>\<open>rfind\<close> and \<open>find_last_of\<close>: the last position of a character with the given property.\<close>

fun find_last :: "(char \<Rightarrow> bool) \<Rightarrow> string \<Rightarrow> nat option" where
  "find_last P [] = None"
| "find_last P (c # cs) =
     (case find_last P cs of
        Some i \<Rightarrow> Some (Suc i)
      | None \<Rightarrow> if P c then Some 0 else None)"

lemma find_last_None: "find_last P s = None \<longleftrightarrow> (\<forall>c \<in> set s. \<not> P c)"
  by (induction s) (auto split: option.splits)

lemma find_last_Some:
  assumes "P c" and "\<forall>x \<in> set t. \<not> P x"
  shows "find_last P (s @ c # t) = Some (length s)"
  using assms find_last_None [of P t] by (induction s) auto

lemma find_last_SomeE:
  assumes "find_last P s = Some i"
  obtains a c t where "s = a @ c # t" "length a = i" "P c" "\<forall>x \<in> set t. \<not> P x"
proof -
  have "\<exists>a c t. s = a @ c # t \<and> length a = i \<and> P c \<and> (\<forall>x \<in> set t. \<not> P x)"
    using assms
  proof (induction s arbitrary: i)
    case (Cons d s)
    show ?case
    proof (cases "find_last P s")
      case None
      then show ?thesis
        using Cons.prems find_last_None [of P s] by (intro exI [of _ "[]"]) (auto split: if_splits)
    next
      case (Some j)
      then obtain a c t where "s = a @ c # t" "length a = j" "P c" "\<forall>x \<in> set t. \<not> P x"
        using Cons.IH by blast
      then show ?thesis using Cons.prems Some by (intro exI [of _ "d # a"] exI [of _ c] exI [of _ t]) simp
    qed
  qed simp
  then show thesis using that by blast
qed

end
