(* ===== verification/Server_Shell.thy ===== *)
theory Server_Shell
  imports Server_Main C_Strings
begin

text \<open>
  What surrounds the relay in \<open>server/main.cpp\<close>: the logger and the command line.  The model of the
  logger takes the time stamp and the formatted message as arguments; which lines the other
  functions log is not part of their models.
\<close>

section \<open>Logger\<close>

definition LOG_BUFFER_SIZE :: nat where "LOG_BUFFER_SIZE = 1024"

datatype LogLevel = LVL_DEBUG | LVL_INFO | LVL_WARN | LVL_ERR

fun level_index :: "LogLevel \<Rightarrow> nat" where
  "level_index LVL_DEBUG = 0"
| "level_index LVL_INFO = 1"
| "level_index LVL_WARN = 2"
| "level_index LVL_ERR = 3"

definition log_level_names :: "string list" where
  "log_level_names = [''DEBUG'', ''INFO'', ''WARN'', ''ERROR'']"

definition log_level_to_syslog :: "int list" where
  "log_level_to_syslog = [7, 6, 4, 3]"

record logger =
  logger_initialized :: bool
  std_out :: "string list"
  std_err :: "string list"
  sys_log :: "(int \<times> string) list"

definition logger_start :: logger where
  "logger_start = \<lparr>logger_initialized = False, std_out = [], std_err = [], sys_log = []\<rparr>"

definition Logger_init :: "logger \<Rightarrow> logger" where
  "Logger_init lg = lg\<lparr>logger_initialized := True\<rparr>"

definition Logger_close :: "logger \<Rightarrow> logger" where
  "Logger_close lg = (if logger_initialized lg then lg\<lparr>logger_initialized := False\<rparr> else lg)"

definition Logger_log :: "LogLevel \<Rightarrow> string \<Rightarrow> string \<Rightarrow> logger \<Rightarrow> logger" where
  "Logger_log level time_buf message lg =
     (let buffer = take (LOG_BUFFER_SIZE - 1) message;
          line = ''['' @ time_buf @ ''] ['' @ log_level_names ! level_index level @ ''] '' @ buffer @ [line_feed];
          lg1 = (if level_index level \<ge> level_index LVL_WARN
                 then lg\<lparr>std_err := std_err lg @ [line]\<rparr> else lg\<lparr>std_out := std_out lg @ [line]\<rparr>)
      in if logger_initialized lg1
         then lg1\<lparr>sys_log := sys_log lg1 @ [(log_level_to_syslog ! level_index level, buffer)]\<rparr>
         else lg1)"

definition hex_digit :: "nat \<Rightarrow> char" where
  "hex_digit d = ''0123456789abcdef'' ! d"

definition format_byte :: "byte \<Rightarrow> string" where
  "format_byte b = [hex_digit (unat b div 16), hex_digit (unat b mod 16)]"

definition format_mark :: "bytes \<Rightarrow> string" where
  "format_mark m = concat (map format_byte (take MARK_SIZE m))"

text \<open>More severe levels have smaller priorities, and a message always reaches one of the streams.\<close>

lemma syslog_priorities:
  "level_index a < level_index b \<longleftrightarrow>
   log_level_to_syslog ! level_index b < log_level_to_syslog ! level_index a"
  by (cases a; cases b) (simp_all add: log_level_to_syslog_def numeral_eq_Suc)

lemma hex_digit_inject: "i < 16 \<Longrightarrow> j < 16 \<Longrightarrow> hex_digit i = hex_digit j \<longleftrightarrow> i = j"
proof -
  have "distinct ''0123456789abcdef''" by simp
  moreover assume "i < 16" "j < 16"
  ultimately show ?thesis unfolding hex_digit_def by (intro nth_eq_iff_index_eq) simp_all
qed

lemma format_byte_inject: "format_byte a = format_byte b \<longleftrightarrow> a = b"
proof
  assume eq: "format_byte a = format_byte b"
  have "unat a < 256" "unat b < 256" using unat_bound [of a] unat_bound [of b] by simp_all
  then have "unat a div 16 = unat b div 16" "unat a mod 16 = unat b mod 16"
    using eq by (simp_all add: format_byte_def hex_digit_inject)
  then have "unat a = unat b" by (metis div_mod_decomp)
  then show "a = b" by (simp add: word_unat_eq_iff)
qed simp

lemma format_byte_append: "format_byte a @ s = format_byte b @ t \<longleftrightarrow> a = b \<and> s = t"
  using format_byte_inject [of a b] by (auto simp: format_byte_def)

lemma format_bytes_inject:
  "length xs = length ys \<Longrightarrow> concat (map format_byte xs) = concat (map format_byte ys) \<longleftrightarrow> xs = ys"
  by (induction xs ys rule: list_induct2) (simp_all add: format_byte_append)

lemma format_mark_inject:
  "length m = MARK_SIZE \<Longrightarrow> length m' = MARK_SIZE \<Longrightarrow> format_mark m = format_mark m' \<longleftrightarrow> m = m'"
  by (simp add: format_mark_def format_bytes_inject)


section \<open>Command line\<close>

definition main_args :: "os \<Rightarrow> string list \<Rightarrow> (fault + int \<times> server) option" where
  "main_args os argv =
     (if length argv \<noteq> 2 then Some (Inr (1, server_init))
      else
        let port = atoi (argv ! 1)
        in if port \<le> 0 \<or> port > 65535 then Some (Inr (1, server_init)) else server_main os port)"

lemma sint_wrap:
  "\<exists>b. sint (word_of_int (int n) :: 32 word) = int (n mod 2 ^ 32) - 2 ^ 32 * of_bool b"
  by (simp only: signed_of_int signed_take_bit_eq_take_bit_minus) (auto simp: take_bit_eq_mod zmod_int)

lemma atoi_decimal_range:
  "(if atoi (decimal n) \<le> 0 \<or> atoi (decimal n) > 65535 then x else f (atoi (decimal n))) =
   (if n < 2 ^ 63 \<and> 0 < n mod 2 ^ 32 \<and> n mod 2 ^ 32 \<le> 65535 then f (int (n mod 2 ^ 32)) else x)"
proof -
  have st: "strtol (decimal n) = Some (int n)" using strtol_decimal [of "[]" n] by simp
  show ?thesis
  proof (cases "n < 2 ^ 63")
    case False
    then have "min (int n) (2 ^ 63 - 1) = 2 ^ 63 - 1" by simp
    then have "atoi (decimal n) = sint (word_of_int (2 ^ 63 - 1) :: 32 word)" by (simp add: atoi_def st)
    also have "\<dots> = -1" by simp
    finally show ?thesis using False by simp
  next
    case True
    then have "max (- (2 ^ 63)) (min (int n) (2 ^ 63 - 1)) = int n" by simp
    then have a: "atoi (decimal n) = sint (word_of_int (int n) :: 32 word)" by (simp only: atoi_def st option.case)
    obtain b where b: "atoi (decimal n) = int (n mod 2 ^ 32) - 2 ^ 32 * of_bool b" using sint_wrap [of n] a by auto
    have small: "atoi (decimal n) = int (n mod 2 ^ 32)" if "n mod 2 ^ 32 \<le> 65535"
    proof -
      have "word_of_int (int n) = (word_of_int (int (n mod 2 ^ 32)) :: 32 word)"
        by (simp only: word_of_int_eq_iff) (simp add: take_bit_eq_mod zmod_int)
      moreover have "sint (word_of_int (int (n mod 2 ^ 32)) :: 32 word) = int (n mod 2 ^ 32)"
        using that by (simp only: signed_of_int) (simp add: signed_take_bit_int_eq_self)
      ultimately show ?thesis using a by simp
    qed
    have "n mod 2 ^ 32 < 2 ^ 32" by simp
    then have "\<not> n mod 2 ^ 32 \<le> 65535 \<Longrightarrow> atoi (decimal n) \<le> 0 \<or> atoi (decimal n) > 65535"
      unfolding b by (cases b) auto
    then show ?thesis using small True by auto
  qed
qed

text \<open>
  C30: the command line.  Without exactly one argument the server ends with code 1 and has opened
  nothing.  A decimal port between 1 and 65535 starts it on that port.  Larger numbers are reduced
  modulo \<open>2 ^ 32\<close> first, because \<open>atoi\<close> drops the upper bits, and then rejected if they are out of
  range.
\<close>

theorem command_line_port:
  "main_args os [program, decimal n] =
     (if n < 2 ^ 63 \<and> 0 < n mod 2 ^ 32 \<and> n mod 2 ^ 32 \<le> 65535 then server_main os (int (n mod 2 ^ 32))
      else Some (Inr (1, server_init))) \<and>
   (length argv \<noteq> 2 \<longrightarrow> main_args os argv = Some (Inr (1, server_init)))"
  using atoi_decimal_range [of n "Some (Inr (1, server_init))" "server_main os"]
  by (simp add: main_args_def Let_def)

theorem command_line_port_witness:
  "\<forall>os. main_args os [''relay_server'', decimal 27015] = server_main os 27015 \<and>
   main_args os [''relay_server'', decimal 4294994311] = server_main os 27015 \<and>
   main_args os [] = Some (Inr (1, server_init))"
  using command_line_port [of _ "''relay_server''" 27015 "[]"]
    command_line_port [of _ "''relay_server''" 4294994311 "[]"] by simp

end
