(* ===== verification/Winsock.thy ===== *)
theory Winsock
  imports Wire_Codec
begin

text \<open>
  Winsock and the clock as the client library sees them (\<open>src/platform_win.h\<close> and the socket calls
  of \<open>src/connection_manager.cpp\<close>).  As for the server, the network is the parameter \<open>net\<close> of
  every operation: one function per call, which answers with full knowledge of the history.  The
  history is newest first; \<open>net_sent\<close>, \<open>net_received\<close> and \<open>net_open\<close> read off it the bytes that
  went out and came in on a socket and the sockets that are open.

  \<open>WouldBlock\<close> stands for the two error codes that \<open>wouldBlock()\<close> accepts.
\<close>

type_synonym SocketHandle = u64
type_synonym P2PPeerID = u32

definition INVALID_SOCKET_HANDLE :: SocketHandle where "INVALID_SOCKET_HANDLE = -1"
definition P2P_INVALID_PEER_ID :: P2PPeerID where "P2P_INVALID_PEER_ID = 0"

datatype wsa_error = WSAEWOULDBLOCK | WSAEINPROGRESS | WSAECONNRESET | WSAEOTHER

definition wouldBlock :: "wsa_error \<Rightarrow> bool" where
  "wouldBlock err \<longleftrightarrow> err = WSAEWOULDBLOCK \<or> err = WSAEINPROGRESS"

datatype sock_option = NonBlocking | ReuseAddr | NoDelay

datatype ConnectionEvent = Connected | Disconnected

datatype net_call =
    NStartup bool
  | NCleanup
  | NSocket SocketHandle
  | NSetOption SocketHandle sock_option bool
  | NConnect SocketHandle string u16 "wsa_error option"
  | NSelectOne SocketHandle u32 "bool option"
  | NSoError SocketHandle "int option"
  | NBind SocketHandle u16 bool
  | NListen SocketHandle bool
  | NAccept SocketHandle "SocketHandle \<times> string \<times> u16"
  | NRecv SocketHandle "wsa_error + bytes"
  | NSend SocketHandle bytes "wsa_error + nat"
  | NClose SocketHandle
  | NSelect "SocketHandle list" "SocketHandle list"
  | NClock u64
  | NNotify P2PPeerID ConnectionEvent

type_synonym net_history = "net_call list"

text \<open>
  \<open>net_select_one\<close> is the \<open>select\<close> that waits for a connection: \<open>None\<close> on time-out or error,
  else whether the socket is in the exception set.  \<open>net_select\<close> polls all sockets: \<open>None\<close> when
  nothing is ready, else the readable, writable and exceptional ones.
\<close>

record net =
  net_startup :: "net_history \<Rightarrow> bool"
  net_socket :: "net_history \<Rightarrow> SocketHandle"
  net_set_option :: "net_history \<Rightarrow> SocketHandle \<Rightarrow> sock_option \<Rightarrow> bool"
  net_pton :: "string \<Rightarrow> bool"
  net_connect :: "net_history \<Rightarrow> SocketHandle \<Rightarrow> string \<Rightarrow> u16 \<Rightarrow> wsa_error option"
  net_select_one :: "net_history \<Rightarrow> SocketHandle \<Rightarrow> u32 \<Rightarrow> bool option"
  net_so_error :: "net_history \<Rightarrow> SocketHandle \<Rightarrow> int option"
  net_bind :: "net_history \<Rightarrow> SocketHandle \<Rightarrow> u16 \<Rightarrow> bool"
  net_listen :: "net_history \<Rightarrow> SocketHandle \<Rightarrow> bool"
  net_accept :: "net_history \<Rightarrow> SocketHandle \<Rightarrow> SocketHandle \<times> string \<times> u16"
  net_recv :: "net_history \<Rightarrow> SocketHandle \<Rightarrow> nat \<Rightarrow> wsa_error + bytes"
  net_send :: "net_history \<Rightarrow> SocketHandle \<Rightarrow> bytes \<Rightarrow> wsa_error + nat"
  net_select :: "net_history \<Rightarrow> SocketHandle list \<Rightarrow> SocketHandle list \<Rightarrow>
    (SocketHandle list \<times> SocketHandle list \<times> SocketHandle list) option"
  net_clock :: "net_history \<Rightarrow> u64"


section \<open>Reading a history\<close>

text \<open>
  A socket value can be used again after it was closed, so its streams start with the call that
  created it.
\<close>

fun net_sent :: "SocketHandle \<Rightarrow> net_history \<Rightarrow> bytes" where
  "net_sent s [] = []"
| "net_sent s (NSend k buf r # h) =
     (case r of Inr n \<Rightarrow> (if k = s then net_sent s h @ take n buf else net_sent s h)
      | Inl _ \<Rightarrow> net_sent s h)"
| "net_sent s (NSocket k # h) = (if k = s then [] else net_sent s h)"
| "net_sent s (NAccept l r # h) = (if fst r = s then [] else net_sent s h)"
| "net_sent s (_ # h) = net_sent s h"

fun net_received :: "SocketHandle \<Rightarrow> net_history \<Rightarrow> bytes" where
  "net_received s [] = []"
| "net_received s (NRecv k r # h) =
     (case r of Inr bs \<Rightarrow> (if k = s then net_received s h @ bs else net_received s h)
      | Inl _ \<Rightarrow> net_received s h)"
| "net_received s (NSocket k # h) = (if k = s then [] else net_received s h)"
| "net_received s (NAccept l r # h) = (if fst r = s then [] else net_received s h)"
| "net_received s (_ # h) = net_received s h"

fun net_open :: "SocketHandle \<Rightarrow> net_history \<Rightarrow> bool" where
  "net_open s [] = False"
| "net_open s (NSocket k # h) = ((k = s \<and> s \<noteq> INVALID_SOCKET_HANDLE) \<or> net_open s h)"
| "net_open s (NAccept l r # h) = ((fst r = s \<and> s \<noteq> INVALID_SOCKET_HANDLE) \<or> net_open s h)"
| "net_open s (NClose k # h) = (k \<noteq> s \<and> net_open s h)"
| "net_open s (_ # h) = net_open s h"

text \<open>The connection events that the application was told, oldest first.\<close>

fun notified :: "net_history \<Rightarrow> (P2PPeerID \<times> ConnectionEvent) list" where
  "notified [] = []"
| "notified (NNotify p e # h) = notified h @ [(p, e)]"
| "notified (_ # h) = notified h"

lemma net_open_valid: "net_open s h \<Longrightarrow> s \<noteq> INVALID_SOCKET_HANDLE"
  by (induction s h rule: net_open.induct) auto


section \<open>Documented behaviour of Winsock\<close>

text \<open>
  \<open>send\<close> takes at most the bytes it was given, \<open>recv\<close> returns at most the bytes asked for, a new
  socket is not one that is open, and the bytes and connections that wait at a socket are finite
  in number, so that reading them all comes to an end.
\<close>

definition net_send_bounded :: "net \<Rightarrow> bool" where
  "net_send_bounded net \<longleftrightarrow> (\<forall>h s buf n. net_send net h s buf = Inr n \<longrightarrow> n \<le> length buf)"

definition net_recv_bounded :: "net \<Rightarrow> bool" where
  "net_recv_bounded net \<longleftrightarrow> (\<forall>h s n bs. net_recv net h s n = Inr bs \<longrightarrow> length bs \<le> n)"

definition net_sockets_fresh :: "net \<Rightarrow> bool" where
  "net_sockets_fresh net \<longleftrightarrow>
     (\<forall>h. \<not> net_open (net_socket net h) h) \<and> (\<forall>h l. \<not> net_open (fst (net_accept net h l)) h)"

definition net_recv_finite :: "net \<Rightarrow> bool" where
  "net_recv_finite net \<longleftrightarrow> (\<exists>pending :: net_history \<Rightarrow> nat. \<forall>h s n bs.
     net_recv net h s n = Inr bs \<and> bs \<noteq> [] \<longrightarrow> pending (NRecv s (Inr bs) # h) < pending h)"

end
