(* ===== verification/Connection_Manager.thy ===== *)
theory Connection_Manager
  imports Packet_Queue Winsock
begin

text \<open>
  The connection manager of the client library (\<open>src/connection_manager.h\<close> and \<open>.cpp\<close>): peers,
  sending, receiving, polling and automatic reconnection.  The class is the record \<open>manager\<close>, and
  every operation works on any extension of it, because the connection callback belongs to the
  application and may change the application's state as well as, through the public interface,
  the manager's: it is the parameter \<open>cb\<close>, a function on the whole state.

  Several methods hold a reference or an iterator into \<open>m_connections\<close> while they call the
  callback, and \<open>removeDisconnected\<close> one into \<open>m_pendingRemove\<close>.  If the callback removes that peer, adds
  a peer (the table may be rehashed), or changes \<open>m_pendingRemove\<close> while it is iterated, C++ leaves
  the behaviour undefined; the model answers \<open>Inl IteratorInvalidated\<close>.  The two loops that run until the network has nothing
  more to give (\<open>acceptNewConnections\<close>, \<open>processRead\<close>) are partial functions: \<open>None\<close> means that
  they run for ever.
\<close>

section \<open>State\<close>

record ClientConnection =
  socket :: SocketHandle
  peerID :: P2PPeerID
  remoteIP :: string
  remotePort :: u16
  connected :: bool
  autoReconnect :: bool
  reconnectBaseDelayMs :: u32
  reconnectMaxDelayMs :: u32
  reconnectAttempt :: u32
  nextReconnectAtMs :: u64
  receiveQueue :: PacketQueue
  recvBuffer :: ReceiveBuffer
  sendBuffer :: bytes

definition ClientConnection_new :: ClientConnection where
  "ClientConnection_new =
     \<lparr>socket = INVALID_SOCKET_HANDLE, peerID = P2P_INVALID_PEER_ID, remoteIP = [], remotePort = 0,
      connected = False, autoReconnect = False, reconnectBaseDelayMs = 500,
      reconnectMaxDelayMs = 10 * 1000, reconnectAttempt = 0, nextReconnectAtMs = 0,
      receiveQueue = PacketQueue_new, recvBuffer = ReceiveBuffer_new, sendBuffer = []\<rparr>"

record manager =
  m_initialized :: bool
  m_listenSocket :: SocketHandle
  m_listenPort :: u16
  m_nextPeerID :: P2PPeerID
  m_connections :: "(P2PPeerID, ClientConnection) umap"
  m_pendingRemove :: "P2PPeerID list"
  m_connectionCallback :: bool
  net_hist :: net_history

definition manager_new :: "net_history \<Rightarrow> manager" where
  "manager_new h =
     \<lparr>m_initialized = False, m_listenSocket = INVALID_SOCKET_HANDLE, m_listenPort = 0,
      m_nextPeerID = 1, m_connections = [], m_pendingRemove = [], m_connectionCallback = False,
      net_hist = h\<rparr>"

definition RECV_BUFFER_SIZE :: nat where "RECV_BUFFER_SIZE = 65536"

datatype client_fault = IteratorInvalidated

type_synonym 'm callback = "P2PPeerID \<Rightarrow> ConnectionEvent \<Rightarrow> 'm \<Rightarrow> 'm"

abbreviation peer_at :: "'a manager_scheme \<Rightarrow> P2PPeerID \<Rightarrow> ClientConnection option" where
  "peer_at m pid \<equiv> um_find (m_connections m) pid"

definition set_peer :: "P2PPeerID \<Rightarrow> ClientConnection \<Rightarrow> 'a manager_scheme \<Rightarrow> 'a manager_scheme" where
  "set_peer pid conn m = m\<lparr>m_connections := um_set pid conn (m_connections m)\<rparr>"

definition log_call :: "net_call \<Rightarrow> 'a manager_scheme \<Rightarrow> 'a manager_scheme" where
  "log_call e m = m\<lparr>net_hist := e # net_hist m\<rparr>"

definition push_pending :: "P2PPeerID \<Rightarrow> 'a manager_scheme \<Rightarrow> 'a manager_scheme" where
  "push_pending pid m = m\<lparr>m_pendingRemove := m_pendingRemove m @ [pid]\<rparr>"


section \<open>Platform calls\<close>

definition closeSocket :: "SocketHandle \<Rightarrow> 'a manager_scheme \<Rightarrow> 'a manager_scheme" where
  "closeSocket sock m = (if sock \<noteq> INVALID_SOCKET_HANDLE then log_call (NClose sock) m else m)"

definition setOption :: "net \<Rightarrow> SocketHandle \<Rightarrow> sock_option \<Rightarrow> 'a manager_scheme \<Rightarrow> 'a manager_scheme" where
  "setOption net sock opt m =
     log_call (NSetOption sock opt (net_set_option net (net_hist m) sock opt)) m"

definition setNonBlocking :: "net \<Rightarrow> SocketHandle \<Rightarrow> 'a manager_scheme \<Rightarrow> 'a manager_scheme" where
  "setNonBlocking net sock m = setOption net sock NonBlocking m"

definition setReuseAddr :: "net \<Rightarrow> SocketHandle \<Rightarrow> 'a manager_scheme \<Rightarrow> 'a manager_scheme" where
  "setReuseAddr net sock m = setOption net sock ReuseAddr m"

definition setNoDelay :: "net \<Rightarrow> SocketHandle \<Rightarrow> 'a manager_scheme \<Rightarrow> 'a manager_scheme" where
  "setNoDelay net sock m = setOption net sock NoDelay m"

definition initializeSockets :: "net \<Rightarrow> 'a manager_scheme \<Rightarrow> bool \<times> 'a manager_scheme" where
  "initializeSockets net m =
     (let ok = net_startup net (net_hist m) in (ok, log_call (NStartup ok) m))"

definition cleanupSockets :: "'a manager_scheme \<Rightarrow> 'a manager_scheme" where
  "cleanupSockets m = log_call NCleanup m"

definition nowMs :: "net \<Rightarrow> 'a manager_scheme \<Rightarrow> u64 \<times> 'a manager_scheme" where
  "nowMs net m = (let t = net_clock net (net_hist m) in (t, log_call (NClock t) m))"

definition net_send_call ::
    "net \<Rightarrow> SocketHandle \<Rightarrow> bytes \<Rightarrow> 'a manager_scheme \<Rightarrow> (wsa_error + nat) \<times> 'a manager_scheme" where
  "net_send_call net s buf m =
     (let r = net_send net (net_hist m) s buf in (r, log_call (NSend s buf r) m))"

definition net_recv_call ::
    "net \<Rightarrow> SocketHandle \<Rightarrow> 'a manager_scheme \<Rightarrow> (wsa_error + bytes) \<times> 'a manager_scheme" where
  "net_recv_call net s m =
     (let r = net_recv net (net_hist m) s RECV_BUFFER_SIZE in (r, log_call (NRecv s r) m))"

lemmas platform_defs = closeSocket_def setOption_def setNonBlocking_def setReuseAddr_def
  setNoDelay_def initializeSockets_def cleanupSockets_def nowMs_def net_send_call_def
  net_recv_call_def log_call_def Let_def


section \<open>Life cycle\<close>

definition initialize :: "net \<Rightarrow> 'a manager_scheme \<Rightarrow> bool \<times> 'a manager_scheme" where
  "initialize net m =
     (if m_initialized m then (True, m)
      else case initializeSockets net m of
             (False, m1) \<Rightarrow> (False, m1)
           | (True, m1) \<Rightarrow> (True, m1\<lparr>m_initialized := True\<rparr>))"

definition stopListen :: "'a manager_scheme \<Rightarrow> 'a manager_scheme" where
  "stopListen m =
     (if m_listenSocket m \<noteq> INVALID_SOCKET_HANDLE
      then (closeSocket (m_listenSocket m) m)
             \<lparr>m_listenSocket := INVALID_SOCKET_HANDLE, m_listenPort := 0\<rparr>
      else m)"

definition shutdown :: "'a manager_scheme \<Rightarrow> 'a manager_scheme" where
  "shutdown m =
     (if \<not> m_initialized m then m
      else
        let m1 = stopListen m;
            m2 = foldl (\<lambda>s entry. closeSocket (socket (snd entry)) s) m1 (m_connections m1);
            m3 = m2\<lparr>m_connections := [], m_pendingRemove := []\<rparr>
        in (cleanupSockets m3)\<lparr>m_initialized := False\<rparr>)"

definition manager_listen :: "net \<Rightarrow> u16 \<Rightarrow> 'a manager_scheme \<Rightarrow> bool \<times> 'a manager_scheme" where
  "manager_listen net port m =
     (if \<not> m_initialized m then (False, m)
      else
        let m1 = stopListen m;
            sock = net_socket net (net_hist m1);
            m2 = (log_call (NSocket sock) m1)\<lparr>m_listenSocket := sock\<rparr>
        in if sock = INVALID_SOCKET_HANDLE then (False, m2)
           else
             let m3 = setNonBlocking net sock (setReuseAddr net sock m2);
                 bound = net_bind net (net_hist m3) sock port;
                 m4 = log_call (NBind sock port bound) m3
             in if \<not> bound
                then (False, (closeSocket sock m4)\<lparr>m_listenSocket := INVALID_SOCKET_HANDLE\<rparr>)
                else
                  let lis = net_listen net (net_hist m4) sock;
                      m5 = log_call (NListen sock lis) m4
                  in if \<not> lis
                     then (False, (closeSocket sock m5)\<lparr>m_listenSocket := INVALID_SOCKET_HANDLE\<rparr>)
                     else (True, m5\<lparr>m_listenPort := port\<rparr>))"


section \<open>Connecting\<close>

definition connectWithTimeout ::
    "net \<Rightarrow> string option \<Rightarrow> u16 \<Rightarrow> u32 \<Rightarrow> 'a manager_scheme \<Rightarrow> SocketHandle \<times> 'a manager_scheme" where
  "connectWithTimeout net ip port timeoutMs m =
     (case ip of
        None \<Rightarrow> (INVALID_SOCKET_HANDLE, m)
      | Some addr \<Rightarrow>
          let sock = net_socket net (net_hist m);
              m1 = log_call (NSocket sock) m
          in if sock = INVALID_SOCKET_HANDLE then (INVALID_SOCKET_HANDLE, m1)
             else
               let m2 = setNonBlocking net sock (setNoDelay net sock m1)
               in if \<not> net_pton net addr then (INVALID_SOCKET_HANDLE, closeSocket sock m2)
                  else
                    let rc = net_connect net (net_hist m2) sock addr port;
                        m3 = log_call (NConnect sock addr port rc) m2
                    in (case rc of
                          None \<Rightarrow> (sock, m3)
                        | Some err \<Rightarrow>
                            if \<not> wouldBlock err then (INVALID_SOCKET_HANDLE, closeSocket sock m3)
                            else
                              let sel = net_select_one net (net_hist m3) sock timeoutMs;
                                  m4 = log_call (NSelectOne sock timeoutMs sel) m3
                              in (case sel of
                                    None \<Rightarrow> (INVALID_SOCKET_HANDLE, closeSocket sock m4)
                                  | Some failed \<Rightarrow>
                                      if failed then (INVALID_SOCKET_HANDLE, closeSocket sock m4)
                                      else
                                        let soError = net_so_error net (net_hist m4) sock;
                                            m5 = log_call (NSoError sock soError) m4
                                        in if soError \<noteq> Some 0
                                           then (INVALID_SOCKET_HANDLE, closeSocket sock m5)
                                           else (sock, m5))))"

definition allocatePeerID :: "'a manager_scheme \<Rightarrow> P2PPeerID \<times> 'a manager_scheme" where
  "allocatePeerID m = (m_nextPeerID m, m\<lparr>m_nextPeerID := m_nextPeerID m + 1\<rparr>)"

definition notifyConnectionEvent ::
    "'a manager_scheme callback \<Rightarrow> P2PPeerID \<Rightarrow> ConnectionEvent \<Rightarrow> 'a manager_scheme \<Rightarrow> 'a manager_scheme" where
  "notifyConnectionEvent cb pid event m =
     (if m_connectionCallback m then cb pid event (log_call (NNotify pid event) m) else m)"

text \<open>
  The same where the caller goes on to use an iterator to the peer in the table of connections: the
  peer must still be there, and no peer may have been added.
\<close>

definition notify_keeping_iterators ::
    "'a manager_scheme callback \<Rightarrow> P2PPeerID \<Rightarrow> ConnectionEvent \<Rightarrow> 'a manager_scheme
      \<Rightarrow> client_fault + 'a manager_scheme" where
  "notify_keeping_iterators cb pid event m =
     (let m' = notifyConnectionEvent cb pid event m
      in if pid \<in> set (map fst (m_connections m')) \<and>
            set (map fst (m_connections m')) \<subseteq> set (map fst (m_connections m)) then Inr m'
         else Inl IteratorInvalidated)"

definition setConnectionCallback :: "bool \<Rightarrow> 'a manager_scheme \<Rightarrow> 'a manager_scheme" where
  "setConnectionCallback callback m = m\<lparr>m_connectionCallback := callback\<rparr>"

text \<open>A new peer, as \<open>connect\<close> and \<open>acceptNewConnections\<close> add it.\<close>

definition add_peer ::
    "'a manager_scheme callback \<Rightarrow> SocketHandle \<Rightarrow> string \<Rightarrow> u16 \<Rightarrow> 'a manager_scheme
      \<Rightarrow> P2PPeerID \<times> 'a manager_scheme" where
  "add_peer cb sock ip port m =
     (case allocatePeerID m of (pid, m1) \<Rightarrow>
        let conn = ClientConnection_new
              \<lparr>socket := sock, peerID := pid, remoteIP := ip, remotePort := port, connected := True\<rparr>;
            m2 = m1\<lparr>m_connections := um_emplace pid conn (m_connections m1)\<rparr>
        in (pid, notifyConnectionEvent cb pid Connected m2))"

definition manager_connect ::
    "net \<Rightarrow> 'a manager_scheme callback \<Rightarrow> string option \<Rightarrow> u16 \<Rightarrow> 'a manager_scheme
      \<Rightarrow> P2PPeerID option \<times> 'a manager_scheme" where
  "manager_connect net cb ip port m =
     (case ip of
        None \<Rightarrow> (None, m)
      | Some addr \<Rightarrow>
          if \<not> m_initialized m then (None, m)
          else case connectWithTimeout net ip port 2000 m of (sock, m1) \<Rightarrow>
                 if sock = INVALID_SOCKET_HANDLE then (None, m1)
                 else case add_peer cb sock addr port m1 of (pid, m2) \<Rightarrow> (Some pid, m2))"

definition setAutoReconnect ::
    "P2PPeerID \<Rightarrow> bool \<Rightarrow> u32 \<Rightarrow> u32 \<Rightarrow> 'a manager_scheme \<Rightarrow> 'a manager_scheme" where
  "setAutoReconnect pid enable baseDelayMs maxDelayMs m =
     (case peer_at m pid of
        None \<Rightarrow> m
      | Some conn \<Rightarrow>
          set_peer pid (conn\<lparr>autoReconnect := enable, reconnectBaseDelayMs := baseDelayMs,
            reconnectMaxDelayMs := maxDelayMs, reconnectAttempt := 0, nextReconnectAtMs := 0\<rparr>) m)"

text \<open>
  What \<open>disconnect\<close> and the loop body of \<open>removeDisconnected\<close> do to a peer they found.
\<close>

definition drop_connection ::
    "net \<Rightarrow> 'a manager_scheme callback \<Rightarrow> P2PPeerID \<Rightarrow> ClientConnection \<Rightarrow> 'a manager_scheme
      \<Rightarrow> client_fault + 'a manager_scheme" where
  "drop_connection net cb pid conn m =
     (let m1 = closeSocket (socket conn) m;
          conn1 = conn\<lparr>socket := INVALID_SOCKET_HANDLE, connected := False,
                       recvBuffer := buffer_clear (recvBuffer conn),
                       receiveQueue := queue_clear (receiveQueue conn), sendBuffer := []\<rparr>
      in case notify_keeping_iterators cb pid Disconnected (set_peer pid conn1 m1) of
           Inl f \<Rightarrow> Inl f
         | Inr m2 \<Rightarrow>
             (case peer_at m2 pid of
                None \<Rightarrow> Inl IteratorInvalidated
              | Some conn2 \<Rightarrow>
                  if autoReconnect conn2
                  then case nowMs net m2 of (now, m3) \<Rightarrow>
                         Inr (set_peer pid (conn2\<lparr>reconnectAttempt := 0,
                           nextReconnectAtMs := now + ucast (reconnectBaseDelayMs conn2)\<rparr>) m3)
                  else Inr (m2\<lparr>m_connections := um_erase pid (m_connections m2)\<rparr>)))"

definition manager_disconnect ::
    "net \<Rightarrow> 'a manager_scheme callback \<Rightarrow> P2PPeerID \<Rightarrow> 'a manager_scheme
      \<Rightarrow> client_fault + 'a manager_scheme" where
  "manager_disconnect net cb pid m =
     (case peer_at m pid of
        None \<Rightarrow> Inr m
      | Some conn \<Rightarrow> drop_connection net cb pid conn m)"


section \<open>Packets\<close>

text \<open>\<open>dat\<close> is \<open>None\<close> for a null pointer.\<close>

definition sendPacket ::
    "net \<Rightarrow> P2PPeerID \<Rightarrow> bytes option \<Rightarrow> u32 \<Rightarrow> 'a manager_scheme \<Rightarrow> bool \<times> 'a manager_scheme" where
  "sendPacket net pid dat sz m =
     (case dat of
        None \<Rightarrow> (False, m)
      | Some bs \<Rightarrow>
          if sz = 0 then (False, m)
          else
            (case peer_at m pid of
               None \<Rightarrow> (False, m)
             | Some conn \<Rightarrow>
                 if \<not> connected conn then (False, m)
                 else
                   let fr = createSendFrame bs sz
                   in (case net_send_call net (socket conn) fr m of
                         (Inl err, m1) \<Rightarrow>
                           if wouldBlock err
                           then (True, set_peer pid (conn\<lparr>sendBuffer := sendBuffer conn @ fr\<rparr>) m1)
                           else (False, push_pending pid (set_peer pid (conn\<lparr>connected := False\<rparr>) m1))
                       | (Inr sent, m1) \<Rightarrow>
                           if sent < length fr
                           then (True, set_peer pid
                                         (conn\<lparr>sendBuffer := sendBuffer conn @ drop sent fr\<rparr>) m1)
                           else (True, m1))))"

text \<open>The first peer, in iteration order, with a packet in its queue.\<close>

fun first_available :: "(P2PPeerID, ClientConnection) umap \<Rightarrow> (u32 \<times> P2PPeerID) option" where
  "first_available [] = None"
| "first_available ((pid, conn) # rest) =
     (case peek (receiveQueue conn) 0 of
        (True, sz) \<Rightarrow> Some (sz, pid)
      | (False, _) \<Rightarrow> first_available rest)"

definition isPacketAvailable :: "P2PPeerID \<Rightarrow> 'a manager_scheme \<Rightarrow> (u32 \<times> P2PPeerID) option" where
  "isPacketAvailable pid m =
     (if pid \<noteq> P2P_INVALID_PEER_ID then
        (case peer_at m pid of
           None \<Rightarrow> None
         | Some conn \<Rightarrow>
             (case peek (receiveQueue conn) 0 of
                (True, sz) \<Rightarrow> Some (sz, pid)
              | (False, _) \<Rightarrow> None))
      else first_available (m_connections m))"

text \<open>
  \<open>readPacket\<close>: \<open>buffer\<close> is \<open>None\<close> for a null pointer.  On success the result is the new contents
  of the buffer, the size read and the peer it came from.
\<close>

definition readPacket ::
    "P2PPeerID \<Rightarrow> bytes option \<Rightarrow> u32 \<Rightarrow> 'a manager_scheme
      \<Rightarrow> (bytes \<times> u32 \<times> P2PPeerID) option \<times> 'a manager_scheme" where
  "readPacket pid buffer bufferSize m =
     (case buffer of
        None \<Rightarrow> (None, m)
      | Some buf \<Rightarrow>
          if bufferSize = 0 then (None, m)
          else
            let source = (if pid \<noteq> P2P_INVALID_PEER_ID then Some pid
                          else map_option snd (first_available (m_connections m)))
            in (case source of
                  None \<Rightarrow> (None, m)
                | Some sourcePeerID \<Rightarrow>
                    (case peer_at m sourcePeerID of
                       None \<Rightarrow> (None, m)
                     | Some conn \<Rightarrow>
                         (case pop (receiveQueue conn) (Packet_of [] 0) of
                            (False, _, _) \<Rightarrow> (None, m)
                          | (True, packet, q) \<Rightarrow>
                              let m1 = set_peer sourcePeerID (conn\<lparr>receiveQueue := q\<rparr>) m
                              in if Packet_size packet > bufferSize then (None, m1)
                                 else (Some (memcpy_at 0 (pkt_data packet) buf, Packet_size packet,
                                             sourcePeerID), m1)))))"


definition getPeerCount :: "'a manager_scheme \<Rightarrow> u32" where
  "getPeerCount m = word_of_nat (um_size (m_connections m))"

fun collect_connected ::
    "(P2PPeerID, ClientConnection) umap \<Rightarrow> u32 \<Rightarrow> P2PPeerID list \<Rightarrow> P2PPeerID list" where
  "collect_connected [] maxCount out = out"
| "collect_connected ((pid, conn) # rest) maxCount out =
     collect_connected rest maxCount
       (if connected conn \<and> length out < unat maxCount then out @ [pid] else out)"

text \<open>
  The identifiers written to \<open>outPeerIDs\<close>; their number is the return value.  \<open>out\<close> tells whether
  the array pointer is not null.
\<close>

definition getConnectedPeers :: "bool \<Rightarrow> u32 \<Rightarrow> 'a manager_scheme \<Rightarrow> P2PPeerID list" where
  "getConnectedPeers out maxCount m =
     (if \<not> out \<or> maxCount = 0 then [] else collect_connected (m_connections m) maxCount [])"


section \<open>Polling\<close>

partial_function (option) accept_loop ::
    "net \<Rightarrow> 'a manager_scheme callback \<Rightarrow> 'a manager_scheme \<Rightarrow> 'a manager_scheme option" where
  "accept_loop net cb m =
     (let r = net_accept net (net_hist m) (m_listenSocket m);
          m1 = log_call (NAccept (m_listenSocket m) r) m
      in case r of (clientSocket, ip, port) \<Rightarrow>
           if clientSocket = INVALID_SOCKET_HANDLE then Some m1
           else
             let m2 = setNoDelay net clientSocket (setNonBlocking net clientSocket m1)
             in accept_loop net cb (snd (add_peer cb clientSocket ip port m2)))"

definition acceptNewConnections ::
    "net \<Rightarrow> 'a manager_scheme callback \<Rightarrow> 'a manager_scheme \<Rightarrow> 'a manager_scheme option" where
  "acceptNewConnections net cb m =
     (if m_listenSocket m = INVALID_SOCKET_HANDLE then Some m else accept_loop net cb m)"

definition mark_broken :: "P2PPeerID \<Rightarrow> ClientConnection \<Rightarrow> 'a manager_scheme \<Rightarrow> 'a manager_scheme" where
  "mark_broken pid conn m = push_pending (peerID conn) (set_peer pid (conn\<lparr>connected := False\<rparr>) m)"

partial_function (option) processRead ::
    "net \<Rightarrow> P2PPeerID \<Rightarrow> 'a manager_scheme \<Rightarrow> 'a manager_scheme option" where
  "processRead net pid m =
     (case peer_at m pid of
        None \<Rightarrow> Some m
      | Some conn \<Rightarrow>
          (case net_recv_call net (socket conn) m of
             (r, m1) \<Rightarrow>
               (case r of
                  Inl err \<Rightarrow> if wouldBlock err then Some m1 else Some (mark_broken pid conn m1)
                | Inr bs \<Rightarrow>
                    if bs = [] then Some (mark_broken pid conn m1)
                    else
                      let rb = append_bytes bs (word_of_nat (length bs)) (recvBuffer conn)
                      in case parse_packets rb (Packet_of [] 0) (receiveQueue conn) of
                           (rb', q) \<Rightarrow>
                             processRead net pid
                               (set_peer pid (conn\<lparr>recvBuffer := rb', receiveQueue := q\<rparr>) m1))))"

definition processWrite :: "net \<Rightarrow> P2PPeerID \<Rightarrow> 'a manager_scheme \<Rightarrow> 'a manager_scheme" where
  "processWrite net pid m =
     (case peer_at m pid of
        None \<Rightarrow> m
      | Some conn \<Rightarrow>
          if sendBuffer conn = [] then m
          else
            (case net_send_call net (socket conn) (sendBuffer conn) m of
               (Inr sent, m1) \<Rightarrow>
                 if sent > 0 then set_peer pid (conn\<lparr>sendBuffer := drop sent (sendBuffer conn)\<rparr>) m1
                 else m1
             | (Inl err, m1) \<Rightarrow> if \<not> wouldBlock err then mark_broken pid conn m1 else m1))"

text \<open>
  The loop of \<open>removeDisconnected\<close> over the sorted list without duplicates.  \<open>pids\<close> is what the iterator
  into \<open>m_pendingRemove\<close> has still before it; a callback that makes \<open>sendPacket\<close> append to that vector,
  or has it cleared, invalidates the iterator.
\<close>

fun remove_peers ::
    "net \<Rightarrow> 'a manager_scheme callback \<Rightarrow> P2PPeerID list \<Rightarrow> 'a manager_scheme
      \<Rightarrow> client_fault + 'a manager_scheme" where
  "remove_peers net cb [] m = Inr m"
| "remove_peers net cb (pid # pids) m =
     (case (case peer_at m pid of
              None \<Rightarrow> Inr m
            | Some conn \<Rightarrow> drop_connection net cb pid conn m) of
        Inl f \<Rightarrow> Inl f
      | Inr m1 \<Rightarrow>
          if m_pendingRemove m1 = m_pendingRemove m then remove_peers net cb pids m1
          else Inl IteratorInvalidated)"

definition removeDisconnected ::
    "net \<Rightarrow> 'a manager_scheme callback \<Rightarrow> 'a manager_scheme \<Rightarrow> client_fault + 'a manager_scheme" where
  "removeDisconnected net cb m =
     (let pids = remdups_adj (sort (m_pendingRemove m))
      in case remove_peers net cb pids (m\<lparr>m_pendingRemove := pids\<rparr>) of
           Inl f \<Rightarrow> Inl f
         | Inr m1 \<Rightarrow> Inr (m1\<lparr>m_pendingRemove := []\<rparr>))"

text \<open>The delay after failed attempt number \<open>attempt\<close>, in milliseconds.\<close>

fun backoff_loop :: "nat \<Rightarrow> u64 \<Rightarrow> u32 \<Rightarrow> u64" where
  "backoff_loop 0 delay maxDelay = delay"
| "backoff_loop (Suc i) delay maxDelay =
     (let doubled = delay * 2
      in if doubled \<ge> ucast maxDelay then ucast maxDelay else backoff_loop i doubled maxDelay)"

definition reconnect_peer ::
    "net \<Rightarrow> 'a manager_scheme callback \<Rightarrow> u64 \<Rightarrow> P2PPeerID \<Rightarrow> 'a manager_scheme
      \<Rightarrow> client_fault + 'a manager_scheme" where
  "reconnect_peer net cb now pid m =
     (case peer_at m pid of
        None \<Rightarrow> Inr m
      | Some conn \<Rightarrow>
          if \<not> autoReconnect conn then Inr m
          else if connected conn then Inr m
          else if remoteIP conn = [] \<or> remotePort conn = 0 then Inr m
          else if nextReconnectAtMs conn = 0 \<or> now < nextReconnectAtMs conn then Inr m
          else
            (case connectWithTimeout net (Some (remoteIP conn)) (remotePort conn) 2000 m of
               (sock, m1) \<Rightarrow>
                 if sock \<noteq> INVALID_SOCKET_HANDLE
                 then notify_keeping_iterators cb pid Connected
                        (set_peer pid (conn\<lparr>socket := sock, connected := True,
                           reconnectAttempt := 0, nextReconnectAtMs := 0\<rparr>) m1)
                 else
                   let attempt = reconnectAttempt conn;
                       delay = backoff_loop (unat attempt) (ucast (reconnectBaseDelayMs conn))
                                 (reconnectMaxDelayMs conn)
                   in Inr (set_peer pid
                        (conn\<lparr>reconnectAttempt := (if attempt = -1 then attempt else attempt + 1),
                              nextReconnectAtMs := now + delay\<rparr>) m1)))"

fun reconnect_peers ::
    "net \<Rightarrow> 'a manager_scheme callback \<Rightarrow> u64 \<Rightarrow> P2PPeerID list \<Rightarrow> 'a manager_scheme
      \<Rightarrow> client_fault + 'a manager_scheme" where
  "reconnect_peers net cb now [] m = Inr m"
| "reconnect_peers net cb now (pid # pids) m =
     (case reconnect_peer net cb now pid m of
        Inl f \<Rightarrow> Inl f
      | Inr m1 \<Rightarrow> reconnect_peers net cb now pids m1)"

definition attemptReconnects ::
    "net \<Rightarrow> 'a manager_scheme callback \<Rightarrow> 'a manager_scheme \<Rightarrow> client_fault + 'a manager_scheme" where
  "attemptReconnects net cb m =
     (case nowMs net m of
        (now, m1) \<Rightarrow> reconnect_peers net cb now (map fst (m_connections m1)) m1)"

text \<open>
  The sockets that \<open>processEvents\<close> polls: all that are up, and those with bytes to send.  An \<open>fd_set\<close> of
  Winsock is an array of 64 sockets; \<open>FD_SET\<close> ignores a socket that is in it already or does not fit.
\<close>

definition FD_SETSIZE :: nat where "FD_SETSIZE = 64"

definition FD_SET :: "SocketHandle \<Rightarrow> SocketHandle list \<Rightarrow> SocketHandle list" where
  "FD_SET s fds = (if s \<in> set fds \<or> length fds \<ge> FD_SETSIZE then fds else fds @ [s])"

definition polled :: "ClientConnection \<Rightarrow> bool" where
  "polled conn \<longleftrightarrow> socket conn \<noteq> INVALID_SOCKET_HANDLE \<and> connected conn"

definition readSet :: "'a manager_scheme \<Rightarrow> SocketHandle list" where
  "readSet m =
     foldl (\<lambda>fds e. if polled (snd e) then FD_SET (socket (snd e)) fds else fds) [] (m_connections m)"

definition writeSet :: "'a manager_scheme \<Rightarrow> SocketHandle list" where
  "writeSet m =
     foldl (\<lambda>fds e. if polled (snd e) \<and> sendBuffer (snd e) \<noteq> [] then FD_SET (socket (snd e)) fds else fds)
       [] (m_connections m)"

definition maxFd :: "'a manager_scheme \<Rightarrow> SocketHandle" where
  "maxFd m = foldl (\<lambda>x e. if polled (snd e) then max x (socket (snd e)) else x) 0 (m_connections m)"

fun process_peers ::
    "net \<Rightarrow> SocketHandle list \<times> SocketHandle list \<times> SocketHandle list \<Rightarrow> P2PPeerID list
      \<Rightarrow> 'a manager_scheme \<Rightarrow> 'a manager_scheme option" where
  "process_peers net ready [] m = Some m"
| "process_peers net ready (pid # pids) m =
     (case (case peer_at m pid of
              None \<Rightarrow> Some m
            | Some conn \<Rightarrow>
                (case ready of (readable, writable, exceptional) \<Rightarrow>
                   if \<not> polled conn then Some m
                   else if socket conn \<in> set exceptional
                   then Some (push_pending pid (set_peer pid (conn\<lparr>connected := False\<rparr>) m))
                   else
                     (case (if socket conn \<in> set readable then processRead net pid m else Some m) of
                        None \<Rightarrow> None
                      | Some m1 \<Rightarrow>
                          Some (if socket conn \<in> set writable then processWrite net pid m1 else m1)))) of
        None \<Rightarrow> None
      | Some m1 \<Rightarrow> process_peers net ready pids m1)"

text \<open>The exception set has the same sockets as the set for reading.\<close>

definition poll_sockets :: "net \<Rightarrow> 'a manager_scheme \<Rightarrow> 'a manager_scheme option" where
  "poll_sockets net m =
     (if maxFd m = 0 then Some m
      else
        let r = net_select net (net_hist m) (readSet m) (writeSet m);
            m1 = log_call (NSelect (readSet m) (writeSet m)) m
        in (case r of
              None \<Rightarrow> Some m1
            | Some ready \<Rightarrow> process_peers net ready (map fst (m_connections m1)) m1))"

definition processEvents ::
    "net \<Rightarrow> 'a manager_scheme callback \<Rightarrow> 'a manager_scheme \<Rightarrow> (client_fault + 'a manager_scheme) option" where
  "processEvents net cb m =
     (if \<not> m_initialized m then Some (Inr m)
      else
        (case attemptReconnects net cb m of
           Inl f \<Rightarrow> Some (Inl f)
         | Inr m1 \<Rightarrow>
             (case acceptNewConnections net cb m1 of
                None \<Rightarrow> None
              | Some m2 \<Rightarrow>
                  (case poll_sockets net m2 of
                     None \<Rightarrow> None
                   | Some m3 \<Rightarrow>
                       Some (case removeDisconnected net cb m3 of
                               Inl f \<Rightarrow> Inl f
                             | Inr m4 \<Rightarrow> attemptReconnects net cb m4)))))"

end
