(* ===== verification/Client_Streams.thy ===== *)
theory Client_Streams
  imports Connection_Manager
begin

text \<open>
  The byte streams of a peer connection: what \<open>sendPacket\<close> and \<open>processWrite\<close> put on the wire,
  what \<open>processRead\<close> makes of the bytes that arrive, and the delays between two attempts to
  reconnect.
\<close>

section \<open>Basic facts\<close>

lemma peer_simps [simp]:
  "peer_at (set_peer pid c m) j = (if j = pid then Some c else peer_at m j)"
  "net_hist (set_peer pid c m) = net_hist m"
  "m_pendingRemove (set_peer pid c m) = m_pendingRemove m"
  "m_initialized (set_peer pid c m) = m_initialized m"
  "m_listenSocket (set_peer pid c m) = m_listenSocket m"
  "m_connectionCallback (set_peer pid c m) = m_connectionCallback m"
  by (simp_all add: set_peer_def)

lemma log_call_simps [simp]:
  "m_connections (log_call e m) = m_connections m"
  "net_hist (log_call e m) = e # net_hist m"
  "m_pendingRemove (log_call e m) = m_pendingRemove m"
  "m_initialized (log_call e m) = m_initialized m"
  "m_listenSocket (log_call e m) = m_listenSocket m"
  "m_connectionCallback (log_call e m) = m_connectionCallback m"
  by (simp_all add: log_call_def)

lemma push_pending_simps [simp]:
  "m_connections (push_pending p m) = m_connections m"
  "net_hist (push_pending p m) = net_hist m"
  "m_pendingRemove (push_pending p m) = m_pendingRemove m @ [p]"
  "m_initialized (push_pending p m) = m_initialized m"
  "m_listenSocket (push_pending p m) = m_listenSocket m"
  by (simp_all add: push_pending_def)

lemma closeSocket_simps [simp]:
  "m_connections (closeSocket s m) = m_connections m"
  "m_pendingRemove (closeSocket s m) = m_pendingRemove m"
  "m_initialized (closeSocket s m) = m_initialized m"
  "m_listenSocket (closeSocket s m) = m_listenSocket m"
  "m_connectionCallback (closeSocket s m) = m_connectionCallback m"
  by (simp_all add: closeSocket_def)

lemma mark_broken_simps [simp]:
  "peer_at (mark_broken pid c m) j = (if j = pid then Some (c\<lparr>connected := False\<rparr>) else peer_at m j)"
  "net_hist (mark_broken pid c m) = net_hist m"
  by (simp_all add: mark_broken_def)

lemma send_call_eq: "net_send_call net s buf m =
    (net_send net (net_hist m) s buf, log_call (NSend s buf (net_send net (net_hist m) s buf)) m)"
  by (simp add: net_send_call_def Let_def)

lemma recv_call_eq: "net_recv_call net s m =
    (net_recv net (net_hist m) s RECV_BUFFER_SIZE,
     log_call (NRecv s (net_recv net (net_hist m) s RECV_BUFFER_SIZE)) m)"
  by (simp add: net_recv_call_def Let_def)


section \<open>Sending\<close>

text \<open>The stream of a peer: what the network took of it, and what still waits.\<close>

definition out_stream :: "'a manager_scheme \<Rightarrow> ClientConnection \<Rightarrow> bytes" where
  "out_stream m conn = net_sent (socket conn) (net_hist m) @ sendBuffer conn"

lemma sendPacket_stream:
  assumes conn: "peer_at m pid = Some conn" and sz: "unat sz = length bs"
    and res: "sendPacket net pid (Some bs) sz m = (True, m')"
    and free: "sendBuffer conn = [] \<or> (\<exists>e. net_send net (net_hist m) (socket conn) (frame bs) = Inl e)"
  shows "\<exists>conn'. peer_at m' pid = Some conn' \<and> socket conn' = socket conn \<and>
     out_stream m' conn' = out_stream m conn @ frame bs"
proof -
  have fr: "createSendFrame bs sz = frame bs" using sz by (rule createSendFrame_frame)
  let ?r = "net_send net (net_hist m) (socket conn) (frame bs)"
  show ?thesis
  proof (cases ?r)
    case (Inl e)
    then show ?thesis
      using res conn
      by (auto simp: sendPacket_def send_call_eq fr out_stream_def Let_def split: if_splits)
  next
    case (Inr n)
    then show ?thesis
      using res conn free
      by (auto simp: sendPacket_def send_call_eq fr out_stream_def Let_def split: if_splits)
  qed
qed

lemma processWrite_stream:
  assumes "peer_at m pid = Some conn"
  shows "\<exists>conn'. peer_at (processWrite net pid m) pid = Some conn' \<and> socket conn' = socket conn \<and>
     out_stream (processWrite net pid m) conn' = out_stream m conn"
  using assms
  by (cases "net_send net (net_hist m) (socket conn) (sendBuffer conn)")
    (auto simp: processWrite_def send_call_eq out_stream_def)


section \<open>Receiving\<close>

definition received_packets :: "bytes list \<Rightarrow> Packet list" where
  "received_packets ps = map (\<lambda>p. \<lparr>pkt_data = p\<rparr>) ps"

text \<open>One piece of input, as the parser state before and after it.\<close>

lemma parse_piece:
  assumes "length bs < 2 ^ 32"
  shows "parse_packets (append_bytes bs (word_of_nat (length bs)) rb) pk q =
     (\<lparr>m_buffer = snd (rx.feed (xs, m_buffer rb) bs)\<rparr>,
      \<lparr>m_queue = m_queue q @ received_packets (fst (client_drain (m_buffer rb @ bs)))\<rparr>)"
  using assms
  by (simp add: parse_packets_eq append_bytes_def rx.feed_def received_packets_def unat_of_nat)

text \<open>
  What one call of \<open>processRead\<close> does to its peer: some pieces of input arrive and are parsed one
  after the other.
\<close>

definition reads_pieces :: "P2PPeerID \<Rightarrow> 'a manager_scheme \<Rightarrow> 'a manager_scheme \<Rightarrow> bool" where
  "reads_pieces pid m m' \<longleftrightarrow> (\<forall>conn. peer_at m pid = Some conn \<longrightarrow>
     (\<exists>conn' pieces. peer_at m' pid = Some conn' \<and> socket conn' = socket conn \<and>
        net_received (socket conn) (net_hist m') = net_received (socket conn) (net_hist m) @ concat pieces \<and>
        m_queue (receiveQueue conn') = m_queue (receiveQueue conn) @
          received_packets (fst (foldl rx.feed ([], m_buffer (recvBuffer conn)) pieces)) \<and>
        m_buffer (recvBuffer conn') = snd (foldl rx.feed ([], m_buffer (recvBuffer conn)) pieces)))"

lemma reads_nothing:
  assumes "peer_at m pid = Some conn" and "peer_at m' pid = Some conn'"
    and "socket conn' = socket conn" "receiveQueue conn' = receiveQueue conn" "recvBuffer conn' = recvBuffer conn"
    and "net_received (socket conn) (net_hist m') = net_received (socket conn) (net_hist m)"
  shows "reads_pieces pid m m'"
  using assms by (auto simp: reads_pieces_def received_packets_def intro!: exI [of _ "[]"])

lemma reads_one_more:
  assumes conn: "peer_at m pid = Some conn" and len: "length bs < 2 ^ 32"
    and rp: "parse_packets (append_bytes bs (word_of_nat (length bs)) (recvBuffer conn)) pk (receiveQueue conn) = (rb, q)"
    and rest: "reads_pieces pid
       (set_peer pid (conn\<lparr>recvBuffer := rb, receiveQueue := q\<rparr>) (log_call (NRecv (socket conn) (Inr bs)) m)) m'"
  shows "reads_pieces pid m m'"
proof -
  let ?u = "m_buffer (recvBuffer conn)"
  have rb: "m_buffer rb = snd (rx.feed ([], ?u) bs)"
    and q: "m_queue q = m_queue (receiveQueue conn) @ received_packets (fst (rx.feed ([], ?u) bs))"
    using rp parse_piece [OF len, of "recvBuffer conn" pk "receiveQueue conn" "[]"]
    by (auto simp: rx.feed_def)
  obtain conn' pieces where c': "peer_at m' pid = Some conn'" "socket conn' = socket conn"
    "net_received (socket conn) (net_hist m') = net_received (socket conn) (net_hist m) @ bs @ concat pieces"
    "m_queue (receiveQueue conn') = m_queue q @ received_packets (fst (foldl rx.feed ([], m_buffer rb) pieces))"
    "m_buffer (recvBuffer conn') = snd (foldl rx.feed ([], m_buffer rb) pieces)"
    using rest by (auto simp: reads_pieces_def)
  have "foldl rx.feed ([], ?u) (bs # pieces) =
      (fst (rx.feed ([], ?u) bs) @ fst (foldl rx.feed ([], m_buffer rb) pieces),
       snd (foldl rx.feed ([], m_buffer rb) pieces))"
    using rx.foldl_feed_shift [of "fst (rx.feed ([], ?u) bs)" "m_buffer rb" pieces] rb by simp
  then show ?thesis
    using c' q conn unfolding reads_pieces_def
    by (intro allI impI exI [of _ conn'] exI [of _ "bs # pieces"]) (auto simp: received_packets_def)
qed

lemma processRead_pieces:
  assumes ret: "processRead net pid m = Some m'" and bnd: "net_recv_bounded net"
  shows "reads_pieces pid m m'"
proof -
  have "net_recv_bounded net \<longrightarrow> reads_pieces pid m m'"
  proof (rule processRead.raw_induct
      [where P = "\<lambda>net pid m m'. net_recv_bounded net \<longrightarrow> reads_pieces pid m m'", OF _ ret], intro impI)
    fix f net pid m m'
    assume IH: "\<And>net pid m m'. f net pid m = Some m' \<Longrightarrow> net_recv_bounded net \<longrightarrow> reads_pieces pid m m'"
      and bnd: "net_recv_bounded net"
      and eq: "(case peer_at m pid of None \<Rightarrow> Some m
         | Some conn \<Rightarrow> (case net_recv_call net (socket conn) m of (r, m1) \<Rightarrow>
             (case r of Inl err \<Rightarrow> if wouldBlock err then Some m1 else Some (mark_broken pid conn m1)
              | Inr bs \<Rightarrow> if bs = [] then Some (mark_broken pid conn m1)
                else let rb = append_bytes bs (word_of_nat (length bs)) (recvBuffer conn)
                  in case parse_packets rb (Packet_of [] 0) (receiveQueue conn) of (rb', q) \<Rightarrow>
                    f net pid (set_peer pid (conn\<lparr>recvBuffer := rb', receiveQueue := q\<rparr>) m1)))) = Some m'"
    show "reads_pieces pid m m'"
    proof (cases "peer_at m pid")
      case None
      then show ?thesis by (simp add: reads_pieces_def)
    next
      case (Some conn)
      let ?r = "net_recv net (net_hist m) (socket conn) RECV_BUFFER_SIZE"
      show ?thesis
      proof (cases "isl ?r \<or> ?r = Inr []")
        case True
        then show ?thesis
          using eq Some
          by (auto simp: recv_call_eq split: sum.splits if_splits intro!: reads_nothing [OF Some])
      next
        case False
        then obtain bs where r: "?r = Inr bs" "bs \<noteq> []" by (cases ?r) auto
        then have "length bs \<le> RECV_BUFFER_SIZE" using bnd unfolding net_recv_bounded_def by blast
        then have len: "length bs < 2 ^ 32" by (simp add: RECV_BUFFER_SIZE_def)
        obtain rb q where rp: "parse_packets (append_bytes bs (word_of_nat (length bs)) (recvBuffer conn))
            (Packet_of [] 0) (receiveQueue conn) = (rb, q)"
          by (cases "parse_packets (append_bytes bs (word_of_nat (length bs)) (recvBuffer conn))
            (Packet_of [] 0) (receiveQueue conn)")
        have "reads_pieces pid (set_peer pid (conn\<lparr>recvBuffer := rb, receiveQueue := q\<rparr>)
            (log_call (NRecv (socket conn) (Inr bs)) m)) m'"
          using eq Some r rp bnd by (intro IH [rule_format, of net]) (simp_all add: recv_call_eq)
        then show ?thesis by (rule reads_one_more [OF Some len rp])
      qed
    qed
  qed
  then show ?thesis using bnd by blast
qed

text \<open>The packets of the stream are queued, whatever the pieces.\<close>

lemma processRead_stream:
  assumes "net_recv_bounded net" and "peer_at m pid = Some conn" and "processRead net pid m = Some m'"
    and "net_received (socket conn) (net_hist m') = net_received (socket conn) (net_hist m) @ bs"
    and "m_buffer (recvBuffer conn) @ bs = concat (map frame ps) @ t"
    and "\<forall>p \<in> set ps. client_payload p" and "partial_frame t" and "partial_frame (m_buffer (recvBuffer conn))"
  shows "\<exists>conn'. peer_at m' pid = Some conn' \<and>
     m_queue (receiveQueue conn') = m_queue (receiveQueue conn) @ map (\<lambda>p. \<lparr>pkt_data = p\<rparr>) ps \<and>
     m_buffer (recvBuffer conn') = t"
proof -
  obtain conn' pieces where c': "peer_at m' pid = Some conn'"
    "net_received (socket conn) (net_hist m') = net_received (socket conn) (net_hist m) @ concat pieces"
    "m_queue (receiveQueue conn') = m_queue (receiveQueue conn) @
       received_packets (fst (foldl rx.feed ([], m_buffer (recvBuffer conn)) pieces))"
    "m_buffer (recvBuffer conn') = snd (foldl rx.feed ([], m_buffer (recvBuffer conn)) pieces)"
    using processRead_pieces [OF assms(3,1)] assms(2) by (auto simp: reads_pieces_def)
  then have "foldl rx.feed ([], m_buffer (recvBuffer conn)) pieces = (ps, t)"
    using rx.feed_chunks_from [of "m_buffer (recvBuffer conn)" ps t pieces] assms(4-8)
    by (simp add: partial_frame_rx)
  then show ?thesis using c' by (simp add: received_packets_def)
qed

text \<open>Reading comes to an end when the network has finitely many bytes for the socket.\<close>

lemma processRead_returns:
  assumes "net_recv_finite net"
  shows "\<exists>m'. processRead net pid m = Some m'"
proof -
  obtain pending :: "net_history \<Rightarrow> nat" where pending: "\<And>h s n bs.
      net_recv net h s n = Inr bs \<Longrightarrow> bs \<noteq> [] \<Longrightarrow> pending (NRecv s (Inr bs) # h) < pending h"
    using assms unfolding net_recv_finite_def by blast
  show ?thesis
  proof (induction "pending (net_hist m)" arbitrary: m rule: less_induct)
    case less
    show ?case
    proof (cases "peer_at m pid")
      case None
      then show ?thesis by (simp add: processRead.simps)
    next
      case (Some conn)
      let ?r = "net_recv net (net_hist m) (socket conn) RECV_BUFFER_SIZE"
      show ?thesis
      proof (cases "isl ?r \<or> ?r = Inr []")
        case True
        then show ?thesis
          using Some by (subst processRead.simps) (auto simp: recv_call_eq split: sum.splits)
      next
        case False
        then obtain bs where r: "?r = Inr bs" "bs \<noteq> []" by (cases ?r) auto
        let ?p = "parse_packets (append_bytes bs (word_of_nat (length bs)) (recvBuffer conn))
          (Packet_of [] 0) (receiveQueue conn)"
        let ?m = "set_peer pid (conn\<lparr>recvBuffer := fst ?p, receiveQueue := snd ?p\<rparr>)
          (log_call (NRecv (socket conn) (Inr bs)) m)"
        have "\<exists>m'. processRead net pid ?m = Some m'" using pending [OF r] by (intro less) simp
        then show ?thesis
          using Some r by (subst processRead.simps) (simp add: recv_call_eq case_prod_beta Let_def)
      qed
    qed
  qed
qed


section \<open>Reconnecting\<close>

lemma unat_ucast_u64: "unat (ucast (x :: u32) :: u64) = unat x"
  using unat_bound [of x] by (simp add: unsigned_ucast_eq take_bit_nat_eq_self)

lemma backoff_loop_Suc:
  assumes "d < 2 ^ 32"
  shows "backoff_loop (Suc n) (word_of_nat d) mx =
     (if unat mx \<le> 2 * d then ucast mx else backoff_loop n (word_of_nat (2 * d)) mx)"
proof -
  have "word_of_nat d * 2 = (word_of_nat (2 * d) :: u64)" by simp
  moreover have "unat (word_of_nat (2 * d) :: u64) = 2 * d"
    using assms by (simp only: unat_of_nat) simp
  ultimately show ?thesis
    by (simp only: backoff_loop.simps Let_def word_le_nat_alt unat_ucast_u64)
qed

lemma backoff_loop_nat:
  assumes "d < 2 ^ 32"
  shows "unat (backoff_loop n (word_of_nat d) mx) = (if n = 0 then d else min (d * 2 ^ n) (unat mx))"
  using assms
proof (induction n arbitrary: d)
  case 0
  then show ?case by (simp add: unat_of_nat)
next
  case (Suc n)
  show ?case
  proof (cases "unat mx \<le> 2 * d")
    case True
    moreover have "2 * d \<le> d * 2 ^ Suc n" by simp
    ultimately have "min (d * 2 ^ Suc n) (unat mx) = unat mx" by (intro min_absorb2) (rule le_trans)
    then show ?thesis using True by (simp only: backoff_loop_Suc [OF Suc.prems] unat_ucast_u64 if_True) simp
  next
    case False
    then have "2 * d < 2 ^ 32" using unat_bound [of mx] by simp
    then have "unat (backoff_loop n (word_of_nat (2 * d)) mx) =
        (if n = 0 then 2 * d else min (2 * d * 2 ^ n) (unat mx))" by (rule Suc.IH)
    then show ?thesis
      using False by (simp only: backoff_loop_Suc [OF Suc.prems] if_False) (simp add: ac_simps)
  qed
qed

end
