(* ===== verification/P2P_Network.thy ===== *)
theory P2P_Network
  imports Client_Streams
begin

text \<open>
  The C interface of the client library (\<open>include/p2p_network.h\<close>, \<open>src/p2p_network.cpp\<close>): the
  global manager, the application's callback and one function per exported call with its result
  codes.  The state extends the manager's with the globals of \<open>p2p_network.cpp\<close>; \<open>g_manager\<close>
  tells whether the pointer is set.  The application's callback is the parameter \<open>user\<close>, a
  function on the whole state, so that it can call the library again.
\<close>

section \<open>State and results\<close>

datatype P2PResult =
    P2P_OK
  | P2P_ERROR_NOT_INITIALIZED
  | P2P_ERROR_ALREADY_INITIALIZED
  | P2P_ERROR_INVALID_PEER
  | P2P_ERROR_CONNECTION_FAILED
  | P2P_ERROR_SEND_FAILED
  | P2P_ERROR_BUFFER_TOO_SMALL
  | P2P_ERROR_NO_PACKET
  | P2P_ERROR_SOCKET_ERROR
  | P2P_ERROR_INVALID_PARAM
  | P2P_ERROR_LISTEN_FAILED

fun result_code :: "P2PResult \<Rightarrow> int" where
  "result_code P2P_OK = 0"
| "result_code P2P_ERROR_NOT_INITIALIZED = -1"
| "result_code P2P_ERROR_ALREADY_INITIALIZED = -2"
| "result_code P2P_ERROR_INVALID_PEER = -3"
| "result_code P2P_ERROR_CONNECTION_FAILED = -4"
| "result_code P2P_ERROR_SEND_FAILED = -5"
| "result_code P2P_ERROR_BUFFER_TOO_SMALL = -6"
| "result_code P2P_ERROR_NO_PACKET = -7"
| "result_code P2P_ERROR_SOCKET_ERROR = -8"
| "result_code P2P_ERROR_INVALID_PARAM = -9"
| "result_code P2P_ERROR_LISTEN_FAILED = -10"

record p2p = manager +
  g_manager :: bool
  g_userCallback :: bool
  g_userCallbackData :: int

type_synonym 'a user_callback = "P2PPeerID \<Rightarrow> bool \<Rightarrow> int \<Rightarrow> 'a p2p_scheme \<Rightarrow> 'a p2p_scheme"

definition p2p_start :: p2p where
  "p2p_start = manager.extend (manager_new [])
     (p2p.fields False False 0)"

definition internalConnectionCallback :: "'a user_callback \<Rightarrow> 'a p2p_scheme callback" where
  "internalConnectionCallback user pid event st =
     (if g_userCallback st then user pid (event = Connected) (g_userCallbackData st) st else st)"

text \<open>\<open>std::make_unique<ConnectionManager>()\<close>: a manager in its initial state.\<close>

definition make_manager :: "'a p2p_scheme \<Rightarrow> 'a p2p_scheme" where
  "make_manager st =
     (manager.extend (manager_new (net_hist st)) (manager.more st))\<lparr>g_manager := True\<rparr>"

definition usable :: "'a p2p_scheme \<Rightarrow> bool" where
  "usable st \<longleftrightarrow> g_manager st \<and> m_initialized st"


section \<open>The exported calls\<close>

definition P2P_Init :: "net \<Rightarrow> 'a p2p_scheme \<Rightarrow> P2PResult \<times> 'a p2p_scheme" where
  "P2P_Init net st =
     (if g_manager st then (P2P_ERROR_ALREADY_INITIALIZED, st)
      else
        (case initialize net (make_manager st) of
           (False, st1) \<Rightarrow> (P2P_ERROR_SOCKET_ERROR, st1\<lparr>g_manager := False\<rparr>)
         | (True, st1) \<Rightarrow> (P2P_OK, setConnectionCallback True st1)))"

definition P2P_Shutdown :: "'a p2p_scheme \<Rightarrow> 'a p2p_scheme" where
  "P2P_Shutdown st =
     (let st1 = (if g_manager st then (shutdown st)\<lparr>g_manager := False\<rparr> else st)
      in st1\<lparr>g_userCallback := False, g_userCallbackData := 0\<rparr>)"

definition P2P_Listen :: "net \<Rightarrow> u16 \<Rightarrow> 'a p2p_scheme \<Rightarrow> P2PResult \<times> 'a p2p_scheme" where
  "P2P_Listen net port st =
     (if \<not> usable st then (P2P_ERROR_NOT_INITIALIZED, st)
      else case manager_listen net port st of
             (False, st1) \<Rightarrow> (P2P_ERROR_LISTEN_FAILED, st1)
           | (True, st1) \<Rightarrow> (P2P_OK, st1))"

definition P2P_StopListen :: "'a p2p_scheme \<Rightarrow> 'a p2p_scheme" where
  "P2P_StopListen st = (if g_manager st then stopListen st else st)"

text \<open>\<open>out\<close> tells whether the pointer for the result is not null.\<close>

definition P2P_Connect ::
    "net \<Rightarrow> 'a user_callback \<Rightarrow> string option \<Rightarrow> u16 \<Rightarrow> bool \<Rightarrow> 'a p2p_scheme
      \<Rightarrow> P2PResult \<times> P2PPeerID option \<times> 'a p2p_scheme" where
  "P2P_Connect net user ip port out st =
     (if \<not> usable st then (P2P_ERROR_NOT_INITIALIZED, None, st)
      else if ip = None \<or> \<not> out then (P2P_ERROR_INVALID_PARAM, None, st)
      else case manager_connect net (internalConnectionCallback user) ip port st of
             (None, st1) \<Rightarrow> (P2P_ERROR_CONNECTION_FAILED, None, st1)
           | (Some pid, st1) \<Rightarrow> (P2P_OK, Some pid, st1))"

definition P2P_SetAutoReconnect ::
    "P2PPeerID \<Rightarrow> bool \<Rightarrow> u32 \<Rightarrow> u32 \<Rightarrow> 'a p2p_scheme \<Rightarrow> 'a p2p_scheme" where
  "P2P_SetAutoReconnect pid enable baseDelayMs maxDelayMs st =
     (if \<not> usable st \<or> pid = P2P_INVALID_PEER_ID then st
      else setAutoReconnect pid enable baseDelayMs maxDelayMs st)"

definition P2P_Disconnect ::
    "net \<Rightarrow> 'a user_callback \<Rightarrow> P2PPeerID \<Rightarrow> 'a p2p_scheme \<Rightarrow> client_fault + 'a p2p_scheme" where
  "P2P_Disconnect net user pid st =
     (if g_manager st \<and> pid \<noteq> P2P_INVALID_PEER_ID
      then manager_disconnect net (internalConnectionCallback user) pid st
      else Inr st)"

definition P2P_SendPacket ::
    "net \<Rightarrow> P2PPeerID \<Rightarrow> bytes option \<Rightarrow> u32 \<Rightarrow> 'a p2p_scheme \<Rightarrow> P2PResult \<times> 'a p2p_scheme" where
  "P2P_SendPacket net pid dat sz st =
     (if \<not> usable st then (P2P_ERROR_NOT_INITIALIZED, st)
      else if pid = P2P_INVALID_PEER_ID then (P2P_ERROR_INVALID_PEER, st)
      else if dat = None \<or> sz = 0 then (P2P_ERROR_INVALID_PARAM, st)
      else case sendPacket net pid dat sz st of
             (False, st1) \<Rightarrow> (P2P_ERROR_SEND_FAILED, st1)
           | (True, st1) \<Rightarrow> (P2P_OK, st1))"

definition P2P_IsPacketAvailable :: "P2PPeerID \<Rightarrow> 'a p2p_scheme \<Rightarrow> (u32 \<times> P2PPeerID) option" where
  "P2P_IsPacketAvailable pid st = (if \<not> usable st then None else isPacketAvailable pid st)"

definition P2P_ReadPacket ::
    "P2PPeerID \<Rightarrow> bytes option \<Rightarrow> u32 \<Rightarrow> 'a p2p_scheme
      \<Rightarrow> P2PResult \<times> (bytes \<times> u32 \<times> P2PPeerID) option \<times> 'a p2p_scheme" where
  "P2P_ReadPacket pid buffer bufferSize st =
     (if \<not> usable st then (P2P_ERROR_NOT_INITIALIZED, None, st)
      else if buffer = None \<or> bufferSize = 0 then (P2P_ERROR_INVALID_PARAM, None, st)
      else
        (case isPacketAvailable pid st of
           None \<Rightarrow> (P2P_ERROR_NO_PACKET, None, st)
         | Some (packetSize, _) \<Rightarrow>
             if packetSize > bufferSize then (P2P_ERROR_BUFFER_TOO_SMALL, None, st)
             else
               (case readPacket pid buffer bufferSize st of
                  (None, st1) \<Rightarrow> (P2P_ERROR_NO_PACKET, None, st1)
                | (Some r, st1) \<Rightarrow> (P2P_OK, Some r, st1))))"

definition P2P_RunCallbacks ::
    "net \<Rightarrow> 'a user_callback \<Rightarrow> 'a p2p_scheme \<Rightarrow> (client_fault + 'a p2p_scheme) option" where
  "P2P_RunCallbacks net user st =
     (if usable st then processEvents net (internalConnectionCallback user) st else Some (Inr st))"

definition P2P_SetConnectionCallback :: "bool \<Rightarrow> int \<Rightarrow> 'a p2p_scheme \<Rightarrow> 'a p2p_scheme" where
  "P2P_SetConnectionCallback callback userData st =
     st\<lparr>g_userCallback := callback, g_userCallbackData := userData\<rparr>"

definition P2P_GetPeerCount :: "'a p2p_scheme \<Rightarrow> u32" where
  "P2P_GetPeerCount st = (if \<not> usable st then 0 else getPeerCount st)"

definition P2P_GetConnectedPeers :: "bool \<Rightarrow> u32 \<Rightarrow> 'a p2p_scheme \<Rightarrow> P2PPeerID list" where
  "P2P_GetConnectedPeers out maxCount st =
     (if \<not> usable st then [] else getConnectedPeers out maxCount st)"

end
