(* ===== verification/Hook.thy ===== *)
theory Hook
  imports P2P_Network C_Strings
begin

text \<open>
  The DLL inside the game (\<open>hook/hook.cpp\<close>): it replaces three entries of the virtual table of
  \<open>ISteamNetworking\<close> and sends the game's packets through the client library.

  The state extends that of the client library with the globals of \<open>hook.cpp\<close>, the memory of the
  game and the history of calls to Windows and to the original Steam functions.  These are the
  parameter \<open>host\<close>, which, like the network, answers each call with full knowledge of the history.
  The build is the 32-bit one, the only one the proxy DLL can be compiled for: memory is a function
  from addresses to 32-bit cells, pointers are addresses with 0 for null, and an array of pointers
  has one cell for every four addresses.  A pointer argument of the game is an option: \<open>None\<close> for
  null, \<open>Some\<close> of the bytes or the value it points to.

  Trace output has no effect on the state and is left out.
\<close>

section \<open>Windows and Steam\<close>

type_synonym CSteamID = u64
type_synonym address = u32
type_synonym memory = "address \<Rightarrow> u32"

datatype host_call =
    HIsP2PPacketAvailable address address "u32 option" int
  | HReadP2PPacket address address u32 int
  | HSendP2PPacket address address CSteamID "bytes option" u32 int int
  | HGetSteamID address address
  | HCreateThread address
  | HWaitForSingleObject address u32
  | HCloseHandle address
  | HNew address
  | HDelete address

type_synonym host_history = "host_call list"

text \<open>
  The first two arguments of a Steam function after the history are the address of the function and
  the object.  \<open>steam_IsP2PPacketAvailable\<close> answers with its result and the value it stores through a
  pointer that is not null, \<open>steam_ReadP2PPacket\<close> with the contents of the destination, the size and
  the sender.
  \<open>open_file\<close> is the text of a file as the stream delivers it, \<open>None\<close> if it cannot be opened.
\<close>

record host =
  steam_IsP2PPacketAvailable ::
    "host_history \<Rightarrow> address \<Rightarrow> address \<Rightarrow> u32 option \<Rightarrow> int \<Rightarrow> bool \<times> u32"
  steam_ReadP2PPacket :: "host_history \<Rightarrow> address \<Rightarrow> address \<Rightarrow> u32 \<Rightarrow> int \<Rightarrow> bytes \<times> u32 \<times> CSteamID"
  steam_SendP2PPacket ::
    "host_history \<Rightarrow> address \<Rightarrow> address \<Rightarrow> CSteamID \<Rightarrow> bytes option \<Rightarrow> u32 \<Rightarrow> int \<Rightarrow> int \<Rightarrow> bool"
  steam_GetSteamID :: "host_history \<Rightarrow> address \<Rightarrow> address \<Rightarrow> CSteamID"
  GetModuleHandle :: address
  GetModuleFileName :: string
  open_file :: "string \<Rightarrow> string option"
  CreateThread :: "host_history \<Rightarrow> address"
  operator_new :: "host_history \<Rightarrow> address"
  addr_Hook_SendP2PPacket :: address
  addr_Hook_IsP2PPacketAvailable :: address
  addr_Hook_ReadP2PPacket :: address


section \<open>State\<close>

definition VTABLE_OFFSET :: address where "VTABLE_OFFSET = 0x7F7778"
definition ISTEAMUSER_OFFSET :: address where "ISTEAMUSER_OFFSET = 0x7F7760"
definition VTABLE_SIZE :: nat where "VTABLE_SIZE = 48"
definition VTABLE_INDEX_SendP2PPacket :: nat where "VTABLE_INDEX_SendP2PPacket = 0"
definition VTABLE_INDEX_IsP2PPacketAvailable :: nat where "VTABLE_INDEX_IsP2PPacketAvailable = 1"
definition VTABLE_INDEX_ReadP2PPacket :: nat where "VTABLE_INDEX_ReadP2PPacket = 2"
definition VTABLE_INDEX_GetSteamID :: nat where "VTABLE_INDEX_GetSteamID = 2"

lemmas vtable_defs = VTABLE_OFFSET_def ISTEAMUSER_OFFSET_def VTABLE_SIZE_def
  VTABLE_INDEX_SendP2PPacket_def VTABLE_INDEX_IsP2PPacketAvailable_def VTABLE_INDEX_ReadP2PPacket_def
  VTABLE_INDEX_GetSteamID_def

record hook = p2p +
  g_pOriginalVTable :: address
  g_pNewVTable :: address
  g_strRemoteIP :: string
  g_nPort :: u16
  g_connectedPeer :: P2PPeerID
  g_stopPumpThread :: bool
  g_hPumpThread :: address
  g_originalReadData :: bytes
  g_originalReadSize :: u32
  g_originalReadSteamID :: CSteamID
  g_tcpRecvBuffer :: bytes
  g_hasTcpData :: bool
  g_tcpRecvSteamID :: CSteamID
  g_localSteamID :: CSteamID
  g_pObject :: address
  hInjectionThread :: address
  game_memory :: memory
  host_hist :: host_history

definition hook_start :: "memory \<Rightarrow> hook" where
  "hook_start mem =
     p2p.extend p2p_start
       (hook.fields 0 0 ''127.0.0.1'' 27015 P2P_INVALID_PEER_ID False 0 [] 0 0 [] False 0 0 0 0 mem [])"

datatype hook_fault =
    LibraryFault client_fault
  | BufferOverrun
  | UncaughtException conversion_error

definition log_host :: "host_call \<Rightarrow> hook \<Rightarrow> hook" where
  "log_host e st = st\<lparr>host_hist := e # host_hist st\<rparr>"

text \<open>The cell of entry \<open>i\<close> of an array of pointers at \<open>p\<close>.\<close>

definition cell :: "address \<Rightarrow> nat \<Rightarrow> address" where
  "cell p i = p + 4 * word_of_nat i"

text \<open>A \<open>CSteamID\<close> in memory, and the one that \<open>memcpy\<close> makes of eight bytes.\<close>

definition steam_id_bytes :: "CSteamID \<Rightarrow> bytes" where
  "steam_id_bytes sid = le_bytes 8 (unat sid)"

definition steam_id_of :: "bytes \<Rightarrow> CSteamID" where
  "steam_id_of bs = word_of_nat (le_nat (take 8 bs))"

text \<open>\<open>memcpy\<close> into a buffer; \<open>Inl BufferOverrun\<close> if the bytes do not fit.\<close>

definition copy_into :: "nat \<Rightarrow> bytes \<Rightarrow> bytes \<Rightarrow> hook_fault + bytes" where
  "copy_into off src buf =
     (if off + length src \<le> length buf then Inr (memcpy_at off src buf) else Inl BufferOverrun)"


section \<open>The configuration file\<close>

definition config_line :: "string \<Rightarrow> hook \<Rightarrow> conversion_error + hook" where
  "config_line raw st =
     (let line = (if raw \<noteq> [] \<and> last raw = carriage_return then butlast raw else raw)
      in if line = [] \<or> hd line = CHR ''#'' \<or> hd line = CHR '';'' then Inr st
         else if take 3 line = ''ip='' then Inr (st\<lparr>g_strRemoteIP := drop 3 line\<rparr>)
         else if take 5 line = ''port='' then
           (case stoi (drop 5 line) of
              Inl e \<Rightarrow> Inl e
            | Inr v \<Rightarrow> Inr (st\<lparr>g_nPort := word_of_int v\<rparr>))
         else Inr st)"

fun config_lines :: "string list \<Rightarrow> hook \<Rightarrow> conversion_error + hook" where
  "config_lines [] st = Inr st"
| "config_lines (l # ls) st =
     (case config_line l st of Inl e \<Rightarrow> Inl e | Inr st1 \<Rightarrow> config_lines ls st1)"

definition config_path :: "string \<Rightarrow> string" where
  "config_path dllPath =
     (case find_last (\<lambda>c. c = CHR 0x5C) dllPath of
        Some lastSlash \<Rightarrow> take (lastSlash + 1) dllPath @ ''p2p_config.txt''
      | None \<Rightarrow> ''p2p_config.txt'')"

definition LoadConfig :: "host \<Rightarrow> hook \<Rightarrow> conversion_error + bool \<times> hook" where
  "LoadConfig host st =
     (let file = (case open_file host (config_path (GetModuleFileName host)) of
                    Some text \<Rightarrow> Some text
                  | None \<Rightarrow> open_file host ''p2p_config.txt'')
      in case file of
           None \<Rightarrow> Inr (False, st)
         | Some text \<Rightarrow>
             (case config_lines (getlines text) st of
                Inl e \<Rightarrow> Inl e
              | Inr st1 \<Rightarrow> Inr (True, st1)))"


section \<open>The connection callback\<close>

definition ConnectionCallback :: "net \<Rightarrow> P2PPeerID \<Rightarrow> bool \<Rightarrow> int \<Rightarrow> hook \<Rightarrow> hook" where
  "ConnectionCallback net pid up userData st =
     (if up then
        let st1 = st\<lparr>g_connectedPeer := pid\<rparr>
        in if g_localSteamID st1 \<noteq> 0
           then snd (P2P_SendPacket net pid (Some (steam_id_bytes (g_localSteamID st1))) 8 st1)
           else st1
      else if g_connectedPeer st = pid then st\<lparr>g_connectedPeer := P2P_INVALID_PEER_ID\<rparr>
      else st)"


section \<open>The hooked Steam functions\<close>

text \<open>
  The original functions are called through the saved table.  A packet that Steam itself has is
  read and thrown away.  \<open>ask_original\<close> is the first part of \<open>Hook_IsP2PPacketAvailable\<close>; its result is
  what \<open>pcubMsgSize\<close> points to afterwards.
\<close>

definition drop_original :: "host \<Rightarrow> address \<Rightarrow> u32 \<Rightarrow> int \<Rightarrow> hook \<Rightarrow> hook" where
  "drop_original host thisptr cubDest nChannel st =
     (let fn = game_memory st (cell (g_pOriginalVTable st) VTABLE_INDEX_ReadP2PPacket)
      in case steam_ReadP2PPacket host (host_hist st) fn thisptr cubDest nChannel of
           (dat, sz, sid) \<Rightarrow>
             (log_host (HReadP2PPacket fn thisptr cubDest nChannel) st)
               \<lparr>g_originalReadData := [], g_originalReadSize := sz, g_originalReadSteamID := sid\<rparr>)"

text \<open>The next packet from the relay, if the library has one, becomes the current packet.\<close>

definition fetch_packet :: "hook \<Rightarrow> hook" where
  "fetch_packet st =
     (case P2P_IsPacketAvailable P2P_INVALID_PEER_ID st of
        None \<Rightarrow> st
      | Some (sz, pid) \<Rightarrow>
          (case P2P_ReadPacket pid (Some (replicate (unat sz) 0)) sz st of
             (res, out, st1) \<Rightarrow>
               (case out of
                  None \<Rightarrow> st1
                | Some (rawBuffer, readSize, _) \<Rightarrow>
                    if res = P2P_OK \<and> readSize \<ge> 8
                    then st1\<lparr>g_tcpRecvSteamID := steam_id_of rawBuffer,
                             g_tcpRecvBuffer := take (unat (readSize - 8)) (drop 8 rawBuffer),
                             g_hasTcpData := True\<rparr>
                    else st1)))"

definition ask_original ::
    "host \<Rightarrow> address \<Rightarrow> u32 option \<Rightarrow> int \<Rightarrow> hook \<Rightarrow> u32 option \<times> hook" where
  "ask_original host thisptr pcubMsgSize nChannel st =
     (let fn = game_memory st (cell (g_pOriginalVTable st) VTABLE_INDEX_IsP2PPacketAvailable);
          st1 = log_host (HIsP2PPacketAvailable fn thisptr pcubMsgSize nChannel) st
      in case steam_IsP2PPacketAvailable host (host_hist st) fn thisptr pcubMsgSize nChannel of
           (originalResult, msgSize) \<Rightarrow>
             (map_option (\<lambda>_. msgSize) pcubMsgSize,
              if originalResult \<and> pcubMsgSize \<noteq> None
              then drop_original host thisptr msgSize nChannel st1 else st1))"

definition Hook_IsP2PPacketAvailable ::
    "host \<Rightarrow> net \<Rightarrow> address \<Rightarrow> u32 option \<Rightarrow> int \<Rightarrow> hook
      \<Rightarrow> (hook_fault + bool \<times> u32 option \<times> hook) option" where
  "Hook_IsP2PPacketAvailable host net thisptr pcubMsgSize nChannel st =
     (case ask_original host thisptr pcubMsgSize nChannel st of
        (pcub, st2) \<Rightarrow>
          (case P2P_RunCallbacks net (ConnectionCallback net) st2 of
             None \<Rightarrow> None
           | Some (Inl f) \<Rightarrow> Some (Inl (LibraryFault f))
           | Some (Inr st3) \<Rightarrow>
               let st4 = (if g_hasTcpData st3 then st3 else fetch_packet st3)
               in Some (Inr
                    (if g_hasTcpData st4
                     then (True, map_option (\<lambda>_. word_of_nat (length (g_tcpRecvBuffer st4))) pcub, st4)
                     else (False, pcub, st4)))))"

text \<open>The results are the return value and the new contents of the three pointer arguments.\<close>

definition Hook_ReadP2PPacket ::
    "bytes option \<Rightarrow> u32 \<Rightarrow> u32 option \<Rightarrow> CSteamID option \<Rightarrow> hook
      \<Rightarrow> hook_fault + bool \<times> bytes option \<times> u32 option \<times> CSteamID option \<times> hook" where
  "Hook_ReadP2PPacket pubDest cubDest pcubMsgSize psteamIDRemote st =
     (if g_hasTcpData st then
        let copySize = word_of_nat (length (g_tcpRecvBuffer st)) :: u32
        in (case (case pubDest of
                    None \<Rightarrow> Inr None
                  | Some dest \<Rightarrow>
                      if copySize > 0
                      then (case copy_into 0 (take (unat copySize) (g_tcpRecvBuffer st)) dest of
                              Inl f \<Rightarrow> Inl f
                            | Inr dest' \<Rightarrow> Inr (Some dest'))
                      else Inr (Some dest)) of
              Inl f \<Rightarrow> Inl f
            | Inr dest' \<Rightarrow>
                Inr (True, dest', map_option (\<lambda>_. copySize) pcubMsgSize,
                     map_option (\<lambda>_. g_tcpRecvSteamID st) psteamIDRemote,
                     st\<lparr>g_hasTcpData := False, g_tcpRecvBuffer := [], g_tcpRecvSteamID := 0\<rparr>))
      else Inr (False, pubDest, pcubMsgSize, psteamIDRemote, st))"

text \<open>
  The buffer that \<open>Hook_SendP2PPacket\<close> builds: the identifier of the addressee, that of the sender
  and the data.
\<close>

definition build_packet ::
    "CSteamID \<Rightarrow> CSteamID \<Rightarrow> bytes option \<Rightarrow> u32 \<Rightarrow> u32 \<Rightarrow> hook_fault + bytes" where
  "build_packet target local pubData cubData totalSize =
     (case copy_into 0 (steam_id_bytes target) (replicate (unat totalSize) 0) of
        Inl f \<Rightarrow> Inl f
      | Inr buf1 \<Rightarrow>
          (case copy_into 8 (steam_id_bytes local) buf1 of
             Inl f \<Rightarrow> Inl f
           | Inr buf2 \<Rightarrow>
               (case pubData of
                  None \<Rightarrow> Inr buf2
                | Some dat \<Rightarrow>
                    if cubData = 0 then Inr buf2
                    else if length dat < unat cubData then Inl BufferOverrun
                    else copy_into 16 (take (unat cubData) dat) buf2)))"

definition Hook_SendP2PPacket ::
    "host \<Rightarrow> net \<Rightarrow> address \<Rightarrow> CSteamID \<Rightarrow> bytes option \<Rightarrow> u32 \<Rightarrow> int \<Rightarrow> int \<Rightarrow> hook
      \<Rightarrow> hook_fault + bool \<times> hook" where
  "Hook_SendP2PPacket host net thisptr steamIDRemote pubData cubData eP2PSendType nChannel st =
     (let fn = game_memory st (cell (g_pOriginalVTable st) VTABLE_INDEX_SendP2PPacket);
          originalResult = steam_SendP2PPacket host (host_hist st) fn thisptr steamIDRemote pubData 8
                             eP2PSendType nChannel;
          st1 = log_host (HSendP2PPacket fn thisptr steamIDRemote pubData 8 eP2PSendType nChannel) st;
          targetPeer = g_connectedPeer st1
      in if targetPeer \<noteq> P2P_INVALID_PEER_ID
         then
           let totalSize = 8 + 8 + cubData
           in (case build_packet steamIDRemote (g_localSteamID st1) pubData cubData totalSize of
                 Inl f \<Rightarrow> Inl f
               | Inr buf \<Rightarrow>
                   Inr (originalResult, snd (P2P_SendPacket net targetPeer (Some buf) totalSize st1)))
         else Inr (originalResult, st1))"


section \<open>Replacing the virtual table\<close>

definition GetLocalSteamID :: "host \<Rightarrow> hook \<Rightarrow> CSteamID \<times> hook" where
  "GetLocalSteamID host st =
     (let hBase = GetModuleHandle host
      in if hBase = 0 then (0, st)
         else
           let pSteamUser = game_memory st (hBase + ISTEAMUSER_OFFSET)
           in if pSteamUser = 0 then (0, st)
              else
                let vtable = game_memory st (cell pSteamUser 0)
                in if vtable = 0 then (0, st)
                   else
                     let fn = game_memory st (cell vtable VTABLE_INDEX_GetSteamID)
                     in (steam_GetSteamID host (host_hist st) fn pSteamUser,
                         log_host (HGetSteamID fn pSteamUser) st))"

fun copy_cells :: "nat \<Rightarrow> address \<Rightarrow> address \<Rightarrow> memory \<Rightarrow> memory" where
  "copy_cells 0 src dst mem = mem"
| "copy_cells (Suc n) src dst mem = (copy_cells n src dst mem)(cell dst n := mem (cell src n))"

definition new_vtable :: "host \<Rightarrow> address \<Rightarrow> address \<Rightarrow> memory \<Rightarrow> memory" where
  "new_vtable host original new mem =
     (copy_cells VTABLE_SIZE original new mem)
       (cell new VTABLE_INDEX_SendP2PPacket := addr_Hook_SendP2PPacket host,
        cell new VTABLE_INDEX_IsP2PPacketAvailable := addr_Hook_IsP2PPacketAvailable host,
        cell new VTABLE_INDEX_ReadP2PPacket := addr_Hook_ReadP2PPacket host)"

definition HookVTable :: "host \<Rightarrow> hook \<Rightarrow> bool \<times> hook" where
  "HookVTable host st =
     (let hBase = GetModuleHandle host
      in if hBase = 0 then (False, st)
         else
           let obj = game_memory st (hBase + VTABLE_OFFSET);
               st1 = st\<lparr>g_pObject := obj\<rparr>
           in if obj = 0 then (False, st1)
              else
                let original = game_memory st1 (cell obj 0);
                    st2 = st1\<lparr>g_pOriginalVTable := original\<rparr>
                in if original = 0 then (False, st2)
                   else
                     let new = operator_new host (host_hist st2);
                         st3 = (log_host (HNew new) st2)\<lparr>g_pNewVTable := new\<rparr>;
                         mem = new_vtable host original new (game_memory st3)
                     in (True, st3\<lparr>game_memory := mem(cell obj 0 := new)\<rparr>))"

definition UnhookVTable :: "hook \<Rightarrow> hook" where
  "UnhookVTable st =
     (if g_pOriginalVTable st = 0 \<or> g_pNewVTable st = 0 \<or> g_pObject st = 0 then st
      else
        (log_host (HDelete (g_pNewVTable st)) st)
          \<lparr>game_memory := (game_memory st)(cell (g_pObject st) 0 := g_pOriginalVTable st),
           g_pNewVTable := 0, g_pObject := 0\<rparr>)"


section \<open>Threads\<close>

text \<open>
  One round of \<open>InjectionThread\<close>: \<open>None\<close> means that the game is not ready and the thread sleeps.
\<close>

definition game_ready :: "host \<Rightarrow> hook \<Rightarrow> bool" where
  "game_ready host st \<longleftrightarrow>
     sint (game_memory st (GetModuleHandle host + VTABLE_OFFSET - 4)) > 0 \<and>
     game_memory st (GetModuleHandle host + VTABLE_OFFSET) \<noteq> 0"

definition InjectionThread :: "host \<Rightarrow> net \<Rightarrow> hook \<Rightarrow> hook option" where
  "InjectionThread host net st =
     (if GetModuleHandle host = 0 then Some st
      else if game_ready host st
      then
        (case GetLocalSteamID host (snd (HookVTable host st)) of
           (sid, st1) \<Rightarrow>
             let st2 = st1\<lparr>g_localSteamID := sid\<rparr>
             in Some (snd (P2P_SendPacket net (g_connectedPeer st2) (Some (steam_id_bytes sid)) 8 st2)))
      else None)"

text \<open>One round of \<open>PumpThread\<close>: \<open>True\<close> in the result means that the thread goes on.\<close>

definition PumpThread :: "net \<Rightarrow> hook \<Rightarrow> (hook_fault + bool \<times> hook) option" where
  "PumpThread net st =
     (if g_stopPumpThread st then Some (Inr (False, st))
      else
        (case P2P_RunCallbacks net (ConnectionCallback net) st of
           None \<Rightarrow> None
         | Some (Inl f) \<Rightarrow> Some (Inl (LibraryFault f))
         | Some (Inr st1) \<Rightarrow> Some (Inr (True, st1))))"


section \<open>Loading and unloading\<close>

datatype call_reason = DLL_PROCESS_ATTACH | DLL_THREAD_ATTACH | DLL_THREAD_DETACH | DLL_PROCESS_DETACH

definition start_thread :: "host \<Rightarrow> hook \<Rightarrow> address \<times> hook" where
  "start_thread host st =
     (let handle = CreateThread host (host_hist st) in (handle, log_host (HCreateThread handle) st))"

definition connect_to_relay :: "net \<Rightarrow> hook \<Rightarrow> hook" where
  "connect_to_relay net st =
     (case P2P_Connect net (ConnectionCallback net) (Some (c_str (g_strRemoteIP st))) (g_nPort st) True st of
        (res, out, st1) \<Rightarrow>
          let st2 = (case out of None \<Rightarrow> st1 | Some pid \<Rightarrow> st1\<lparr>g_connectedPeer := pid\<rparr>)
          in if res \<noteq> P2P_OK then st2
             else P2P_SetAutoReconnect (g_connectedPeer st2) True 500 (10 * 1000) st2)"

definition hook_attach :: "host \<Rightarrow> net \<Rightarrow> hook \<Rightarrow> hook_fault + bool \<times> hook" where
  "hook_attach host net st =
     (case LoadConfig host st of
        Inl e \<Rightarrow> Inl (UncaughtException e)
      | Inr (_, st1) \<Rightarrow>
          (case P2P_Init net st1 of
             (res, st2) \<Rightarrow>
               if res \<noteq> P2P_OK then Inr (False, st2)
               else
                 let st3 = P2P_SetConnectionCallback True 0 st2;
                     st4 = (connect_to_relay net st3)\<lparr>g_stopPumpThread := False\<rparr>
                 in (case start_thread host st4 of
                       (pump, st5) \<Rightarrow>
                         (case start_thread host (st5\<lparr>g_hPumpThread := pump\<rparr>) of
                            (inject, st6) \<Rightarrow> Inr (True, st6\<lparr>hInjectionThread := inject\<rparr>)))))"

definition join_thread :: "address \<Rightarrow> hook \<Rightarrow> hook" where
  "join_thread handle st =
     (if handle \<noteq> 0 then log_host (HCloseHandle handle) (log_host (HWaitForSingleObject handle 1000) st)
      else st)"

definition hook_detach :: "net \<Rightarrow> hook \<Rightarrow> hook_fault + bool \<times> hook" where
  "hook_detach net st =
     (case (if g_connectedPeer st \<noteq> P2P_INVALID_PEER_ID
            then (case P2P_Disconnect net (ConnectionCallback net) (g_connectedPeer st)
                         (P2P_SetAutoReconnect (g_connectedPeer st) False 0 0 st) of
                    Inl f \<Rightarrow> Inl f
                  | Inr st1 \<Rightarrow> Inr (st1\<lparr>g_connectedPeer := P2P_INVALID_PEER_ID\<rparr>))
            else Inr st) of
        Inl f \<Rightarrow> Inl (LibraryFault f)
      | Inr st2 \<Rightarrow>
          let st3 = st2\<lparr>g_stopPumpThread := True\<rparr>;
              st4 = (join_thread (g_hPumpThread st3) st3)\<lparr>g_hPumpThread := 0\<rparr>;
              st5 = join_thread (hInjectionThread st4) st4
          in Inr (True, P2P_Shutdown (UnhookVTable st5)))"

definition hook_DllMain :: "host \<Rightarrow> net \<Rightarrow> call_reason \<Rightarrow> hook \<Rightarrow> hook_fault + bool \<times> hook" where
  "hook_DllMain host net reason st =
     (case reason of
        DLL_PROCESS_ATTACH \<Rightarrow> hook_attach host net st
      | DLL_THREAD_ATTACH \<Rightarrow> Inr (True, st)
      | DLL_THREAD_DETACH \<Rightarrow> Inr (True, st)
      | DLL_PROCESS_DETACH \<Rightarrow> hook_detach net st)"

end
