(* ===== verification/Client_Invariant.thy ===== *)
theory Client_Invariant
  imports P2P_Network
begin

text \<open>
  The invariant of the connection manager: the table of peers has no duplicate keys, each
  connection carries the identifier it is filed under, a connection that counts as connected has a
  socket, and a manager that is not initialised has neither peers nor a listening socket.  It is an
  instance of the contract \<open>manager_property\<close>, which lists the few elementary changes the manager's
  operations are made of; every property that these changes keep is kept by every operation and
  therefore holds in every state the application can reach.
\<close>

section \<open>The contract\<close>

definition conn_fine :: "P2PPeerID \<Rightarrow> ClientConnection \<Rightarrow> bool" where
  "conn_fine pid conn \<longleftrightarrow>
     peerID conn = pid \<and> (connected conn \<longrightarrow> socket conn \<noteq> INVALID_SOCKET_HANDLE)"

lemma connectWithTimeout_same [simp]:
  "m_connections (snd (connectWithTimeout net ip prt t m)) = m_connections m"
  "m_initialized (snd (connectWithTimeout net ip prt t m)) = m_initialized m"
  by (simp_all add: connectWithTimeout_def Let_def setNonBlocking_def setNoDelay_def setOption_def
      split: option.split)

locale manager_property =
  fixes I :: "'a manager_scheme \<Rightarrow> bool"
  assumes log: "I m \<Longrightarrow> I (log_call e m)"
    and pending: "I m \<Longrightarrow> I (m\<lparr>m_pendingRemove := ps\<rparr>)"
    and next_id: "I m \<Longrightarrow> I (m\<lparr>m_nextPeerID := n\<rparr>)"
    and listening: "I m \<Longrightarrow> m_initialized m \<or> s = INVALID_SOCKET_HANDLE \<Longrightarrow> I (m\<lparr>m_listenSocket := s\<rparr>)"
    and port: "I m \<Longrightarrow> I (m\<lparr>m_listenPort := prt\<rparr>)"
    and update: "I m \<Longrightarrow> peer_at m pid = Some c \<Longrightarrow> conn_fine pid c' \<Longrightarrow> I (set_peer pid c' m)"
    and add: "I m \<Longrightarrow> m_initialized m \<Longrightarrow> conn_fine pid c \<Longrightarrow>
      I (m\<lparr>m_connections := um_emplace pid c (m_connections m)\<rparr>)"
    and erase: "I m \<Longrightarrow> I (m\<lparr>m_connections := um_erase pid (m_connections m)\<rparr>)"
    and cleared: "I m \<Longrightarrow> I (m\<lparr>m_connections := []\<rparr>)"
    and init: "I m \<Longrightarrow> I (m\<lparr>m_initialized := True\<rparr>)"
    and stop: "I m \<Longrightarrow> m_connections m = [] \<Longrightarrow> m_listenSocket m = INVALID_SOCKET_HANDLE \<Longrightarrow>
      I (m\<lparr>m_initialized := False\<rparr>)"
    and callback: "I m \<Longrightarrow> I (m\<lparr>m_connectionCallback := b\<rparr>)"
    and peers: "I m \<Longrightarrow> peer_at m pid = Some c \<Longrightarrow> conn_fine pid c"
begin

definition keeps :: "'a manager_scheme callback \<Rightarrow> bool" where
  "keeps cb \<longleftrightarrow> (\<forall>pid ev m. I m \<longrightarrow> I (cb pid ev m) \<and> m_initialized (cb pid ev m) = m_initialized m)"

lemmas elementary = log pending next_id port update erase cleared init callback

lemma close_keeps: "I m \<Longrightarrow> I (closeSocket s m)"
  by (simp add: closeSocket_def log)

lemma options_keep:
  "I m \<Longrightarrow> I (setNonBlocking net s m)" "I m \<Longrightarrow> I (setNoDelay net s m)" "I m \<Longrightarrow> I (setReuseAddr net s m)"
  by (simp_all add: setNonBlocking_def setNoDelay_def setReuseAddr_def setOption_def log)

lemma push_pending_keeps: "I m \<Longrightarrow> I (push_pending pid m)"
  by (simp add: push_pending_def pending)

lemma connectWithTimeout_keeps: "I m \<Longrightarrow> I (snd (connectWithTimeout net ip prt t m))"
  by (simp add: connectWithTimeout_def Let_def log close_keeps options_keep split: option.split)

lemma notify_keeps: "keeps cb \<Longrightarrow> I m \<Longrightarrow> I (notifyConnectionEvent cb pid ev m)"
  by (simp add: notifyConnectionEvent_def keeps_def log)

lemma notify_initialized: "keeps cb \<Longrightarrow> I m \<Longrightarrow> m_initialized (notifyConnectionEvent cb pid ev m) = m_initialized m"
  by (simp add: notifyConnectionEvent_def keeps_def log)

lemma add_peer_keeps:
  assumes "keeps cb" and "I m" and "m_initialized m" and "sock \<noteq> INVALID_SOCKET_HANDLE"
  shows "I (snd (add_peer cb sock ip prt m))"
    and "m_initialized (snd (add_peer cb sock ip prt m)) = m_initialized m"
proof -
  let ?m = "m\<lparr>m_nextPeerID := m_nextPeerID m + 1\<rparr>"
  let ?c = "ClientConnection_new\<lparr>socket := sock, peerID := m_nextPeerID m, remoteIP := ip,
    remotePort := prt, connected := True\<rparr>"
  let ?m2 = "?m\<lparr>m_connections := um_emplace (m_nextPeerID m) ?c (m_connections ?m)\<rparr>"
  have "I ?m2" using assms by (intro add next_id) (simp_all add: conn_fine_def)
  then show "I (snd (add_peer cb sock ip prt m))"
    and "m_initialized (snd (add_peer cb sock ip prt m)) = m_initialized m"
    using notify_keeps [OF assms(1)] notify_initialized [OF assms(1)]
    by (simp_all add: add_peer_def allocatePeerID_def Let_def)
qed

lemma connect_keeps:
  assumes "keeps cb" and "I m"
  shows "I (snd (manager_connect net cb ip prt m))"
proof (cases "ip = None \<or> \<not> m_initialized m")
  case True
  then show ?thesis using assms(2) by (auto simp: manager_connect_def split: option.split)
next
  case False
  obtain sock m1 where c: "connectWithTimeout net ip prt 2000 m = (sock, m1)"
    by (cases "connectWithTimeout net ip prt 2000 m")
  then have "I m1" "m_initialized m1 = m_initialized m"
    using connectWithTimeout_keeps [OF assms(2), of net ip prt 2000]
      connectWithTimeout_same(2) [of net ip prt 2000 m] by simp_all
  then show ?thesis
    using False c add_peer_keeps(1) [OF assms(1), of m1 sock _ prt]
    by (auto simp: manager_connect_def split: prod.split)
       (metis snd_conv)
qed

lemma connect_initialized:
  assumes "keeps cb" and "I m"
  shows "m_initialized (snd (manager_connect net cb ip prt m)) = m_initialized m"
proof (cases "ip = None \<or> \<not> m_initialized m")
  case True
  then show ?thesis by (auto simp: manager_connect_def split: option.split)
next
  case False
  obtain sock m1 where c: "connectWithTimeout net ip prt 2000 m = (sock, m1)"
    by (cases "connectWithTimeout net ip prt 2000 m")
  then have "I m1" "m_initialized m1 = m_initialized m"
    using connectWithTimeout_keeps [OF assms(2), of net ip prt 2000]
      connectWithTimeout_same(2) [of net ip prt 2000 m] by simp_all
  then show ?thesis
    using False c add_peer_keeps(2) [OF assms(1), of m1 sock _ prt]
    by (auto simp: manager_connect_def split: prod.split)
       (metis snd_conv)
qed

lemma setAutoReconnect_keeps: "I m \<Longrightarrow> I (setAutoReconnect pid b d x m)"
  using peers by (auto simp: setAutoReconnect_def conn_fine_def intro!: update split: option.split)

lemma drop_connection_keeps:
  assumes "keeps cb" and "I m" and "peer_at m pid = Some c" and "drop_connection net cb pid c m = Inr m'"
  shows "I m' \<and> m_initialized m' = m_initialized m"
proof -
  let ?c = "c\<lparr>socket := INVALID_SOCKET_HANDLE, connected := False,
     recvBuffer := buffer_clear (recvBuffer c), receiveQueue := queue_clear (receiveQueue c), sendBuffer := []\<rparr>"
  let ?m = "set_peer pid ?c (closeSocket (socket c) m)"
  have "conn_fine pid ?c" using peers [OF assms(2,3)] by (simp add: conn_fine_def)
  then have m: "I ?m" using assms(2,3) by (intro update close_keeps) simp_all
  obtain m2 c2 where m2: "notifyConnectionEvent cb pid Disconnected ?m = m2" "peer_at m2 pid = Some c2"
    and m': "m' = (if autoReconnect c2
        then set_peer pid (c2\<lparr>reconnectAttempt := 0, nextReconnectAtMs :=
               net_clock net (net_hist m2) + ucast (reconnectBaseDelayMs c2)\<rparr>)
               (log_call (NClock (net_clock net (net_hist m2))) m2)
        else m2\<lparr>m_connections := um_erase pid (m_connections m2)\<rparr>)"
    using assms(4)
    by (auto simp: drop_connection_def notify_keeping_iterators_def nowMs_def Let_def
        split: if_splits option.splits)
  have "I m2" "m_initialized m2 = m_initialized m"
    using notify_keeps [OF assms(1) m] notify_initialized [OF assms(1) m] m2(1) by auto
  moreover have "conn_fine pid c2" using peers [OF \<open>I m2\<close> m2(2)] .
  ultimately show ?thesis using m' m2(2) by (auto simp: conn_fine_def intro!: update log erase)
qed

lemma disconnect_keeps:
  "keeps cb \<Longrightarrow> I m \<Longrightarrow> manager_disconnect net cb pid m = Inr m' \<Longrightarrow> I m' \<and> m_initialized m' = m_initialized m"
  using drop_connection_keeps by (auto simp: manager_disconnect_def split: option.splits)

lemma sendPacket_keeps: "I m \<Longrightarrow> I (snd (sendPacket net pid dat sz m))"
  using peers
  by (auto simp: sendPacket_def send_call_eq Let_def conn_fine_def
      intro!: push_pending_keeps update log split: option.split sum.split)

lemma readPacket_keeps: "I m \<Longrightarrow> I (snd (readPacket pid buf n m))"
  using peers
  by (auto simp: readPacket_def Let_def conn_fine_def intro!: update split: option.split prod.split bool.split)

lemma mark_broken_keeps:
  "I m \<Longrightarrow> peer_at m pid = Some c \<Longrightarrow> peerID c = pid \<Longrightarrow> I (mark_broken pid c m)"
  by (auto simp: mark_broken_def conn_fine_def intro!: push_pending_keeps update)

lemma processWrite_keeps: "I m \<Longrightarrow> I (processWrite net pid m)"
  using peers
  by (auto simp: processWrite_def send_call_eq conn_fine_def
      intro!: mark_broken_keeps update log split: option.split sum.split)

lemma processWrite_initialized [simp]: "m_initialized (processWrite net pid m) = m_initialized m"
  by (auto simp: processWrite_def send_call_eq mark_broken_def split: option.split sum.split)

lemma processRead_keeps:
  assumes "processRead net pid m = Some m'" and "I m"
  shows "I m' \<and> m_initialized m' = m_initialized m"
proof -
  have "I m \<longrightarrow> I m' \<and> m_initialized m' = m_initialized m"
  proof (rule processRead.raw_induct [where P = "\<lambda>net pid m m'. I m \<longrightarrow> I m' \<and> m_initialized m' = m_initialized m",
        OF _ assms(1)], intro impI)
    fix f net pid m m'
    assume IH: "\<And>net pid m m'. f net pid m = Some m' \<Longrightarrow> I m \<longrightarrow> I m' \<and> m_initialized m' = m_initialized m"
      and I: "I m"
      and eq: "(case peer_at m pid of None \<Rightarrow> Some m
         | Some conn \<Rightarrow> (case net_recv_call net (socket conn) m of (r, m1) \<Rightarrow>
             (case r of Inl err \<Rightarrow> if wouldBlock err then Some m1 else Some (mark_broken pid conn m1)
              | Inr bs \<Rightarrow> if bs = [] then Some (mark_broken pid conn m1)
                else let rb = append_bytes bs (word_of_nat (length bs)) (recvBuffer conn)
                  in case parse_packets rb (Packet_of [] 0) (receiveQueue conn) of (rb', q) \<Rightarrow>
                    f net pid (set_peer pid (conn\<lparr>recvBuffer := rb', receiveQueue := q\<rparr>) m1)))) = Some m'"
    show "I m' \<and> m_initialized m' = m_initialized m"
    proof (cases "peer_at m pid")
      case None
      then show ?thesis using eq I by simp
    next
      case (Some conn)
      have fine: "conn_fine pid conn" using peers [OF I Some] .
      have rd: "I (set_peer pid (conn\<lparr>recvBuffer := rb, receiveQueue := q\<rparr>) (log_call e m))" for rb q e
        using fine Some I by (intro update log) (simp_all add: conn_fine_def)
      have brk: "I (mark_broken pid conn (log_call e m))" for e
        using fine Some I by (intro mark_broken_keeps log) (simp_all add: conn_fine_def)
      show ?thesis
        using eq Some log [OF I] brk IH [OF _, rule_format, OF _ rd]
        by (auto simp: recv_call_eq mark_broken_def Let_def split: sum.splits if_splits prod.splits)
    qed
  qed
  then show ?thesis using assms(2) by blast
qed

lemma accept_loop_keeps:
  assumes "accept_loop net cb m = Some m'" and "keeps cb" and "I m" and "m_initialized m"
  shows "I m' \<and> m_initialized m'"
proof -
  have "keeps cb \<longrightarrow> I m \<and> m_initialized m \<longrightarrow> I m' \<and> m_initialized m'"
  proof (rule accept_loop.raw_induct [where P = "\<lambda>net cb m m'. keeps cb \<longrightarrow>
        I m \<and> m_initialized m \<longrightarrow> I m' \<and> m_initialized m'", OF _ assms(1)], intro impI, elim conjE)
    fix f net cb m m'
    assume IH: "\<And>net cb m m'. f net cb m = Some m' \<Longrightarrow> keeps cb \<longrightarrow>
          I m \<and> m_initialized m \<longrightarrow> I m' \<and> m_initialized m'"
      and cb: "keeps cb" and I: "I m" "m_initialized m"
      and eq: "(let r = net_accept net (net_hist m) (m_listenSocket m);
            m1 = log_call (NAccept (m_listenSocket m) r) m
          in case r of (clientSocket, ip, port) \<Rightarrow>
            if clientSocket = INVALID_SOCKET_HANDLE then Some m1
            else let m2 = setNoDelay net clientSocket (setNonBlocking net clientSocket m1)
              in f net cb (snd (add_peer cb clientSocket ip port m2))) = Some m'"
    obtain sock ip prt where r: "net_accept net (net_hist m) (m_listenSocket m) = (sock, ip, prt)"
      by (cases "net_accept net (net_hist m) (m_listenSocket m)") auto
    let ?m1 = "log_call (NAccept (m_listenSocket m) (sock, ip, prt)) m"
    let ?m2 = "setNoDelay net sock (setNonBlocking net sock ?m1)"
    have m2: "I ?m2" "m_initialized ?m2"
      using I by (simp_all add: log options_keep setNoDelay_def setNonBlocking_def setOption_def)
    show "I m' \<and> m_initialized m'"
    proof (cases "sock = INVALID_SOCKET_HANDLE")
      case True
      then show ?thesis using eq r I log by auto
    next
      case False
      have "f net cb (snd (add_peer cb sock ip prt ?m2)) = Some m'" using eq r False by (simp add: Let_def)
      then show ?thesis using IH cb add_peer_keeps [OF cb m2 False] m2(2) by blast
    qed
  qed
  then show ?thesis using assms by blast
qed

lemma accept_keeps:
  "acceptNewConnections net cb m = Some m' \<Longrightarrow> keeps cb \<Longrightarrow> I m \<Longrightarrow> m_initialized m \<Longrightarrow> I m' \<and> m_initialized m'"
  using accept_loop_keeps by (auto simp: acceptNewConnections_def split: if_splits)

lemma remove_peers_keeps:
  "keeps cb \<Longrightarrow> I m \<Longrightarrow> remove_peers net cb pids m = Inr m' \<Longrightarrow> I m' \<and> m_initialized m' = m_initialized m"
proof (induction pids arbitrary: m)
  case (Cons pid pids)
  obtain m1 where m1: "(case peer_at m pid of None \<Rightarrow> Inr m | Some c \<Rightarrow> drop_connection net cb pid c m) = Inr m1"
    "remove_peers net cb pids m1 = Inr m'"
    using Cons.prems(3)
    by (cases "case peer_at m pid of None \<Rightarrow> Inr m | Some c \<Rightarrow> drop_connection net cb pid c m")
      (auto split: if_splits)
  then have "I m1 \<and> m_initialized m1 = m_initialized m"
    using drop_connection_keeps [OF Cons.prems(1,2)] Cons.prems(2) by (cases "peer_at m pid") auto
  then show ?case using Cons.IH [OF Cons.prems(1) _ m1(2)] by simp
qed simp

lemma removeDisconnected_keeps:
  assumes "keeps cb" and "I m" and "removeDisconnected net cb m = Inr m'"
  shows "I m' \<and> m_initialized m' = m_initialized m"
proof -
  let ?pids = "remdups_adj (sort (m_pendingRemove m))"
  obtain m1 where m1: "remove_peers net cb ?pids (m\<lparr>m_pendingRemove := ?pids\<rparr>) = Inr m1"
    "m' = m1\<lparr>m_pendingRemove := []\<rparr>"
    using assms(3) by (auto simp: removeDisconnected_def Let_def split: sum.splits)
  then show ?thesis
    using remove_peers_keeps [OF assms(1) pending [OF assms(2)]] pending by auto
qed

lemma reconnect_peer_keeps:
  assumes "keeps cb" and "I m" and "reconnect_peer net cb now pid m = Inr m'"
  shows "I m' \<and> m_initialized m' = m_initialized m"
proof (cases "peer_at m pid")
  case None
  then show ?thesis using assms by (auto simp: reconnect_peer_def)
next
  case (Some c)
  let ?cw = "connectWithTimeout net (Some (remoteIP c)) (remotePort c) 2000 m"
  have fine: "conn_fine pid c" using peers [OF assms(2) Some] .
  have "I (snd ?cw)" using connectWithTimeout_keeps [OF assms(2)] .
  then have upd: "conn_fine pid c' \<Longrightarrow> I (set_peer pid c' (snd ?cw))" for c'
    using Some by (intro update) simp_all
  show ?thesis
  proof (cases "m' = m")
    case False
    then have "(fst ?cw \<noteq> INVALID_SOCKET_HANDLE \<and> m' = notifyConnectionEvent cb pid Connected
          (set_peer pid (c\<lparr>socket := fst ?cw, connected := True, reconnectAttempt := 0,
             nextReconnectAtMs := 0\<rparr>) (snd ?cw))) \<or>
        (\<exists>a n. \<not> connected c \<and>
           m' = set_peer pid (c\<lparr>reconnectAttempt := a, nextReconnectAtMs := n\<rparr>) (snd ?cw))"
      using assms(3) Some
      by (cases ?cw) (auto simp: reconnect_peer_def notify_keeping_iterators_def Let_def split: if_splits)
    then show ?thesis
      using fine upd notify_keeps [OF assms(1)] notify_initialized [OF assms(1)]
      by (auto simp: conn_fine_def)
  qed (use assms(2) in simp)
qed

lemma reconnect_peers_keeps:
  "keeps cb \<Longrightarrow> I m \<Longrightarrow> reconnect_peers net cb now pids m = Inr m' \<Longrightarrow> I m' \<and> m_initialized m' = m_initialized m"
proof (induction pids arbitrary: m)
  case (Cons pid pids)
  then obtain m1 where m1: "reconnect_peer net cb now pid m = Inr m1" "reconnect_peers net cb now pids m1 = Inr m'"
    by (auto split: sum.splits)
  then show ?case using reconnect_peer_keeps [OF Cons.prems(1,2) m1(1)] Cons.IH [OF Cons.prems(1) _ m1(2)] by simp
qed simp

lemma attemptReconnects_keeps:
  assumes "keeps cb" and "I m" and "attemptReconnects net cb m = Inr m'"
  shows "I m' \<and> m_initialized m' = m_initialized m"
proof -
  let ?now = "net_clock net (net_hist m)"
  have "reconnect_peers net cb ?now (map fst (m_connections m)) (log_call (NClock ?now) m) = Inr m'"
    using assms(3) by (simp add: attemptReconnects_def nowMs_def Let_def)
  then show ?thesis using reconnect_peers_keeps [OF assms(1) log [OF assms(2)]] by fastforce
qed

lemma process_peers_keeps:
  "I m \<Longrightarrow> process_peers net ready pids m = Some m' \<Longrightarrow> I m' \<and> m_initialized m' = m_initialized m"
proof (induction pids arbitrary: m)
  case (Cons pid pids)
  obtain readable writable exceptional where ready: "ready = (readable, writable, exceptional)"
    by (cases ready)
  show ?case
  proof (cases "peer_at m pid")
    case None
    then show ?thesis using Cons by simp
  next
    case (Some c)
    have fine: "conn_fine pid c" using peers [OF Cons.prems(1) Some] .
    have brk: "I (push_pending pid (set_peer pid (c\<lparr>connected := False\<rparr>) m))"
      using fine Some Cons.prems(1) by (intro push_pending_keeps update) (simp_all add: conn_fine_def)
    show ?thesis
    proof (cases "polled c \<and> socket c \<notin> set exceptional")
      case False
      then show ?thesis
        using Cons.prems Cons.IH [of m] Cons.IH [OF brk] Some ready by (auto split: if_splits)
    next
      case True
      then obtain m1 where m1: "(if socket c \<in> set readable then processRead net pid m else Some m) = Some m1"
        "process_peers net ready pids (if socket c \<in> set writable then processWrite net pid m1 else m1) = Some m'"
        using Cons.prems(2) Some ready by (auto split: option.splits)
      have "I m1 \<and> m_initialized m1 = m_initialized m"
        using m1(1) processRead_keeps Cons.prems(1) by (auto split: if_splits)
      then show ?thesis using Cons.IH [OF _ m1(2)] processWrite_keeps by (auto split: if_splits)
    qed
  qed
qed simp

lemma poll_sockets_keeps:
  assumes "I m" and "poll_sockets net m = Some m'"
  shows "I m' \<and> m_initialized m' = m_initialized m"
proof -
  let ?m = "log_call (NSelect (readSet m) (writeSet m)) m"
  have "m' = m \<or> m' = ?m \<or> (\<exists>ready. process_peers net ready (map fst (m_connections m)) ?m = Some m')"
    using assms(2) by (auto simp: poll_sockets_def Let_def split: if_splits option.splits)
  then show ?thesis using process_peers_keeps [OF log [OF assms(1)]] log [OF assms(1)] assms(1) by fastforce
qed

lemma processEvents_keeps:
  assumes "keeps cb" and "I m" and "processEvents net cb m = Some (Inr m')"
  shows "I m' \<and> m_initialized m' = m_initialized m"
proof (cases "m_initialized m")
  case True
  then obtain m1 m2 m3 m4 where run: "attemptReconnects net cb m = Inr m1"
    "acceptNewConnections net cb m1 = Some m2" "poll_sockets net m2 = Some m3"
    "removeDisconnected net cb m3 = Inr m4" "attemptReconnects net cb m4 = Inr m'"
    using assms(3) by (auto simp: processEvents_def split: sum.splits option.splits)
  have m1: "I m1 \<and> m_initialized m1" using attemptReconnects_keeps [OF assms(1,2) run(1)] True by simp
  then have "I m2 \<and> m_initialized m2" using accept_keeps [OF run(2) assms(1)] by simp
  then have "I m3 \<and> m_initialized m3" using poll_sockets_keeps [OF _ run(3)] by simp
  then have "I m4 \<and> m_initialized m4" using removeDisconnected_keeps [OF assms(1) _ run(4)] by simp
  then show ?thesis using attemptReconnects_keeps [OF assms(1) _ run(5)] True by simp
qed (use assms in \<open>simp add: processEvents_def\<close>)

lemma initialize_keeps: "I m \<Longrightarrow> I (snd (initialize net m))"
  by (simp add: initialize_def initializeSockets_def Let_def log init split: bool.split)

lemma stopListen_keeps: "I m \<Longrightarrow> I (stopListen m)"
proof -
  assume m: "I m"
  let ?m = "(closeSocket (m_listenSocket m) m)\<lparr>m_listenSocket := INVALID_SOCKET_HANDLE\<rparr>"
  have "I ?m" by (intro listening close_keeps m) simp
  then have "I (?m\<lparr>m_listenPort := 0\<rparr>)" by (rule port)
  then show "I (stopListen m)" using m by (simp add: stopListen_def)
qed

lemma listen_keeps:
  assumes "I m"
  shows "I (snd (manager_listen net prt m))"
proof (cases "m_initialized m")
  case True
  let ?m1 = "stopListen m"
  let ?s = "net_socket net (net_hist ?m1)"
  let ?m2 = "(log_call (NSocket ?s) ?m1)\<lparr>m_listenSocket := ?s\<rparr>"
  have i1: "m_initialized ?m1" using True by (simp add: stopListen_def)
  have m2: "I ?m2" by (rule listening [OF log [OF stopListen_keeps [OF assms]]]) (simp add: i1)
  have any: "I (x\<lparr>m_listenSocket := INVALID_SOCKET_HANDLE\<rparr>)" if "I x" for x
    using that by (rule listening) simp
  show ?thesis
    using True m2 stopListen_keeps [OF assms]
    by (auto simp: manager_listen_def Let_def intro!: any close_keeps log options_keep port)
qed (use assms in \<open>simp add: manager_listen_def\<close>)

lemma closes_keep: "I m \<Longrightarrow> I (foldl (\<lambda>s entry. closeSocket (socket (snd entry)) s) m es)"
  by (induction es arbitrary: m) (simp_all add: close_keeps)

lemma closes_same [simp]:
  "m_listenSocket (foldl (\<lambda>s entry. closeSocket (socket (snd entry)) s) m es) = m_listenSocket m"
  by (induction es arbitrary: m) simp_all

lemma shutdown_keeps:
  assumes "I m"
  shows "I (shutdown m)"
proof (cases "m_initialized m")
  case True
  let ?m1 = "stopListen m"
  let ?m2 = "foldl (\<lambda>s entry. closeSocket (socket (snd entry)) s) ?m1 (m_connections ?m1)"
  let ?m3 = "?m2\<lparr>m_connections := []\<rparr>"
  have "I (?m3\<lparr>m_pendingRemove := []\<rparr>)"
    by (intro pending cleared closes_keep stopListen_keeps assms)
  moreover have "m_listenSocket ?m1 = INVALID_SOCKET_HANDLE" by (simp add: stopListen_def)
  ultimately show ?thesis
    using True by (simp add: shutdown_def Let_def cleanupSockets_def) (intro stop log; simp)
qed (use assms in \<open>simp add: shutdown_def\<close>)

end


section \<open>The invariant\<close>

definition manager_inv :: "'a manager_scheme \<Rightarrow> bool" where
  "manager_inv m \<longleftrightarrow>
     um_wf (m_connections m) \<and> (\<forall>pid c. peer_at m pid = Some c \<longrightarrow> conn_fine pid c) \<and>
     (m_initialized m \<or> m_connections m = [] \<and> m_listenSocket m = INVALID_SOCKET_HANDLE)"

lemma manager_inv_same:
  "manager_inv m \<Longrightarrow> m_connections m' = m_connections m \<Longrightarrow> m_initialized m' = m_initialized m \<Longrightarrow>
   m_listenSocket m' = m_listenSocket m \<Longrightarrow> manager_inv m'"
  by (simp add: manager_inv_def)

interpretation mi: manager_property manager_inv
proof unfold_locales
  fix m :: "'a manager_scheme" and pid c c'
  assume "manager_inv m" and "peer_at m pid = Some c" and "conn_fine pid c'"
  then show "manager_inv (set_peer pid c' m)"
    by (auto simp: manager_inv_def set_peer_def um_wf_um_set)
qed (auto simp: manager_inv_def log_call_def um_wf_um_emplace um_find_um_emplace um_wf_um_erase um.wf_empty
    split: option.splits if_splits)


section \<open>Reachable states of the library\<close>

text \<open>
  Calls of the exported functions in any order and with any arguments, while the library is
  initialised: what an application does between \<open>P2P_Init\<close> and \<open>P2P_Shutdown\<close>, and what its callback
  may do.  Between the calls the application may change its own part of the state.  A call that ends
  in undefined behaviour or does not return leads nowhere.
\<close>

inductive calls :: "net \<Rightarrow> 'a user_callback \<Rightarrow> 'a p2p_scheme \<Rightarrow> 'a p2p_scheme \<Rightarrow> bool"
  for net user st0 where
  none: "calls net user st0 st0"
| own_state: "calls net user st0 st \<Longrightarrow> calls net user st0 (p2p.more_update f st)"
| P2P_Listen: "calls net user st0 st \<Longrightarrow> calls net user st0 (snd (P2P_Listen net port st))"
| P2P_StopListen: "calls net user st0 st \<Longrightarrow> calls net user st0 (P2P_StopListen st)"
| P2P_Connect: "calls net user st0 st \<Longrightarrow> calls net user st0 (snd (snd (P2P_Connect net user ip port out st)))"
| P2P_SetAutoReconnect: "calls net user st0 st \<Longrightarrow> calls net user st0 (P2P_SetAutoReconnect pid b d x st)"
| P2P_Disconnect: "calls net user st0 st \<Longrightarrow> P2P_Disconnect net user pid st = Inr st' \<Longrightarrow> calls net user st0 st'"
| P2P_SendPacket: "calls net user st0 st \<Longrightarrow> calls net user st0 (snd (P2P_SendPacket net pid dat sz st))"
| P2P_ReadPacket: "calls net user st0 st \<Longrightarrow> calls net user st0 (snd (snd (P2P_ReadPacket pid buf n st)))"
| P2P_RunCallbacks: "calls net user st0 st \<Longrightarrow> P2P_RunCallbacks net user st = Some (Inr st') \<Longrightarrow> calls net user st0 st'"
| P2P_SetConnectionCallback: "calls net user st0 st \<Longrightarrow> calls net user st0 (P2P_SetConnectionCallback f d st)"

inductive used :: "net \<Rightarrow> 'a user_callback \<Rightarrow> 'a p2p_scheme \<Rightarrow> 'a p2p_scheme \<Rightarrow> bool"
  for net user st0 where
  start: "used net user st0 st0"
| P2P_Init: "used net user st0 st \<Longrightarrow> used net user st0 (snd (P2P_Init net st))"
| running: "used net user st0 st \<Longrightarrow> calls net user st st' \<Longrightarrow> used net user st0 st'"
| P2P_Shutdown: "used net user st0 st \<Longrightarrow> used net user st0 (P2P_Shutdown st)"

text \<open>
  The callbacks of an application: at each invocation a callback makes some sequence of calls, which
  may invoke a callback again (\<open>inner\<close>), and so on to any finite depth.  \<open>P2P_Shutdown\<close> is not among
  these calls: it would destroy the manager whose method is running.
\<close>

inductive calling_callback :: "net \<Rightarrow> 'a user_callback \<Rightarrow> bool" for net where
  "(\<And>pid up d st. user pid up d st = st \<or>
     (\<exists>inner. calling_callback net inner \<and> calls net inner st (user pid up d st))) \<Longrightarrow>
   calling_callback net user"

text \<open>What follows of a callback: it keeps the invariant and does not start or stop the library.\<close>

definition callback_ok :: "'a user_callback \<Rightarrow> bool" where
  "callback_ok user \<longleftrightarrow> (\<forall>pid b d st. manager_inv st \<longrightarrow>
     manager_inv (user pid b d st) \<and> m_initialized (user pid b d st) = m_initialized st)"

lemma internal_keeps: "callback_ok user \<Longrightarrow> mi.keeps (internalConnectionCallback user)"
  by (simp add: callback_ok_def mi.keeps_def internalConnectionCallback_def)

lemma manager_inv_globals [simp]:
  "manager_inv (st\<lparr>g_manager := a\<rparr>) = manager_inv (st :: 'a p2p_scheme)"
  "manager_inv (st\<lparr>g_userCallback := a\<rparr>) = manager_inv st"
  "manager_inv (st\<lparr>g_userCallbackData := i\<rparr>) = manager_inv st"
  "manager_inv (p2p.more_update f st) = manager_inv st"
  by (simp_all add: manager_inv_def)

lemma manager_inv_make: "manager_inv (make_manager st)"
  by (simp add: make_manager_def manager_inv_def manager_new_def manager.defs um_wf_def)

lemma sendPacket_initialized: "m_initialized (snd (sendPacket net pid dat sz m)) = m_initialized m"
  by (simp add: sendPacket_def send_call_eq Let_def split: option.split sum.split)

lemma readPacket_initialized: "m_initialized (snd (readPacket pid buf n m)) = m_initialized m"
  by (simp add: readPacket_def Let_def split: option.split prod.split bool.split)

lemma listen_initialized: "m_initialized (snd (manager_listen net port m)) = m_initialized m"
  by (simp add: manager_listen_def stopListen_def setNonBlocking_def setReuseAddr_def setOption_def Let_def)

lemma P2P_SendPacket_state:
  "snd (P2P_SendPacket net pid dat sz st) =
     (if \<not> usable st \<or> pid = P2P_INVALID_PEER_ID \<or> dat = None \<or> sz = 0 then st
      else snd (sendPacket net pid dat sz st))"
  by (auto simp: P2P_SendPacket_def split: prod.split bool.split)

lemma P2P_call_states:
  "snd (P2P_Listen net port st) = st \<or> snd (P2P_Listen net port st) = snd (manager_listen net port st)"
  "snd (snd (P2P_Connect net user ip port out st)) = st \<or>
   snd (snd (P2P_Connect net user ip port out st)) = snd (manager_connect net (internalConnectionCallback user) ip port st)"
  "snd (snd (P2P_ReadPacket pid buf n st)) = st \<or>
   snd (snd (P2P_ReadPacket pid buf n st)) = snd (readPacket pid buf n st)"
  by (auto simp: P2P_Listen_def P2P_Connect_def P2P_ReadPacket_def split: prod.split option.split bool.split)

lemma calls_keep:
  assumes "calls net user st0 st" and "callback_ok user" and "manager_inv st0"
  shows "manager_inv st \<and> m_initialized st = m_initialized st0"
  using assms(1)
proof induction
  case (P2P_Listen st port)
  then show ?case
    using P2P_call_states(1) [of net port st] mi.listen_keeps [of st net port] listen_initialized [of net port st] by auto
next
  case (P2P_Connect st ip port out)
  then show ?case
    using P2P_call_states(2) [of net user ip port out st] mi.connect_keeps [OF internal_keeps [OF assms(2)], of st net ip port]
      mi.connect_initialized [OF internal_keeps [OF assms(2)], of st net ip port] by auto
next
  case (P2P_ReadPacket st pid buf n)
  then show ?case
    using P2P_call_states(3) [of pid buf n st] mi.readPacket_keeps [of st pid buf n] readPacket_initialized [of pid buf n st] by auto
next
  case (P2P_Disconnect st pid st')
  then show ?case
    using mi.disconnect_keeps [OF internal_keeps [OF assms(2)]] by (auto simp: P2P_Disconnect_def split: if_splits)
next
  case (P2P_RunCallbacks st st')
  then show ?case
    using mi.processEvents_keeps [OF internal_keeps [OF assms(2)]] by (auto simp: P2P_RunCallbacks_def split: if_splits)
next
  case (P2P_SendPacket st pid dat sz)
  then show ?case by (simp add: P2P_SendPacket_state mi.sendPacket_keeps sendPacket_initialized)
next
  case (P2P_SetAutoReconnect st pid b d x)
  then show ?case
    using mi.setAutoReconnect_keeps [of st pid b d x]
    by (auto simp: P2P_SetAutoReconnect_def setAutoReconnect_def split: option.split)
next
  case (P2P_StopListen st)
  moreover have "m_initialized (stopListen st) = m_initialized st" by (simp add: stopListen_def)
  ultimately show ?case by (simp add: P2P_StopListen_def mi.stopListen_keeps)
qed (use assms(3) in \<open>simp_all add: P2P_SetConnectionCallback_def\<close>)

lemma calling_callback_ok: "calling_callback net user \<Longrightarrow> callback_ok user"
proof (induction rule: calling_callback.induct)
  case (1 user)
  then show ?case unfolding callback_ok_def [of user] using calls_keep by metis
qed

lemma used_inv:
  assumes "used net user st0 st" and "callback_ok user" and "manager_inv st0"
  shows "manager_inv st"
  using assms(1)
proof induction
  case start
  show ?case by (rule assms(3))
next
  case (P2P_Init st)
  then show ?case
    using mi.initialize_keeps [OF manager_inv_make, of net st] mi.callback
    by (auto simp: P2P_Init_def setConnectionCallback_def split: prod.split bool.split)
next
  case (running st st')
  then show ?case using calls_keep assms(2) by blast
next
  case (P2P_Shutdown st)
  then show ?case by (simp add: P2P_Shutdown_def Let_def mi.shutdown_keeps)
qed

end
