(* ===== verification/Callback_Safety.thy ===== *)
theory Callback_Safety
  imports Client_Invariant
begin

text \<open>
  Connection callbacks that leave the set of peers alone.  The connection manager holds iterators
  into its table while it calls the application; with such a callback these iterators stay valid and
  no operation ends in \<open>IteratorInvalidated\<close>.  The second part shows that the history of network
  calls only grows, as another instance of the contract \<open>manager_property\<close>.
\<close>

section \<open>Iterators\<close>

definition keeps_iterators :: "'a manager_scheme callback \<Rightarrow> bool" where
  "keeps_iterators cb \<longleftrightarrow>
     (\<forall>pid ev m. map fst (m_connections (cb pid ev m)) = map fst (m_connections m)) \<and>
     (\<forall>pid m. m_pendingRemove (cb pid Disconnected m) = m_pendingRemove m)"

lemma keys_um_set_present:
  "um_find m k = Some w \<Longrightarrow> map fst (um_set k v m) = map fst m"
  by (induction m) (auto simp: um_find_def split: if_splits)

lemma keys_set_peer:
  "peer_at m pid = Some c \<Longrightarrow> map fst (m_connections (set_peer pid c' m)) = map fst (m_connections m)"
  by (simp add: set_peer_def keys_um_set_present)

lemma keys_peer_at:
  assumes "map fst (m_connections m') = map fst (m_connections m)"
  shows "peer_at m' pid = None \<longleftrightarrow> peer_at m pid = None"
  using assms by (simp add: um_find_def map_of_eq_None_iff flip: set_map)

lemma sendPacket_keys: "map fst (m_connections (snd (sendPacket net pid dat sz m))) = map fst (m_connections m)"
  using keys_set_peer [of m pid]
  by (auto simp: sendPacket_def send_call_eq Let_def keys_set_peer split: option.split sum.split)

lemma notify_keys:
  "keeps_iterators cb \<Longrightarrow> map fst (m_connections (notifyConnectionEvent cb pid ev m)) = map fst (m_connections m)"
  by (simp add: notifyConnectionEvent_def keeps_iterators_def)

lemma notify_returns:
  assumes "keeps_iterators cb" and "peer_at m pid = Some c"
  shows "notify_keeping_iterators cb pid ev m = Inr (notifyConnectionEvent cb pid ev m)"
proof -
  have "pid \<in> set (map fst (m_connections m))"
    using assms(2) um_find_None_iff [of "m_connections m" pid] by force
  then show ?thesis by (simp only: notify_keeping_iterators_def notify_keys [OF assms(1)] Let_def simp_thms subset_refl if_True)
qed

lemma notify_pending:
  "keeps_iterators cb \<Longrightarrow> m_pendingRemove (notifyConnectionEvent cb pid Disconnected m) = m_pendingRemove m"
  by (simp add: notifyConnectionEvent_def keeps_iterators_def)

lemma drop_connection_returns:
  assumes "keeps_iterators cb" and "peer_at m pid = Some c"
  shows "\<exists>m'. drop_connection net cb pid c m = Inr m' \<and> m_pendingRemove m' = m_pendingRemove m"
proof -
  let ?c = "c\<lparr>socket := INVALID_SOCKET_HANDLE, connected := False,
     recvBuffer := buffer_clear (recvBuffer c), receiveQueue := queue_clear (receiveQueue c), sendBuffer := []\<rparr>"
  let ?m = "set_peer pid ?c (closeSocket (socket c) m)"
  let ?m2 = "notifyConnectionEvent cb pid Disconnected ?m"
  have "peer_at ?m2 pid \<noteq> None" using keys_peer_at [OF notify_keys [OF assms(1), of pid Disconnected ?m], of pid] by simp
  then obtain c2 where "peer_at ?m2 pid = Some c2" by blast
  moreover have "m_pendingRemove ?m2 = m_pendingRemove m" by (simp add: notify_pending [OF assms(1)])
  ultimately show ?thesis
    using notify_returns [OF assms(1), of ?m pid ?c Disconnected]
    by (simp add: drop_connection_def Let_def nowMs_def)
qed

lemma disconnect_returns: "keeps_iterators cb \<Longrightarrow> \<exists>m'. manager_disconnect net cb pid m = Inr m'"
  using drop_connection_returns by (fastforce simp: manager_disconnect_def split: option.split)

lemma remove_peers_returns: "keeps_iterators cb \<Longrightarrow> \<exists>m'. remove_peers net cb pids m = Inr m'"
proof (induction pids arbitrary: m)
  case (Cons pid pids)
  obtain m1 where "(case peer_at m pid of None \<Rightarrow> Inr m | Some c \<Rightarrow> drop_connection net cb pid c m) = Inr m1"
    "m_pendingRemove m1 = m_pendingRemove m"
    using drop_connection_returns [OF Cons.prems, of m pid _ net] by (cases "peer_at m pid") auto
  then show ?case using Cons by simp
qed simp

lemma removeDisconnected_returns: "keeps_iterators cb \<Longrightarrow> \<exists>m'. removeDisconnected net cb m = Inr m'"
  using remove_peers_returns [of cb net _ "m\<lparr>m_pendingRemove := _\<rparr>"]
  by (simp add: removeDisconnected_def Let_def) (metis sum.case(2))

lemma reconnect_peer_returns: "keeps_iterators cb \<Longrightarrow> \<exists>m'. reconnect_peer net cb now pid m = Inr m'"
  by (auto simp: reconnect_peer_def notify_returns Let_def split: option.split prod.split)

lemma reconnect_peers_returns: "keeps_iterators cb \<Longrightarrow> \<exists>m'. reconnect_peers net cb now pids m = Inr m'"
proof (induction pids arbitrary: m)
  case (Cons pid pids)
  then show ?case using reconnect_peer_returns [OF Cons.prems, of net now pid m] by auto
qed simp

lemma attemptReconnects_returns: "keeps_iterators cb \<Longrightarrow> \<exists>m'. attemptReconnects net cb m = Inr m'"
  by (simp add: attemptReconnects_def nowMs_def reconnect_peers_returns Let_def)

lemma processEvents_no_fault:
  assumes "keeps_iterators cb"
  shows "processEvents net cb m \<noteq> Some (Inl f)"
proof -
  have "\<exists>m'. attemptReconnects net cb x = Inr m'" and "\<exists>m'. removeDisconnected net cb x = Inr m'" for x
    using assms by (rule attemptReconnects_returns, rule removeDisconnected_returns)
  then show ?thesis
    unfolding processEvents_def
    by (auto split: sum.split option.split) (metis Inl_Inr_False)+
qed

text \<open>Without a listening socket a poll returns as soon as reading does.\<close>

lemma process_peers_returns:
  assumes "net_recv_finite net"
  shows "\<exists>m'. process_peers net ready pids m = Some m'"
proof (induction pids arbitrary: m)
  case (Cons pid pids)
  have "\<exists>m1. (case peer_at m pid of None \<Rightarrow> Some m
      | Some conn \<Rightarrow> (case ready of (readable, writable, exceptional) \<Rightarrow>
           if \<not> polled conn then Some m
           else if socket conn \<in> set exceptional
           then Some (push_pending pid (set_peer pid (conn\<lparr>connected := False\<rparr>) m))
           else (case (if socket conn \<in> set readable then processRead net pid m else Some m) of
                   None \<Rightarrow> None
                 | Some m1 \<Rightarrow> Some (if socket conn \<in> set writable then processWrite net pid m1 else m1)))) = Some m1"
    using processRead_returns [OF assms, of pid m] by (auto split: option.split prod.split)
  then show ?case using Cons by auto
qed simp

lemma poll_sockets_returns: "net_recv_finite net \<Longrightarrow> \<exists>m'. poll_sockets net m = Some m'"
  using process_peers_returns by (auto simp: poll_sockets_def Let_def split: option.split)


section \<open>The history only grows\<close>

definition extends :: "net_history \<Rightarrow> 'a manager_scheme \<Rightarrow> bool" where
  "extends h m \<longleftrightarrow> manager_inv m \<and> suffix h (net_hist m)"

interpretation grow: manager_property "extends h" for h
  by unfold_locales
    (auto simp: extends_def suffix_ConsI mi.log mi.pending mi.next_id mi.listening mi.port mi.update
      mi.add mi.erase mi.cleared mi.init mi.stop mi.callback dest: mi.peers)

lemma processEvents_extends:
  assumes "grow.keeps (net_hist m) cb" and "manager_inv m" and "processEvents net cb m = Some (Inr m')"
  shows "suffix (net_hist m) (net_hist m')"
  using grow.processEvents_keeps [OF assms(1) _ assms(3)] assms(2) by (simp add: extends_def)

end
