(* ===== verification/Hook_Safety.thy ===== *)
theory Hook_Safety
  imports Hook Callback_Safety
begin

text \<open>
  The hook as the game's process runs it.  The pump thread, the injection thread and the game's own
  threads take turns in any order (\<open>hooked\<close>); the invariant \<open>hook_inv\<close> holds in every state they can
  reach, and the calls fail exactly where a buffer is too small.
\<close>

section \<open>The callback\<close>

lemma manager_inv_hook [simp]:
  "manager_inv (st\<lparr>g_connectedPeer := p\<rparr>) = manager_inv (st :: hook)"
  "manager_inv (st\<lparr>g_strRemoteIP := ip\<rparr>) = manager_inv st"
  "manager_inv (st\<lparr>g_nPort := prt\<rparr>) = manager_inv st"
  "manager_inv (st\<lparr>g_stopPumpThread := b\<rparr>) = manager_inv st"
  "manager_inv (st\<lparr>g_hPumpThread := a\<rparr>) = manager_inv st"
  "manager_inv (st\<lparr>hInjectionThread := a\<rparr>) = manager_inv st"
  "manager_inv (st\<lparr>game_memory := mem\<rparr>) = manager_inv st"
  "manager_inv (st\<lparr>host_hist := h\<rparr>) = manager_inv st"
  "manager_inv (st\<lparr>g_localSteamID := sid\<rparr>) = manager_inv st"
  "manager_inv (st\<lparr>g_originalReadData := x\<rparr>) = manager_inv st"
  "manager_inv (st\<lparr>g_originalReadSize := sz\<rparr>) = manager_inv st"
  "manager_inv (st\<lparr>g_originalReadSteamID := sid\<rparr>) = manager_inv st"
  "manager_inv (st\<lparr>g_tcpRecvBuffer := x\<rparr>) = manager_inv st"
  "manager_inv (st\<lparr>g_hasTcpData := b\<rparr>) = manager_inv st"
  "manager_inv (st\<lparr>g_tcpRecvSteamID := sid\<rparr>) = manager_inv st"
  "manager_inv (st\<lparr>g_pObject := a\<rparr>) = manager_inv st"
  "manager_inv (st\<lparr>g_pOriginalVTable := a\<rparr>) = manager_inv st"
  "manager_inv (st\<lparr>g_pNewVTable := a\<rparr>) = manager_inv st"
  by (simp_all add: manager_inv_def)

lemma hook_fields [simp]:
  "g_tcpRecvBuffer (log_call e st) = g_tcpRecvBuffer st"
  "g_hasTcpData (log_call e st) = g_hasTcpData st"
  "g_tcpRecvSteamID (log_call e st) = g_tcpRecvSteamID st"
  "g_connectedPeer (log_call e st) = g_connectedPeer st"
  "g_localSteamID (log_call e st) = g_localSteamID st"
  "g_tcpRecvBuffer (set_peer pid c st) = g_tcpRecvBuffer st"
  "g_hasTcpData (set_peer pid c st) = g_hasTcpData st"
  "g_tcpRecvSteamID (set_peer pid c st) = g_tcpRecvSteamID st"
  "g_connectedPeer (set_peer pid c st) = g_connectedPeer st"
  "g_localSteamID (set_peer pid c st) = g_localSteamID st"
  "g_tcpRecvBuffer (push_pending pid st) = g_tcpRecvBuffer st"
  "g_hasTcpData (push_pending pid st) = g_hasTcpData st"
  "g_tcpRecvSteamID (push_pending pid st) = g_tcpRecvSteamID st"
  "g_connectedPeer (push_pending pid st) = g_connectedPeer st"
  "g_localSteamID (push_pending pid st) = g_localSteamID st"
  by (simp_all add: log_call_def set_peer_def push_pending_def)

lemma ConnectionCallback_keys:
  "map fst (m_connections (ConnectionCallback net pid up d st)) = map fst (m_connections st)"
  by (simp add: ConnectionCallback_def P2P_SendPacket_state sendPacket_keys Let_def)

lemma hook_callback_keeps_iterators: "keeps_iterators (internalConnectionCallback (ConnectionCallback net))"
  by (simp add: keeps_iterators_def internalConnectionCallback_def ConnectionCallback_keys)
    (simp add: ConnectionCallback_def)

lemma hook_callback_ok: "callback_ok (ConnectionCallback net)"
  by (simp add: callback_ok_def ConnectionCallback_def P2P_SendPacket_state sendPacket_initialized
      mi.sendPacket_keeps Let_def)


section \<open>The invariant\<close>

text \<open>
  The library is consistent, the size of the current packet fits the 32 bits in which the game is
  told, and there are no left-overs when there is no packet.
\<close>

definition hook_inv :: "hook \<Rightarrow> bool" where
  "hook_inv st \<longleftrightarrow> manager_inv st \<and> length (g_tcpRecvBuffer st) < 2 ^ 32 \<and>
     (g_hasTcpData st \<or> g_tcpRecvBuffer st = [] \<and> g_tcpRecvSteamID st = 0)"

definition same_packet :: "hook \<Rightarrow> hook \<Rightarrow> bool" where
  "same_packet st st' \<longleftrightarrow> g_tcpRecvBuffer st' = g_tcpRecvBuffer st \<and>
     g_hasTcpData st' = g_hasTcpData st \<and> g_tcpRecvSteamID st' = g_tcpRecvSteamID st"

lemma hook_inv_same: "hook_inv st \<Longrightarrow> manager_inv st' \<Longrightarrow> same_packet st st' \<Longrightarrow> hook_inv st'"
  by (simp add: hook_inv_def same_packet_def)

interpretation hi: manager_property hook_inv
  by unfold_locales
    (auto simp: hook_inv_def mi.log mi.pending mi.next_id mi.listening mi.port mi.update mi.add
      mi.erase mi.cleared mi.init mi.stop mi.callback dest: mi.peers)


lemma hook_callback_keeps: "hi.keeps (internalConnectionCallback (ConnectionCallback net))"
proof -
  have "hook_inv (ConnectionCallback net pid up d st) \<and>
      m_initialized (ConnectionCallback net pid up d st) = m_initialized st" if "hook_inv st" for pid up d st
  proof -
    have "hook_inv (st\<lparr>g_connectedPeer := p\<rparr>)" for p using that by (simp add: hook_inv_def)
    then show ?thesis
      using that
      by (auto simp: ConnectionCallback_def P2P_SendPacket_state sendPacket_initialized Let_def
          intro!: hi.sendPacket_keeps)
  qed
  then show ?thesis by (simp add: hi.keeps_def internalConnectionCallback_def)
qed

lemma RunCallbacks_keeps:
  assumes "hook_inv st" and "P2P_RunCallbacks net (ConnectionCallback net) st = Some (Inr st')"
  shows "hook_inv st'"
  using hi.processEvents_keeps [OF hook_callback_keeps assms(1)] assms
  by (auto simp: P2P_RunCallbacks_def split: if_splits)

lemma SendPacket_keeps: "hook_inv st \<Longrightarrow> hook_inv (snd (P2P_SendPacket net pid dat sz st))"
  by (simp add: P2P_SendPacket_state hi.sendPacket_keeps)

lemma hook_inv_log [simp]: "hook_inv (log_host e st) = hook_inv st"
  by (simp add: hook_inv_def log_host_def)

lemma fetch_packet_keeps:
  assumes "hook_inv st" and "\<not> g_hasTcpData st"
  shows "hook_inv (fetch_packet st)"
proof (cases "P2P_IsPacketAvailable P2P_INVALID_PEER_ID st")
  case None
  then show ?thesis using assms by (simp add: fetch_packet_def)
next
  case (Some a)
  obtain sz pid where a: "a = (sz, pid)" by (cases a)
  obtain res out st1 where rd: "P2P_ReadPacket pid (Some (replicate (unat sz) 0)) sz st = (res, out, st1)"
    by (cases "P2P_ReadPacket pid (Some (replicate (unat sz) 0)) sz st")
  have st1: "hook_inv st1"
    using rd assms(1) hi.readPacket_keeps [OF assms(1), of pid "Some (replicate (unat sz) 0)" sz]
    by (auto simp: P2P_ReadPacket_def split: if_splits option.splits prod.splits)
  have "min k (unat (n - 8 :: u32)) < 4294967296" for k n
    using unat_bound [of "n - 8"] by (simp add: min_less_iff_disj)
  then show ?thesis
    using Some a rd st1
    by (auto simp: fetch_packet_def hook_inv_def split: option.split)
qed


section \<open>All interleavings\<close>

text \<open>
  The states of the process after the DLL was loaded.  A step is one call of the game, one round of
  one of the two threads, a change of the game's own memory, or the unloading of the DLL.
\<close>

inductive hooked :: "host \<Rightarrow> net \<Rightarrow> hook \<Rightarrow> bool" for host net where
  load: "hook_DllMain host net DLL_PROCESS_ATTACH (hook_start mem) = Inr (ok, st) \<Longrightarrow> hooked host net st"
| write_memory: "hooked host net st \<Longrightarrow> hooked host net (st\<lparr>game_memory := mem\<rparr>)"
| available: "hooked host net st \<Longrightarrow>
    Hook_IsP2PPacketAvailable host net thisptr pcub ch st = Some (Inr (res, pcub', st')) \<Longrightarrow> hooked host net st'"
| read: "hooked host net st \<Longrightarrow>
    Hook_ReadP2PPacket dest n pcub psid st = Inr (res, dest', pcub', psid', st') \<Longrightarrow> hooked host net st'"
| send: "hooked host net st \<Longrightarrow>
    Hook_SendP2PPacket host net thisptr sid dat n ty ch st = Inr (res, st') \<Longrightarrow> hooked host net st'"
| pump: "hooked host net st \<Longrightarrow> PumpThread net st = Some (Inr (go, st')) \<Longrightarrow> hooked host net st'"
| inject: "hooked host net st \<Longrightarrow> InjectionThread host net st = Some st' \<Longrightarrow> hooked host net st'"
| unload: "hooked host net st \<Longrightarrow>
    hook_DllMain host net DLL_PROCESS_DETACH st = Inr (ok, st') \<Longrightarrow> hooked host net st'"

lemma config_lines_keeps: "hook_inv st \<Longrightarrow> config_lines ls st = Inr st' \<Longrightarrow> hook_inv st'"
proof (induction ls arbitrary: st)
  case (Cons l ls)
  then obtain st1 where st1: "config_line l st = Inr st1" "config_lines ls st1 = Inr st'"
    by (auto split: sum.splits)
  then have "manager_inv st1" "same_packet st st1"
    using Cons.prems(1)
    by (auto simp: config_line_def hook_inv_def same_packet_def Let_def split: if_splits sum.splits)
  then show ?case using Cons.IH [OF _ st1(2)] hook_inv_same [OF Cons.prems(1)] by blast
qed simp

lemma LoadConfig_keeps: "hook_inv st \<Longrightarrow> LoadConfig host st = Inr (ok, st') \<Longrightarrow> hook_inv st'"
  using config_lines_keeps by (auto simp: LoadConfig_def Let_def split: option.splits sum.splits)

lemma hook_inv_globals [simp]:
  "hook_inv (st\<lparr>g_manager := a\<rparr>) = hook_inv st"
  "hook_inv (st\<lparr>g_userCallback := a\<rparr>) = hook_inv st"
  "hook_inv (st\<lparr>g_userCallbackData := i\<rparr>) = hook_inv st"
  "hook_inv (st\<lparr>g_connectedPeer := p\<rparr>) = hook_inv st"
  "hook_inv (st\<lparr>g_stopPumpThread := b\<rparr>) = hook_inv st"
  "hook_inv (st\<lparr>g_hPumpThread := h\<rparr>) = hook_inv st"
  "hook_inv (st\<lparr>hInjectionThread := h\<rparr>) = hook_inv st"
  "hook_inv (st\<lparr>game_memory := mem\<rparr>) = hook_inv st"
  "hook_inv (st\<lparr>g_localSteamID := sid\<rparr>) = hook_inv st"
  "hook_inv (st\<lparr>g_originalReadData := x\<rparr>) = hook_inv st"
  "hook_inv (st\<lparr>g_originalReadSize := sz\<rparr>) = hook_inv st"
  "hook_inv (st\<lparr>g_originalReadSteamID := sid\<rparr>) = hook_inv st"
  "hook_inv (st\<lparr>g_pObject := p\<rparr>) = hook_inv st"
  "hook_inv (st\<lparr>g_pOriginalVTable := p\<rparr>) = hook_inv st"
  "hook_inv (st\<lparr>g_pNewVTable := p\<rparr>) = hook_inv st"
  by (simp_all add: hook_inv_def)

lemma make_manager_fields [simp]:
  "g_tcpRecvBuffer (make_manager st) = g_tcpRecvBuffer st"
  "g_hasTcpData (make_manager st) = g_hasTcpData st"
  "g_tcpRecvSteamID (make_manager st) = g_tcpRecvSteamID st"
  by (cases st; simp add: make_manager_def manager_new_def manager.defs)+

lemma P2P_Init_keeps: "hook_inv st \<Longrightarrow> hook_inv (snd (P2P_Init net st))"
proof -
  assume st: "hook_inv st"
  have "hook_inv (make_manager st)"
    using st manager_inv_make [of st] by (simp add: hook_inv_def)
  then show ?thesis
    using st hi.initialize_keeps [of "make_manager st" net] hi.callback
    by (auto simp: P2P_Init_def setConnectionCallback_def split: prod.split bool.split)
qed

lemma P2P_Connect_keeps:
  "hook_inv st \<Longrightarrow> hook_inv (snd (snd (P2P_Connect net (ConnectionCallback net) ip prt out st)))"
  using hi.connect_keeps [OF hook_callback_keeps [of net], of st net ip prt]
  by (auto simp: P2P_Connect_def split: prod.split option.split)

lemma P2P_SetAutoReconnect_keeps: "hook_inv st \<Longrightarrow> hook_inv (P2P_SetAutoReconnect pid b d x st)"
  by (simp add: P2P_SetAutoReconnect_def hi.setAutoReconnect_keeps)

lemma P2P_Shutdown_keeps: "hook_inv st \<Longrightarrow> hook_inv (P2P_Shutdown st)"
  by (simp add: P2P_Shutdown_def Let_def hi.shutdown_keeps)

lemma P2P_Disconnect_keeps:
  "hook_inv st \<Longrightarrow> P2P_Disconnect net (ConnectionCallback net) pid st = Inr st' \<Longrightarrow> hook_inv st'"
  using hi.disconnect_keeps [OF hook_callback_keeps] by (auto simp: P2P_Disconnect_def split: if_splits)

lemma connect_to_relay_keeps: "hook_inv st \<Longrightarrow> hook_inv (connect_to_relay net st)"
  using P2P_Connect_keeps [of st net "Some (c_str (g_strRemoteIP st))" "g_nPort st" True]
  by (auto simp: connect_to_relay_def Let_def P2P_SetAutoReconnect_keeps split: prod.split option.split)


lemma load_keeps:
  assumes "hook_inv st" and "hook_attach host net st = Inr (ok, st')"
  shows "hook_inv st'"
proof -
  obtain b st1 where st1: "LoadConfig host st = Inr (b, st1)"
    using assms(2) by (cases "LoadConfig host st") (auto simp: hook_attach_def)
  then have "hook_inv (snd (P2P_Init net st1))" using LoadConfig_keeps [OF assms(1)] P2P_Init_keeps by blast
  then show ?thesis
    using assms(2) st1 connect_to_relay_keeps
    by (auto simp: hook_attach_def start_thread_def P2P_SetConnectionCallback_def Let_def
        split: prod.splits if_splits)
qed

lemma unload_keeps:
  assumes "hook_inv st" and "hook_detach net st = Inr (ok, st')"
  shows "hook_inv st'"
proof -
  have un: "hook_inv (UnhookVTable s) = hook_inv s" for s by (simp add: UnhookVTable_def)
  have jn: "hook_inv (join_thread h s) = hook_inv s" for h s by (simp add: join_thread_def)
  let ?st1 = "P2P_SetAutoReconnect (g_connectedPeer st) False 0 0 st"
  have "hook_inv s" if "P2P_Disconnect net (ConnectionCallback net) (g_connectedPeer st) ?st1 = Inr s" for s
    using P2P_Disconnect_keeps [OF P2P_SetAutoReconnect_keeps [OF assms(1)] that] .
  then show ?thesis
    using assms
    by (auto simp: hook_detach_def Let_def un jn intro!: P2P_Shutdown_keeps split: sum.splits if_splits)
qed

lemma HookVTable_keeps: "hook_inv st \<Longrightarrow> hook_inv (snd (HookVTable host st))"
  by (simp add: HookVTable_def Let_def)

lemma InjectionThread_keeps: "hook_inv st \<Longrightarrow> InjectionThread host net st = Some st' \<Longrightarrow> hook_inv st'"
  using HookVTable_keeps [of st host]
  by (auto simp: InjectionThread_def GetLocalSteamID_def Let_def intro!: SendPacket_keeps
      split: if_splits prod.splits)

lemma ask_original_keeps: "hook_inv st \<Longrightarrow> hook_inv (snd (ask_original host thisptr pcub ch st))"
  by (simp add: ask_original_def drop_original_def Let_def split: prod.split option.split)

lemma available_cases:
  assumes "Hook_IsP2PPacketAvailable host net thisptr pcub ch st = Some (Inr (res, pcub', st'))"
  obtains st3 where
    "P2P_RunCallbacks net (ConnectionCallback net) (snd (ask_original host thisptr pcub ch st)) = Some (Inr st3)"
    "st' = (if g_hasTcpData st3 then st3 else fetch_packet st3)" "res = g_hasTcpData st'"
  using assms
  by (auto simp: Hook_IsP2PPacketAvailable_def Let_def split: prod.splits option.splits sum.splits if_splits)

lemma available_keeps:
  assumes "hook_inv st" and "Hook_IsP2PPacketAvailable host net thisptr pcub ch st = Some (Inr (res, pcub', st'))"
  shows "hook_inv st'"
  using assms(2)
proof (rule available_cases)
  fix st3
  assume "P2P_RunCallbacks net (ConnectionCallback net) (snd (ask_original host thisptr pcub ch st)) = Some (Inr st3)"
  then have "hook_inv st3" using RunCallbacks_keeps ask_original_keeps [OF assms(1)] by blast
  moreover assume "st' = (if g_hasTcpData st3 then st3 else fetch_packet st3)"
  ultimately show ?thesis using fetch_packet_keeps by simp
qed

lemma hooked_inv: "hooked host net st \<Longrightarrow> hook_inv st"
proof (induction rule: hooked.induct)
  case (load mem ok st)
  have "hook_inv (hook_start mem)"
    by (simp add: hook_inv_def hook_start_def p2p_start_def manager_inv_def manager_new_def manager.defs
        p2p.defs hook.defs um_wf_def)
  then show ?case using load load_keeps by (simp add: hook_DllMain_def)
next
  case (read st dest n pcub psid res dest' pcub' psid' st')
  then show ?case
    by (auto simp: Hook_ReadP2PPacket_def hook_inv_def Let_def split: if_splits sum.splits option.splits)
next
  case (send st thisptr sid dat n ty ch res st')
  then show ?case
    by (auto simp: Hook_SendP2PPacket_def Let_def intro!: SendPacket_keeps split: if_splits sum.splits)
next
  case (pump st go st')
  then show ?case using RunCallbacks_keeps by (auto simp: PumpThread_def split: if_splits option.splits sum.splits)
next
  case (unload st ok st')
  then show ?case using unload_keeps by (simp add: hook_DllMain_def)
next
  case (available st thisptr pcub ch res pcub' st')
  then show ?case using available_keeps by blast
next
  case (inject st st')
  then show ?case using InjectionThread_keeps by blast
qed simp

end
