(* ===== verification/Hook_Streams.thy ===== *)
theory Hook_Streams
  imports Hook_Safety
begin

text \<open>
  What the hook does with packets: the bytes it sends for a packet of the game, the packets it hands
  to the game, and the loops in which a game sends and receives.
\<close>

section \<open>Identifiers\<close>

lemma length_steam_id_bytes [simp]: "length (steam_id_bytes sid) = 8"
  by (simp add: steam_id_bytes_def)

lemma steam_id_bytes_not_Nil [simp]: "steam_id_bytes sid \<noteq> []"
  using length_steam_id_bytes [of sid] by (metis length_0_conv zero_neq_numeral)

lemma steam_id_roundtrip: "steam_id_of (steam_id_bytes sid @ bs) = sid"
proof -
  have "unat sid < 256 ^ 8" using unat_bound [of sid] by simp
  then have "le_nat (le_bytes 8 (unat sid)) = unat sid" by (simp only: le_nat_le_bytes mod_less)
  then show ?thesis by (simp add: steam_id_of_def steam_id_bytes_def)
qed

lemma steam_id_bytes_inject: "steam_id_bytes a = steam_id_bytes b \<longleftrightarrow> a = b"
  by (metis steam_id_roundtrip)


section \<open>Sending\<close>

text \<open>The packet for a piece of data, in front of which the relay finds the mark of the addressee.\<close>

definition game_packet :: "CSteamID \<Rightarrow> CSteamID \<Rightarrow> bytes \<Rightarrow> bytes" where
  "game_packet target local dat = steam_id_bytes target @ steam_id_bytes local @ dat"

lemma unat_packet_size:
  assumes "unat (cub :: u32) = n" and "n + 16 < 2 ^ 32"
  shows "unat (16 + cub) = 16 + n"
proof -
  have "unat (16 + cub) = unat (16 :: u32) + unat cub" using assms by (intro unat_add_lem [THEN iffD1]) simp
  then show ?thesis using assms(1) by simp
qed

lemma memcpy_at_replicate:
  "length src \<le> n \<Longrightarrow> memcpy_at 0 src (replicate n x) = src @ replicate (n - length src) x"
  by (simp add: memcpy_at_def)

lemma build_packet_eq:
  assumes "unat cub = length dat" and "length dat + 16 < 2 ^ 32"
  shows "build_packet target local (Some dat) cub (8 + 8 + cub) = Inr (game_packet target local dat)"
proof -
  let ?n = "length dat"
  have n: "unat (16 + cub) = 16 + ?n" using assms by (intro unat_packet_size)
  have c1: "copy_into 0 (steam_id_bytes target) (replicate (unat (16 + cub)) 0) =
      Inr (steam_id_bytes target @ replicate (8 + ?n) 0)"
    by (simp only: n copy_into_def) (simp add: memcpy_at_replicate)
  have c2: "copy_into 8 (steam_id_bytes local) (steam_id_bytes target @ replicate (8 + ?n) 0) =
      Inr (steam_id_bytes target @ steam_id_bytes local @ replicate ?n 0)"
    using memcpy_at_append [of "steam_id_bytes target" "steam_id_bytes local" "replicate (8 + ?n) 0"]
    by (simp add: copy_into_def memcpy_at_replicate)
  have c3: "copy_into 16 dat (steam_id_bytes target @ steam_id_bytes local @ replicate ?n 0) =
      Inr (game_packet target local dat)"
    using memcpy_at_append [of "steam_id_bytes target @ steam_id_bytes local" dat "replicate ?n 0"]
    by (simp add: copy_into_def game_packet_def)
  have "cub = 0 \<longleftrightarrow> dat = []" using assms(1) by (auto simp: unat_eq_0 [symmetric])
  then show ?thesis using assms(1) by (simp add: build_packet_def c1 c2 c3 game_packet_def)
qed

lemma build_packet_takes:
  assumes "unat cub \<le> length dat" and "unat cub + 16 < 2 ^ 32"
  shows "build_packet target local (Some dat) cub (8 + 8 + cub) = Inr (game_packet target local (take (unat cub) dat))"
proof -
  have "build_packet target local (Some dat) cub t = build_packet target local (Some (take (unat cub) dat)) cub t" for t
    using assms(1) by (simp add: build_packet_def split: sum.split)
  then show ?thesis using build_packet_eq [of cub "take (unat cub) dat"] assms by simp
qed

lemma build_packet_overrun:
  assumes "unat cub + 16 \<ge> 2 ^ 32"
  shows "build_packet target local dat cub (8 + 8 + cub) = Inl BufferOverrun"
proof -
  have "unat (16 + cub) = (16 + unat cub) mod 2 ^ 32" by (simp add: unat_word_ariths)
  moreover have "(16 + unat cub) mod 2 ^ 32 < 16"
    using assms unat_bound [of cub] by (simp add: mod_if [of "16 + unat cub"])
  ultimately have "unat (16 + cub) < 16" by simp
  then show ?thesis by (auto simp: build_packet_def copy_into_def length_memcpy_at split: option.split)
qed

lemma hook_log_simps [simp]:
  "m_connections (log_host e st) = m_connections st" "net_hist (log_host e st) = net_hist st"
  "g_connectedPeer (log_host e st) = g_connectedPeer st" "g_localSteamID (log_host e st) = g_localSteamID st"
  "m_initialized (log_host e st) = m_initialized st" "g_manager (log_host e st) = g_manager st"
  "m_pendingRemove (log_host e st) = m_pendingRemove st" "m_listenSocket (log_host e st) = m_listenSocket st"
  "g_hasTcpData (log_host e st) = g_hasTcpData st"
  "usable (log_host e st) = usable st"
  by (simp_all add: log_host_def usable_def)

text \<open>A network that takes every byte at once, so that nothing is buffered.\<close>

definition net_takes_all :: "net \<Rightarrow> bool" where
  "net_takes_all net \<longleftrightarrow> (\<forall>h s buf. net_send net h s buf = Inr (length buf))"

text \<open>The hook is connected to the relay.\<close>

definition connected_to_relay :: "hook \<Rightarrow> P2PPeerID \<Rightarrow> ClientConnection \<Rightarrow> bool" where
  "connected_to_relay st pid conn \<longleftrightarrow> usable st \<and> g_connectedPeer st = pid \<and> pid \<noteq> P2P_INVALID_PEER_ID \<and>
     peer_at st pid = Some conn \<and> connected conn \<and> sendBuffer conn = []"

lemma Hook_SendP2PPacket_eq:
  assumes "connected_to_relay st pid conn" and "unat cub = length dat" and "length dat + 16 < 2 ^ 32"
    and "net_takes_all net"
  shows "\<exists>res e. Hook_SendP2PPacket host net thisptr target (Some dat) cub ty ch st =
     Inr (res, log_call (NSend (socket conn) (frame (game_packet target (g_localSteamID st) dat))
       (Inr (length (frame (game_packet target (g_localSteamID st) dat))))) (log_host e st))"
proof -
  let ?p = "game_packet target (g_localSteamID st) dat"
  have n: "unat (16 + cub) = length ?p"
    using unat_packet_size [OF assms(2,3)] by (simp add: game_packet_def)
  have "createSendFrame ?p (16 + cub) = frame ?p" using n by (rule createSendFrame_frame)
  moreover have "16 + cub \<noteq> 0" using n by (auto simp: game_packet_def unat_eq_0 [symmetric])
  moreover have "net_send net h s buf = Inr (length buf)" for h s buf
    using assms(4) by (simp add: net_takes_all_def)
  ultimately show ?thesis
    using assms(1) build_packet_eq [OF assms(2,3), of target "g_localSteamID st"]
    by (simp add: Hook_SendP2PPacket_def connected_to_relay_def Let_def P2P_SendPacket_state sendPacket_def
        send_call_eq) blast
qed


text \<open>The game sends a list of packets, each to its addressee.\<close>

fun game_sends ::
    "host \<Rightarrow> net \<Rightarrow> address \<Rightarrow> int \<Rightarrow> int \<Rightarrow> (CSteamID \<times> bytes) list \<Rightarrow> hook \<Rightarrow> hook_fault + hook" where
  "game_sends host net thisptr ty ch [] st = Inr st"
| "game_sends host net thisptr ty ch ((target, dat) # rest) st =
     (case Hook_SendP2PPacket host net thisptr target (Some dat) (word_of_nat (length dat)) ty ch st of
        Inl f \<Rightarrow> Inl f
      | Inr (_, st1) \<Rightarrow> game_sends host net thisptr ty ch rest st1)"

lemma game_sends_stream:
  assumes "connected_to_relay st pid conn" and "\<forall>(t, d) \<in> set sends. length d + 16 < 2 ^ 32"
    and "net_takes_all net"
  shows "\<exists>st'. game_sends host net thisptr ty ch sends st = Inr st' \<and> connected_to_relay st' pid conn \<and>
     g_localSteamID st' = g_localSteamID st \<and>
     net_sent (socket conn) (net_hist st') = net_sent (socket conn) (net_hist st) @
       concat (map (\<lambda>(t, d). frame (game_packet t (g_localSteamID st) d)) sends)"
  using assms(1,2)
proof (induction sends arbitrary: st)
  case (Cons a sends)
  obtain t d where a: "a = (t, d)" by (cases a)
  have len: "length d + 16 < 2 ^ 32" using Cons.prems(2) a by simp
  have "unat (word_of_nat (length d) :: u32) = length d" using len by (simp add: unat_of_nat)
  from Hook_SendP2PPacket_eq [OF Cons.prems(1) this len assms(3), of host thisptr t ty ch]
  obtain res e where send: "Hook_SendP2PPacket host net thisptr t (Some d) (word_of_nat (length d)) ty ch st =
      Inr (res, log_call (NSend (socket conn) (frame (game_packet t (g_localSteamID st) d))
        (Inr (length (frame (game_packet t (g_localSteamID st) d))))) (log_host e st))" by blast
  let ?st1 = "log_call (NSend (socket conn) (frame (game_packet t (g_localSteamID st) d))
        (Inr (length (frame (game_packet t (g_localSteamID st) d))))) (log_host e st)"
  have "connected_to_relay ?st1 pid conn"
    using Cons.prems(1) by (simp add: connected_to_relay_def usable_def log_call_def)
  from Cons.IH [OF this] Cons.prems(2) send a show ?case by auto
qed simp


section \<open>Receiving\<close>

text \<open>A network on which nothing arrives and nobody connects.\<close>

definition net_quiet :: "net \<Rightarrow> bool" where
  "net_quiet net \<longleftrightarrow> (\<forall>h r w. net_select net h r w = None) \<and>
     (\<forall>h l. fst (net_accept net h l) = INVALID_SOCKET_HANDLE)"

definition peers_up :: "'a p2p_scheme \<Rightarrow> bool" where
  "peers_up st \<longleftrightarrow> usable st \<and> m_pendingRemove st = [] \<and> (\<forall>pid c. peer_at st pid = Some c \<longrightarrow> connected c)"

lemma reconnect_peers_up:
  "\<forall>pid c. peer_at m pid = Some c \<longrightarrow> connected c \<Longrightarrow> reconnect_peers net cb now pids m = Inr m"
  by (induction pids) (auto simp: reconnect_peer_def split: option.split)

lemma attemptReconnects_up:
  assumes "\<forall>pid c. peer_at m pid = Some c \<longrightarrow> connected c"
  shows "attemptReconnects net cb m = Inr (m\<lparr>net_hist := NClock (net_clock net (net_hist m)) # net_hist m\<rparr>)"
  using assms by (simp add: attemptReconnects_def nowMs_def log_call_def Let_def reconnect_peers_up)

lemma removeDisconnected_none: "m_pendingRemove m = [] \<Longrightarrow> removeDisconnected net cb m = Inr m"
  by (simp add: removeDisconnected_def)

lemma RunCallbacks_quiet:
  assumes "net_quiet net" and "peers_up st"
  shows "\<exists>h. P2P_RunCallbacks net user st = Some (Inr (st\<lparr>net_hist := h\<rparr>))"
proof -
  have quiet: "fst (net_accept net h l) = INVALID_SOCKET_HANDLE" "net_select net h r w = None" for h l r w
    using assms(1) by (simp_all add: net_quiet_def)
  have acc: "\<exists>h'. acceptNewConnections net cb (st\<lparr>net_hist := h\<rparr>) = Some (st\<lparr>net_hist := h'\<rparr>)" for cb h
    using quiet(1) [of h "m_listenSocket st"]
    by (cases "net_accept net h (m_listenSocket st)")
      (simp add: acceptNewConnections_def accept_loop.simps log_call_def, metis)
  have poll: "\<exists>h'. poll_sockets net (st\<lparr>net_hist := h\<rparr>) = Some (st\<lparr>net_hist := h'\<rparr>)" for h
    by (auto simp: poll_sockets_def Let_def quiet(2) log_call_def)
  have up: "m_initialized st" "m_pendingRemove st = []" "\<forall>pid c. peer_at st pid = Some c \<longrightarrow> connected c"
    "usable st"
    using assms(2) by (simp_all add: peers_up_def usable_def)
  obtain h1 h2 where "acceptNewConnections net (internalConnectionCallback user)
      (st\<lparr>net_hist := NClock (net_clock net (net_hist st)) # net_hist st\<rparr>) = Some (st\<lparr>net_hist := h1\<rparr>)"
    and "poll_sockets net (st\<lparr>net_hist := h1\<rparr>) = Some (st\<lparr>net_hist := h2\<rparr>)"
    using acc poll by metis
  then show ?thesis
    using up attemptReconnects_up [of "st\<lparr>net_hist := h2\<rparr>" net]
    by (auto simp: P2P_RunCallbacks_def processEvents_def attemptReconnects_up removeDisconnected_none)
qed


text \<open>What a packet of the game looks like in the receive queue: the sender and the data.\<close>

definition relay_packet :: "CSteamID \<times> bytes \<Rightarrow> Packet" where
  "relay_packet p = \<lparr>pkt_data = steam_id_bytes (fst p) @ snd p\<rparr>"

definition fits :: "CSteamID \<times> bytes \<Rightarrow> bool" where
  "fits p \<longleftrightarrow> length (snd p) + 8 < 2 ^ 32"

text \<open>The only peer of the library is the relay, and the packets in its queue are \<open>pkts\<close>.\<close>

definition relay_queue :: "hook \<Rightarrow> (CSteamID \<times> bytes) list \<Rightarrow> bool" where
  "relay_queue st pkts \<longleftrightarrow> (\<exists>pid c. peers_up st \<and> pid \<noteq> P2P_INVALID_PEER_ID \<and> m_connections st = [(pid, c)] \<and>
     m_queue (receiveQueue c) = map relay_packet pkts \<and> list_all fits pkts)"

lemma relay_queue_same:
  "relay_queue st pkts \<Longrightarrow> m_connections st' = m_connections st \<Longrightarrow> usable st' = usable st \<Longrightarrow>
   m_pendingRemove st' = m_pendingRemove st \<Longrightarrow> relay_queue st' pkts"
  by (auto simp: relay_queue_def peers_up_def)

lemma fetch_packet_empty:
  assumes "relay_queue st []"
  shows "fetch_packet st = st"
  using assms
  by (auto simp: relay_queue_def fetch_packet_def P2P_IsPacketAvailable_def isPacketAvailable_def peek_none)

lemma fetch_packet_next:
  assumes "relay_queue st ((sid, dat) # pkts)"
  shows "\<exists>st'. fetch_packet st =
       st'\<lparr>g_tcpRecvSteamID := sid, g_tcpRecvBuffer := dat, g_hasTcpData := True\<rparr> \<and> relay_queue st' pkts"
proof -
  obtain pid c where c: "peers_up st" "pid \<noteq> P2P_INVALID_PEER_ID" "m_connections st = [(pid, c)]"
    "m_queue (receiveQueue c) = relay_packet (sid, dat) # map relay_packet pkts"
    "length dat + 8 < 2 ^ 32" "list_all fits pkts"
    using assms by (auto simp: relay_queue_def fits_def)
  let ?n = "word_of_nat (8 + length dat) :: u32"
  let ?st = "set_peer pid (c\<lparr>receiveQueue := \<lparr>m_queue = map relay_packet pkts\<rparr>\<rparr>) st"
  have n: "unat ?n = 8 + length dat" using c(5) by (simp only: unat_of_nat) simp
  have sz: "Packet_size (relay_packet (sid, dat)) = ?n" by (simp add: Packet_size_def relay_packet_def)
  have n0: "?n \<noteq> 0" and n8: "8 \<le> ?n" using n by (auto simp: word_le_nat_alt unat_eq_0 [symmetric])
  have n8': "unat (word_of_nat (length dat) :: u32) = length dat" using c(5) by (simp add: unat_of_nat)
  have u: "usable st" using c(1) by (simp add: peers_up_def)
  have q: "receiveQueue c = \<lparr>m_queue = relay_packet (sid, dat) # map relay_packet pkts\<rparr>"
    using c(4) by (intro PacketQueue_eqI) simp
  have avail: "P2P_IsPacketAvailable P2P_INVALID_PEER_ID st = Some (?n, pid)"
    using u c(3) by (simp add: P2P_IsPacketAvailable_def isPacketAvailable_def q peek_def sz)
  have data: "memcpy_at 0 (pkt_data (relay_packet (sid, dat))) (replicate (8 + length dat) 0) = steam_id_bytes sid @ dat"
    by (simp add: relay_packet_def)
  have "P2P_ReadPacket pid (Some (replicate (unat ?n) 0)) ?n st =
      (P2P_OK, Some (steam_id_bytes sid @ dat, ?n, pid), ?st)"
    using u c(2,3) n0
    by (simp only: n) (simp add: P2P_ReadPacket_def isPacketAvailable_def q peek_def sz readPacket_def pop_def
        data um_find_def Let_def)
  then have "fetch_packet st =
      ?st\<lparr>g_tcpRecvSteamID := sid, g_tcpRecvBuffer := dat, g_hasTcpData := True\<rparr>"
    using n8 by (simp add: fetch_packet_def avail n8' steam_id_roundtrip)
  moreover have "relay_queue ?st pkts"
    using c by (auto simp: relay_queue_def peers_up_def set_peer_def usable_def um_find_def)
  ultimately show ?thesis by blast
qed


lemma ask_original_simps [simp]:
  "m_connections (snd (ask_original host thisptr pcub ch st)) = m_connections st"
  "m_pendingRemove (snd (ask_original host thisptr pcub ch st)) = m_pendingRemove st"
  "usable (snd (ask_original host thisptr pcub ch st)) = usable st"
  "g_hasTcpData (snd (ask_original host thisptr pcub ch st)) = g_hasTcpData st"
  by (simp_all add: ask_original_def drop_original_def log_host_def usable_def Let_def split: prod.split)

text \<open>One call of \<open>IsP2PPacketAvailable\<close> while nothing new arrives.\<close>

lemma available_quiet:
  assumes "net_quiet net" and "relay_queue st pkts" and "\<not> g_hasTcpData st"
  shows "\<exists>st' n. relay_queue st' (tl pkts) \<and>
     Hook_IsP2PPacketAvailable host net thisptr (Some n0) ch st = Some (Inr
       (case pkts of
          [] \<Rightarrow> (False, Some n, st')
        | (sid, dat) # _ \<Rightarrow> (True, Some (word_of_nat (length dat)),
            st'\<lparr>g_tcpRecvSteamID := sid, g_tcpRecvBuffer := dat, g_hasTcpData := True\<rparr>))) \<and>
     (pkts = [] \<longrightarrow> \<not> g_hasTcpData st')"
proof -
  obtain n st2 where ask: "ask_original host thisptr (Some n0) ch st = (Some n, st2)"
    by (cases "ask_original host thisptr (Some n0) ch st") (auto simp: ask_original_def Let_def split: prod.splits)
  have q2: "relay_queue st2 pkts" "\<not> g_hasTcpData st2"
    using ask_original_simps [of host thisptr "Some n0" ch st] ask assms(2,3)
    by (auto intro: relay_queue_same)
  then have "peers_up st2" by (auto simp: relay_queue_def)
  from RunCallbacks_quiet [OF assms(1) this]
  obtain h where run: "P2P_RunCallbacks net (ConnectionCallback net) st2 = Some (Inr (st2\<lparr>net_hist := h\<rparr>))" by blast
  let ?st3 = "st2\<lparr>net_hist := h\<rparr>"
  have q3: "relay_queue ?st3 pkts" "\<not> g_hasTcpData ?st3"
    using q2 by (auto intro: relay_queue_same simp: usable_def)
  show ?thesis
  proof (cases pkts)
    case Nil
    then show ?thesis
      using fetch_packet_empty q3 by (simp add: Hook_IsP2PPacketAvailable_def ask run Let_def)
  next
    case (Cons p ps)
    obtain sid dat where p: "p = (sid, dat)" by (cases p)
    obtain st' where "fetch_packet ?st3 =
        st'\<lparr>g_tcpRecvSteamID := sid, g_tcpRecvBuffer := dat, g_hasTcpData := True\<rparr>" "relay_queue st' ps"
      using fetch_packet_next q3(1) Cons p by blast
    then show ?thesis
      using q3(2) Cons p by (auto simp: Hook_IsP2PPacketAvailable_def ask run Let_def)
  qed
qed

lemma read_current:
  assumes "g_hasTcpData st" and "length (g_tcpRecvBuffer st) < 2 ^ 32"
  shows "Hook_ReadP2PPacket (Some (replicate (length (g_tcpRecvBuffer st)) 0)) n (Some k) (Some s) st =
     Inr (True, Some (g_tcpRecvBuffer st), Some (word_of_nat (length (g_tcpRecvBuffer st))),
       Some (g_tcpRecvSteamID st), st\<lparr>g_hasTcpData := False, g_tcpRecvBuffer := [], g_tcpRecvSteamID := 0\<rparr>)"
proof -
  let ?n = "word_of_nat (length (g_tcpRecvBuffer st)) :: u32"
  have n: "unat ?n = length (g_tcpRecvBuffer st)" using assms(2) by (simp add: unat_of_nat)
  then have "?n > 0 \<longleftrightarrow> g_tcpRecvBuffer st \<noteq> []" by (auto simp: word_less_nat_alt)
  then show ?thesis
    using assms(1) n by (auto simp: Hook_ReadP2PPacket_def copy_into_def Let_def)
qed

text \<open>The game asks and reads until there is no packet or it has read \<open>n\<close> of them.\<close>

fun game_receives ::
    "host \<Rightarrow> net \<Rightarrow> address \<Rightarrow> int \<Rightarrow> nat \<Rightarrow> hook
      \<Rightarrow> (hook_fault + (CSteamID \<times> bytes) list \<times> hook) option" where
  "game_receives host net thisptr ch 0 st = Some (Inr ([], st))"
| "game_receives host net thisptr ch (Suc n) st =
     (case Hook_IsP2PPacketAvailable host net thisptr (Some 0) ch st of
        None \<Rightarrow> None
      | Some (Inl f) \<Rightarrow> Some (Inl f)
      | Some (Inr (ok, sz, st1)) \<Rightarrow>
          if \<not> ok then Some (Inr ([], st1))
          else
            (case Hook_ReadP2PPacket (Some (replicate (unat (the sz)) 0)) (the sz) (Some 0) (Some 0) st1 of
               Inl f \<Rightarrow> Some (Inl f)
             | Inr (_, dest, _, sid, st2) \<Rightarrow>
                 (case game_receives host net thisptr ch n st2 of
                    None \<Rightarrow> None
                  | Some (Inl f) \<Rightarrow> Some (Inl f)
                  | Some (Inr (ps, st3)) \<Rightarrow> Some (Inr ((the sid, the dest) # ps, st3)))))"

lemma game_receives_queue:
  assumes "net_quiet net" and "relay_queue st pkts" and "\<not> g_hasTcpData st"
  shows "\<exists>st'. game_receives host net thisptr ch n st = Some (Inr (take n pkts, st'))"
  using assms(2,3)
proof (induction n arbitrary: st pkts)
  case (Suc n)
  obtain st' k where q: "relay_queue st' (tl pkts)"
    and av: "Hook_IsP2PPacketAvailable host net thisptr (Some 0) ch st = Some (Inr
       (case pkts of
          [] \<Rightarrow> (False, Some k, st')
        | (sid, dat) # _ \<Rightarrow> (True, Some (word_of_nat (length dat)),
            st'\<lparr>g_tcpRecvSteamID := sid, g_tcpRecvBuffer := dat, g_hasTcpData := True\<rparr>)))"
    using available_quiet [OF assms(1) Suc.prems, of host thisptr 0 ch] by blast
  show ?case
  proof (cases pkts)
    case Nil
    then show ?thesis using av by simp
  next
    case (Cons p ps)
    obtain sid dat where p: "p = (sid, dat)" by (cases p)
    have len: "length dat < 2 ^ 32" using Suc.prems(1) Cons p by (auto simp: relay_queue_def fits_def)
    then have un: "unat (word_of_nat (length dat) :: u32) = length dat" by (simp add: unat_of_nat)
    let ?st1 = "st'\<lparr>g_tcpRecvSteamID := sid, g_tcpRecvBuffer := dat, g_hasTcpData := True\<rparr>"
    let ?st2 = "?st1\<lparr>g_hasTcpData := False, g_tcpRecvBuffer := [], g_tcpRecvSteamID := 0\<rparr>"
    have "relay_queue ?st2 ps" using q Cons by (auto intro: relay_queue_same simp: usable_def)
    from Suc.IH [OF this] obtain st3 where "game_receives host net thisptr ch n ?st2 = Some (Inr (take n ps, st3))"
      by auto
    then show ?thesis using av Cons p un read_current [of ?st1] len by simp
  qed
qed simp

end
