(* ===== verification/Hook_Liveness.thy ===== *)
theory Hook_Liveness
  imports Hook_Streams
begin

text \<open>
  Progress: a hook that lost its connection to the relay gets it back and registers again.  The pump
  thread calls \<open>P2P_RunCallbacks\<close> over and over (\<open>polls\<close>); as long as the time of the next attempt has
  not come, a call only reads the clock; when it has come, the library connects, tells the hook, and
  the hook sends its identifier.
\<close>

section \<open>Hypotheses\<close>

text \<open>
  The relay accepts connections.  \<open>connect\<close> on a non-blocking socket succeeds at once or, as Winsock
  documents, reports \<open>WSAEWOULDBLOCK\<close>; then \<open>select\<close> finds the socket writable within the two seconds
  that the library waits, and \<open>SO_ERROR\<close> is zero.
\<close>

definition relay_reachable :: "net \<Rightarrow> string \<Rightarrow> u16 \<Rightarrow> bool" where
  "relay_reachable net ip port \<longleftrightarrow> net_pton net ip \<and> (\<forall>h. net_socket net h \<noteq> INVALID_SOCKET_HANDLE) \<and>
     (\<forall>h s. case net_connect net h s ip port of
        None \<Rightarrow> True
      | Some err \<Rightarrow> wouldBlock err \<and>
          (let h1 = NConnect s ip port (Some err) # h
           in net_select_one net h1 s 2000 = Some False \<and>
              net_so_error net (NSelectOne s 2000 (Some False) # h1) s = Some 0))"

text \<open>Time passes while calls are made.\<close>

definition time_comes :: "net \<Rightarrow> u64 \<Rightarrow> bool" where
  "time_comes net t \<longleftrightarrow> (\<exists>n. \<forall>h. n \<le> length h \<longrightarrow> t \<le> net_clock net h)"

text \<open>The twelve bytes of a registration fit the empty send buffer of a socket that just connected.\<close>

definition registration_taken :: "net \<Rightarrow> P2PPeerID \<Rightarrow> CSteamID \<Rightarrow> bool" where
  "registration_taken net pid sid \<longleftrightarrow>
     (\<forall>h s. net_send net (NNotify pid Connected # h) s (frame (steam_id_bytes sid)) = Inr 12)"

text \<open>No connection breaks: no call on a socket reports an error other than would-block, nor the end.\<close>

definition connection_lasts :: "net \<Rightarrow> bool" where
  "connection_lasts net \<longleftrightarrow>
     (\<forall>h s n. case net_recv net h s n of Inl err \<Rightarrow> wouldBlock err | Inr bs \<Rightarrow> bs \<noteq> []) \<and>
     (\<forall>h s buf err. net_send net h s buf = Inl err \<longrightarrow> wouldBlock err) \<and>
     (\<forall>h rs ws r w e. net_select net h rs ws = Some (r, w, e) \<longrightarrow> e = [])"

text \<open>The hook waits to connect to the relay again.\<close>

definition waits_for_relay :: "hook \<Rightarrow> P2PPeerID \<Rightarrow> ClientConnection \<Rightarrow> bool" where
  "waits_for_relay st pid c \<longleftrightarrow>
     usable st \<and> m_connections st = [(pid, c)] \<and> pid \<noteq> P2P_INVALID_PEER_ID \<and> peerID c = pid \<and>
     \<not> connected c \<and> autoReconnect c \<and> remoteIP c \<noteq> [] \<and> remotePort c \<noteq> 0 \<and> nextReconnectAtMs c \<noteq> 0 \<and>
     m_pendingRemove st = [] \<and> m_listenSocket st = INVALID_SOCKET_HANDLE \<and>
     m_connectionCallback st \<and> g_userCallback st \<and> g_localSteamID st \<noteq> 0"

fun polls :: "nat \<Rightarrow> net \<Rightarrow> hook \<Rightarrow> (client_fault + hook) option" where
  "polls 0 net st = Some (Inr st)"
| "polls (Suc n) net st =
     (case P2P_RunCallbacks net (ConnectionCallback net) st of
        None \<Rightarrow> None
      | Some (Inl f) \<Rightarrow> Some (Inl f)
      | Some (Inr st1) \<Rightarrow> polls n net st1)"

text \<open>
  After the history \<open>h\<close> a socket was created and connected to the peer's address; then the hook was told
  that it is connected, and the socket took the twelve bytes of the hook's identifier, the first
  bytes that went out on it.
\<close>

definition registered_again ::
    "net_history \<Rightarrow> P2PPeerID \<Rightarrow> ClientConnection \<Rightarrow> CSteamID \<Rightarrow> SocketHandle \<Rightarrow> net_history \<Rightarrow> bool" where
  "registered_again h pid c sid s h' \<longleftrightarrow>
     (\<exists>new. suffix (NSend s (frame (steam_id_bytes sid)) (Inr 12) # NNotify pid Connected # new @ h) h' \<and>
        (\<exists>rc. NConnect s (remoteIP c) (remotePort c) rc \<in> set new) \<and>
        net_open s (new @ h) \<and> net_sent s (new @ h) = [])"

text \<open>The hook's peer is connected over the socket, and the hook sends its packets to that peer.\<close>

definition on_relay :: "P2PPeerID \<Rightarrow> SocketHandle \<Rightarrow> hook \<Rightarrow> bool" where
  "on_relay pid s st \<longleftrightarrow> m_pendingRemove st = [] \<and> g_connectedPeer st = pid \<and>
     (\<exists>c. m_connections st = [(pid, c)] \<and> connected c \<and> socket c = s)"

definition comes_back :: "net \<Rightarrow> hook \<Rightarrow> P2PPeerID \<Rightarrow> ClientConnection \<Rightarrow> hook \<Rightarrow> bool" where
  "comes_back net st pid c st' \<longleftrightarrow>
     (\<exists>s. registered_again (net_hist st) pid c (g_localSteamID st) s (net_hist st') \<and>
        (connection_lasts net \<longrightarrow> on_relay pid s st'))"

lemma registered_again_mono:
  assumes "registered_again h pid c sid s h1" and "suffix h0 h" and "suffix h1 h2"
  shows "registered_again h0 pid c sid s h2"
proof -
  obtain e where h: "h = e @ h0" using assms(2) by (auto simp: suffix_def)
  obtain new where new: "suffix (NSend s (frame (steam_id_bytes sid)) (Inr 12) # NNotify pid Connected # new @ h) h1"
    "\<exists>rc. NConnect s (remoteIP c) (remotePort c) rc \<in> set new" "net_open s (new @ h)" "net_sent s (new @ h) = []"
    using assms(1) unfolding registered_again_def by blast
  show ?thesis
    unfolding registered_again_def using new suffix_order.trans [OF new(1) assms(3)]
    by (intro exI [of _ "new @ e"]) (auto simp: h)
qed


section \<open>The moment of the attempt\<close>

text \<open>What the calls of a successful \<open>connectWithTimeout\<close> leave in the history.\<close>

definition fresh_connection :: "string \<Rightarrow> u16 \<Rightarrow> SocketHandle \<Rightarrow> net_history \<Rightarrow> net_history \<Rightarrow> bool" where
  "fresh_connection ip port s new h \<longleftrightarrow> (\<exists>rc. NConnect s ip port rc \<in> set new) \<and>
     net_open s (new @ h) \<and> net_sent s (new @ h) = []"

lemma connectWithTimeout_reachable:
  assumes "relay_reachable net ip port"
  obtains s new where "s \<noteq> INVALID_SOCKET_HANDLE" "fresh_connection ip port s new (net_hist m)"
    "connectWithTimeout net (Some ip) port 2000 m = (s, m\<lparr>net_hist := new @ net_hist m\<rparr>)"
proof -
  let ?s = "net_socket net (net_hist m)"
  let ?m = "setNonBlocking net ?s (setNoDelay net ?s (log_call (NSocket ?s) m))"
  let ?h = "net_hist ?m"
  define opts where "opts = [NSetOption ?s NonBlocking (net_set_option net
      (NSetOption ?s NoDelay (net_set_option net (NSocket ?s # net_hist m) ?s NoDelay) # NSocket ?s # net_hist m) ?s NonBlocking),
    NSetOption ?s NoDelay (net_set_option net (NSocket ?s # net_hist m) ?s NoDelay), NSocket ?s]"
  have h: "?h = opts @ net_hist m" by (simp add: opts_def platform_defs)
  have m: "?m = m\<lparr>net_hist := opts @ net_hist m\<rparr>" by (simp add: opts_def platform_defs)
  have s: "?s \<noteq> INVALID_SOCKET_HANDLE" "net_pton net ip" using assms by (simp_all add: relay_reachable_def)
  let ?rc = "net_connect net ?h ?s ip port"
  define tail where "tail = (case ?rc of None \<Rightarrow> [] | Some err \<Rightarrow> [NSoError ?s (Some 0), NSelectOne ?s 2000 (Some False)])"
  have run: "connectWithTimeout net (Some ip) port 2000 m =
      (?s, m\<lparr>net_hist := (tail @ NConnect ?s ip port ?rc # opts) @ net_hist m\<rparr>)"
  proof (cases ?rc)
    case None
    then show ?thesis
      using s by (simp add: connectWithTimeout_def Let_def tail_def m) (simp add: log_call_def)
  next
    case (Some err)
    have "case ?rc of None \<Rightarrow> True | Some err \<Rightarrow> wouldBlock err \<and>
        (let h1 = NConnect ?s ip port (Some err) # ?h in net_select_one net h1 ?s 2000 = Some False \<and>
           net_so_error net (NSelectOne ?s 2000 (Some False) # h1) ?s = Some 0)"
      using assms unfolding relay_reachable_def by blast
    then show ?thesis
      using s Some by (simp add: connectWithTimeout_def Let_def tail_def m) (simp add: log_call_def)
  qed
  have "fresh_connection ip port ?s (tail @ NConnect ?s ip port ?rc # opts) (net_hist m)"
    using s(1) by (auto simp: fresh_connection_def tail_def opts_def split: option.split)
  with s(1) run show thesis using that by blast
qed

lemma sendPacket_taken:
  assumes "peer_at m pid = Some c" and "connected c" and "sz \<noteq> 0"
    and "net_send net (net_hist m) (socket c) (createSendFrame bs sz) = Inr (length (createSendFrame bs sz))"
  shows "snd (sendPacket net pid (Some bs) sz m) =
     log_call (NSend (socket c) (createSendFrame bs sz) (Inr (length (createSendFrame bs sz)))) m"
  using assms by (simp add: sendPacket_def send_call_eq Let_def)

lemma mark_frame:
  "createSendFrame (steam_id_bytes sid) 8 = frame (steam_id_bytes sid)" "length (frame (steam_id_bytes sid)) = 12"
  by (rule createSendFrame_frame) simp_all

lemma reconnect_registers:
  assumes w: "waits_for_relay st pid c" and r: "relay_reachable net (remoteIP c) (remotePort c)"
    and tk: "registration_taken net pid (g_localSteamID st)"
    and due: "nextReconnectAtMs c \<le> now" and same: "st1 = st\<lparr>net_hist := NClock now # net_hist st\<rparr>"
  obtains st' s where "reconnect_peer net (internalConnectionCallback (ConnectionCallback net)) now pid st1 = Inr st'"
    "registered_again (net_hist st) pid c (g_localSteamID st) s (net_hist st')" "on_relay pid s st'"
    "m_listenSocket st' = INVALID_SOCKET_HANDLE"
proof -
  let ?cb = "internalConnectionCallback (ConnectionCallback net)"
  let ?id = "steam_id_bytes (g_localSteamID st)"
  obtain s new where cw: "s \<noteq> INVALID_SOCKET_HANDLE"
    "fresh_connection (remoteIP c) (remotePort c) s new (net_hist st1)"
    "connectWithTimeout net (Some (remoteIP c)) (remotePort c) 2000 st1 = (s, st1\<lparr>net_hist := new @ net_hist st1\<rparr>)"
    by (rule connectWithTimeout_reachable [OF r])
  let ?c = "c\<lparr>socket := s, connected := True, reconnectAttempt := 0, nextReconnectAtMs := 0\<rparr>"
  let ?st2 = "set_peer pid ?c (st1\<lparr>net_hist := new @ net_hist st1\<rparr>)"
  let ?st3 = "(log_call (NNotify pid Connected) ?st2)\<lparr>g_connectedPeer := pid\<rparr>"
  let ?st' = "log_call (NSend s (frame ?id) (Inr 12)) ?st3"
  have "net_send net (net_hist ?st3) s (frame ?id) = Inr 12"
    using tk by (simp add: registration_taken_def)
  then have "snd (sendPacket net pid (Some ?id) 8 ?st3) = ?st'"
    using sendPacket_taken [of ?st3 pid ?c 8 net ?id] by (simp add: mark_frame)
  then have cb: "notifyConnectionEvent ?cb pid Connected ?st2 = ?st'"
    using w by (simp add: same waits_for_relay_def notifyConnectionEvent_def internalConnectionCallback_def
        ConnectionCallback_def P2P_SendPacket_state usable_def Let_def set_peer_def log_call_def)
  have "reconnect_peer net ?cb now pid st1 = notify_keeping_iterators ?cb pid Connected ?st2"
    using w due cw by (auto simp: same waits_for_relay_def reconnect_peer_def um_find_def)
  moreover have "peer_at ?st2 pid = Some ?c" by simp
  ultimately have run: "reconnect_peer net ?cb now pid st1 = Inr ?st'"
    by (simp only: notify_returns [OF hook_callback_keeps_iterators] cb)
  have reg: "registered_again (net_hist st) pid c (g_localSteamID st) s (net_hist ?st')"
    unfolding registered_again_def using cw(2)
    by (intro exI [of _ "new @ [NClock now]"]) (auto simp: fresh_connection_def same)
  have "on_relay pid s ?st'" "m_listenSocket ?st' = INVALID_SOCKET_HANDLE"
    using w by (simp_all add: on_relay_def same waits_for_relay_def set_peer_def)
  then show thesis using that [OF run reg] by blast
qed


section \<open>One poll\<close>

lemma hook_callback_grows: "grow.keeps h (internalConnectionCallback (ConnectionCallback net))"
proof -
  have "extends h (ConnectionCallback net pid up d st) \<and>
      m_initialized (ConnectionCallback net pid up d st) = m_initialized st" if "extends h st" for pid up d st
  proof -
    have "extends h (st\<lparr>g_connectedPeer := p\<rparr>)" for p using that by (simp add: extends_def)
    then show ?thesis
      using that
      by (auto simp: ConnectionCallback_def P2P_SendPacket_state sendPacket_initialized Let_def
          intro!: grow.sendPacket_keeps)
  qed
  then show ?thesis by (simp add: grow.keeps_def internalConnectionCallback_def)
qed

lemma waits_inv: "waits_for_relay st pid c \<Longrightarrow> manager_inv st"
  by (auto simp: waits_for_relay_def manager_inv_def um_wf_def um_find_def conn_fine_def usable_def)

text \<open>The rest of a poll after the first attempt to reconnect keeps what the history shows.\<close>

lemma rest_of_poll:
  assumes m1: "manager_inv m1" "m_initialized m1" "m_listenSocket m1 = INVALID_SOCKET_HANDLE"
    and at: "attemptReconnects net (internalConnectionCallback (ConnectionCallback net)) m = Inr m1"
    and m: "m_initialized m" and fin: "net_recv_finite net"
  shows "\<exists>m'. processEvents net (internalConnectionCallback (ConnectionCallback net)) m = Some (Inr m') \<and>
     suffix (net_hist m1) (net_hist m')"
proof -
  let ?cb = "internalConnectionCallback (ConnectionCallback net)"
  note keys = hook_callback_keeps_iterators [of net] and grows = hook_callback_grows [of "net_hist m1" net]
  have e1: "extends (net_hist m1) m1" using m1(1) by (simp add: extends_def)
  obtain m3 where m3: "poll_sockets net m1 = Some m3" using poll_sockets_returns [OF fin] by blast
  obtain m4 where m4: "removeDisconnected net ?cb m3 = Inr m4" using removeDisconnected_returns [OF keys] by blast
  obtain m5 where m5: "attemptReconnects net ?cb m4 = Inr m5" using attemptReconnects_returns [OF keys] by blast
  have "extends (net_hist m1) m3" using grow.poll_sockets_keeps [OF e1 m3] by simp
  then have "extends (net_hist m1) m4" using grow.removeDisconnected_keeps [OF grows _ m4] by simp
  then have "extends (net_hist m1) m5" using grow.attemptReconnects_keeps [OF grows _ m5] by simp
  moreover have "processEvents net ?cb m = Some (Inr m5)"
    using m m1(3) by (simp add: processEvents_def at acceptNewConnections_def m3 m4 m5)
  ultimately show ?thesis by (auto simp: extends_def)
qed


section \<open>A connection that lasts\<close>

text \<open>The only peer stays connected over its socket, and nothing but its buffers and the history changes.\<close>

definition goes_on :: "P2PPeerID \<Rightarrow> 'a manager_scheme \<Rightarrow> 'a manager_scheme \<Rightarrow> bool" where
  "goes_on pid m m' \<longleftrightarrow> (\<forall>c. m_connections m = [(pid, c)] \<longrightarrow>
     (\<exists>c' h. m' = m\<lparr>m_connections := [(pid, c')], net_hist := h\<rparr> \<and> socket c' = socket c \<and> connected c' = connected c))"

lemma goes_on_hist: "goes_on pid m (m\<lparr>net_hist := h\<rparr>)"
  unfolding goes_on_def
proof (intro allI impI)
  fix c
  assume "m_connections m = [(pid, c)]"
  then show "\<exists>c' h'. m\<lparr>net_hist := h\<rparr> = m\<lparr>m_connections := [(pid, c')], net_hist := h'\<rparr> \<and>
      socket c' = socket c \<and> connected c' = connected c"
    by (intro exI [of _ c] exI [of _ h]) (cases m, simp)
qed

lemma goes_on_refl: "goes_on pid m m"
  using goes_on_hist [of pid m "net_hist m"] by simp

lemma goes_on_log: "goes_on pid m (log_call e m)"
  by (simp add: log_call_def goes_on_hist)

lemma goes_on_trans: "goes_on pid m1 m2 \<Longrightarrow> goes_on pid m2 m3 \<Longrightarrow> goes_on pid m1 m3"
  by (fastforce simp: goes_on_def)

lemma goes_on_update:
  assumes "peer_at m pid = Some c" and "socket c' = socket c" "connected c' = connected c"
  shows "goes_on pid m (set_peer pid c' (log_call e m))"
  using assms unfolding goes_on_def set_peer_def log_call_def
  by (intro allI impI exI [of _ "e # net_hist m"] exI [of _ c']) (auto simp: um_find_def)

lemma processRead_lasting:
  assumes lasts: "connection_lasts net" and ret: "processRead net pid m = Some m'"
  shows "goes_on pid m m'"
proof -
  have "connection_lasts net \<longrightarrow> goes_on pid m m'"
  proof (rule processRead.raw_induct
      [where P = "\<lambda>net pid m m'. connection_lasts net \<longrightarrow> goes_on pid m m'", OF _ ret], intro impI)
    fix f net pid m m'
    assume IH: "\<And>net pid m m'. f net pid m = Some m' \<Longrightarrow> connection_lasts net \<longrightarrow> goes_on pid m m'"
      and lasts: "connection_lasts net"
      and eq: "(case peer_at m pid of None \<Rightarrow> Some m
         | Some conn \<Rightarrow> (case net_recv_call net (socket conn) m of (r, m1) \<Rightarrow>
             (case r of Inl err \<Rightarrow> if wouldBlock err then Some m1 else Some (mark_broken pid conn m1)
              | Inr bs \<Rightarrow> if bs = [] then Some (mark_broken pid conn m1)
                else let rb = append_bytes bs (word_of_nat (length bs)) (recvBuffer conn)
                  in case parse_packets rb (Packet_of [] 0) (receiveQueue conn) of (rb', q) \<Rightarrow>
                    f net pid (set_peer pid (conn\<lparr>recvBuffer := rb', receiveQueue := q\<rparr>) m1)))) = Some m'"
    show "goes_on pid m m'"
    proof (cases "peer_at m pid")
      case None
      then show ?thesis using eq goes_on_refl by auto
    next
      case (Some conn)
      let ?r = "net_recv net (net_hist m) (socket conn) RECV_BUFFER_SIZE"
      have ok: "case ?r of Inl err \<Rightarrow> wouldBlock err | Inr bs \<Rightarrow> bs \<noteq> []"
        using lasts unfolding connection_lasts_def by blast
      show ?thesis
      proof (cases ?r)
        case (Inl err)
        then have "m' = log_call (NRecv (socket conn) (Inl err)) m" using eq Some ok by (simp add: recv_call_eq)
        then show ?thesis using goes_on_log by blast
      next
        case (Inr bs)
        obtain rb q where rp: "parse_packets (append_bytes bs (word_of_nat (length bs)) (recvBuffer conn))
            (Packet_of [] 0) (receiveQueue conn) = (rb, q)"
          by (cases "parse_packets (append_bytes bs (word_of_nat (length bs)) (recvBuffer conn))
            (Packet_of [] 0) (receiveQueue conn)")
        let ?m1 = "set_peer pid (conn\<lparr>recvBuffer := rb, receiveQueue := q\<rparr>) (log_call (NRecv (socket conn) (Inr bs)) m)"
        have "goes_on pid ?m1 m'"
          using eq Some Inr ok rp lasts by (intro IH [rule_format, of net]) (simp_all add: recv_call_eq)
        moreover have "goes_on pid m ?m1" by (rule goes_on_update [OF Some]) simp_all
        ultimately show ?thesis by (rule goes_on_trans [rotated])
      qed
    qed
  qed
  then show ?thesis using lasts by blast
qed

lemma processWrite_lasting:
  assumes "connection_lasts net" shows "goes_on pid m (processWrite net pid m)"
proof (cases "peer_at m pid")
  case (Some c)
  let ?r = "net_send net (net_hist m) (socket c) (sendBuffer c)"
  have "wouldBlock err" if "?r = Inl err" for err using assms that unfolding connection_lasts_def by blast
  then show ?thesis
    using Some goes_on_refl goes_on_log goes_on_update [OF Some]
    by (cases ?r) (auto simp: processWrite_def send_call_eq)
qed (simp add: processWrite_def goes_on_refl)

lemma poll_sockets_lasting:
  assumes lasts: "connection_lasts net" and ret: "poll_sockets net m = Some m'" and one: "m_connections m = [(pid, c)]"
  shows "goes_on pid m m'"
proof (cases "maxFd m = 0 \<or> net_select net (net_hist m) (readSet m) (writeSet m) = None")
  case True
  then show ?thesis
    using ret goes_on_refl goes_on_log by (auto simp: poll_sockets_def Let_def split: if_splits)
next
  case False
  let ?m1 = "log_call (NSelect (readSet m) (writeSet m)) m"
  obtain r w e where sel: "net_select net (net_hist m) (readSet m) (writeSet m) = Some (r, w, e)" using False by auto
  then have "e = []" using lasts unfolding connection_lasts_def by blast
  moreover have "m_connections ?m1 = [(pid, c)]" "peer_at ?m1 pid = Some c" using one by (simp_all add: um_find_def)
  ultimately have "(if polled c then case (if socket c \<in> set r then processRead net pid ?m1 else Some ?m1) of
      None \<Rightarrow> None | Some m2 \<Rightarrow> Some (if socket c \<in> set w then processWrite net pid m2 else m2) else Some ?m1) = Some m'"
    using ret False sel by (simp add: poll_sockets_def Let_def split: option.splits if_splits)
  then have "goes_on pid ?m1 m'"
    using processRead_lasting [OF lasts, of pid ?m1] processWrite_lasting [OF lasts] goes_on_refl goes_on_trans
    by (auto split: option.splits if_splits) blast+
  then show ?thesis using goes_on_trans [OF goes_on_log] by blast
qed

lemma rest_of_poll_lasting:
  assumes lasts: "connection_lasts net" and on: "on_relay pid s m1" and li: "m_listenSocket m1 = INVALID_SOCKET_HANDLE"
    and at: "attemptReconnects net cb m = Inr m1" and m: "m_initialized m"
    and ret: "processEvents net cb m = Some (Inr m')"
  shows "on_relay pid s m'"
proof -
  obtain c where c: "m_connections m1 = [(pid, c)]" "connected c" "socket c = s" using on by (auto simp: on_relay_def)
  obtain m3 where m3: "poll_sockets net m1 = Some m3" "(case removeDisconnected net cb m3 of Inl f \<Rightarrow> Inl f
      | Inr m4 \<Rightarrow> attemptReconnects net cb m4) = Inr m'"
    using ret m li by (auto simp: processEvents_def at acceptNewConnections_def split: option.splits)
  obtain c' h where s3: "m3 = m1\<lparr>m_connections := [(pid, c')], net_hist := h\<rparr>" "socket c' = s" "connected c'"
    using poll_sockets_lasting [OF lasts m3(1) c(1)] c unfolding goes_on_def by metis
  have "removeDisconnected net cb m3 = Inr m3"
    using on by (simp add: removeDisconnected_none s3(1) on_relay_def)
  moreover have "attemptReconnects net cb m3 = Inr (m3\<lparr>net_hist := NClock (net_clock net (net_hist m3)) # net_hist m3\<rparr>)"
    using s3 by (intro attemptReconnects_up) (auto simp: um_find_def split: if_splits)
  ultimately show ?thesis using m3(2) s3 on by (auto simp: on_relay_def)
qed


section \<open>One poll of a hook that waits\<close>

lemma attempt_waiting:
  assumes w: "waits_for_relay st pid c" and r: "relay_reachable net (remoteIP c) (remotePort c)"
    and tk: "registration_taken net pid (g_localSteamID st)"
  shows "\<exists>st'. attemptReconnects net (internalConnectionCallback (ConnectionCallback net)) st = Inr st' \<and>
     (if nextReconnectAtMs c \<le> net_clock net (net_hist st)
      then (\<exists>s. registered_again (net_hist st) pid c (g_localSteamID st) s (net_hist st') \<and> on_relay pid s st') \<and>
           m_listenSocket st' = INVALID_SOCKET_HANDLE
      else st' = st\<lparr>net_hist := NClock (net_clock net (net_hist st)) # net_hist st\<rparr>)"
proof -
  let ?cb = "internalConnectionCallback (ConnectionCallback net)"
  let ?now = "net_clock net (net_hist st)"
  let ?st1 = "st\<lparr>net_hist := NClock ?now # net_hist st\<rparr>"
  have at: "attemptReconnects net ?cb st = reconnect_peers net ?cb ?now [pid] ?st1"
    using w by (simp add: attemptReconnects_def nowMs_def log_call_def waits_for_relay_def Let_def)
  show ?thesis
  proof (cases "nextReconnectAtMs c \<le> ?now")
    case True
    then show ?thesis using at by (rule_tac reconnect_registers [OF w r tk True refl]) auto
  next
    case False
    then have "reconnect_peer net ?cb ?now pid ?st1 = Inr ?st1"
      using w by (simp add: reconnect_peer_def waits_for_relay_def um_find_def not_le)
    then show ?thesis using False at by simp
  qed
qed

lemma poll_waiting:
  assumes w: "waits_for_relay st pid c" and r: "relay_reachable net (remoteIP c) (remotePort c)"
    and tk: "registration_taken net pid (g_localSteamID st)" and fin: "net_recv_finite net"
  shows "\<exists>st'. P2P_RunCallbacks net (ConnectionCallback net) st = Some (Inr st') \<and>
     (comes_back net st pid c st' \<or>
      \<not> nextReconnectAtMs c \<le> net_clock net (net_hist st) \<and>
      (\<exists>x y. st' = st\<lparr>net_hist := x # y # net_hist st\<rparr>))"
proof -
  let ?cb = "internalConnectionCallback (ConnectionCallback net)"
  have st: "manager_inv st" "m_initialized st" "usable st" "m_listenSocket st = INVALID_SOCKET_HANDLE"
    using w waits_inv by (auto simp: waits_for_relay_def usable_def)
  have run: "P2P_RunCallbacks net (ConnectionCallback net) st = processEvents net ?cb st"
    using st(3) by (simp add: P2P_RunCallbacks_def)
  obtain st1 where at: "attemptReconnects net ?cb st = Inr st1" and
    st1: "if nextReconnectAtMs c \<le> net_clock net (net_hist st)
      then (\<exists>s. registered_again (net_hist st) pid c (g_localSteamID st) s (net_hist st1) \<and> on_relay pid s st1) \<and>
           m_listenSocket st1 = INVALID_SOCKET_HANDLE
      else st1 = st\<lparr>net_hist := NClock (net_clock net (net_hist st)) # net_hist st\<rparr>"
    using attempt_waiting [OF w r tk] by blast
  have inv1: "manager_inv st1" "m_initialized st1"
    using mi.attemptReconnects_keeps [OF internal_keeps [OF hook_callback_ok] st(1) at] st(2) by simp_all
  show ?thesis
  proof (cases "nextReconnectAtMs c \<le> net_clock net (net_hist st)")
    case True
    then obtain s where reg: "registered_again (net_hist st) pid c (g_localSteamID st) s (net_hist st1)"
      and on: "on_relay pid s st1" and li: "m_listenSocket st1 = INVALID_SOCKET_HANDLE" using st1 by auto
    obtain st' where st': "processEvents net ?cb st = Some (Inr st')" "suffix (net_hist st1) (net_hist st')"
      using rest_of_poll [OF inv1 li at st(2) fin] by blast
    have "registered_again (net_hist st) pid c (g_localSteamID st) s (net_hist st')"
      using registered_again_mono [OF reg _ st'(2)] by simp
    moreover have "connection_lasts net \<longrightarrow> on_relay pid s st'"
      using rest_of_poll_lasting [OF _ on li at st(2) st'(1)] by blast
    ultimately show ?thesis using run st'(1) unfolding comes_back_def by auto
  next
    case False
    then have s1: "st1 = st\<lparr>net_hist := NClock (net_clock net (net_hist st)) # net_hist st\<rparr>" using st1 by simp
    then have w1: "waits_for_relay st1 pid c" and id1: "g_localSteamID st1 = g_localSteamID st"
      using w by (simp_all add: waits_for_relay_def usable_def)
    obtain st2 where at2: "attemptReconnects net ?cb st1 = Inr st2" and
      st2: "if nextReconnectAtMs c \<le> net_clock net (net_hist st1)
        then (\<exists>s. registered_again (net_hist st1) pid c (g_localSteamID st) s (net_hist st2) \<and> on_relay pid s st2) \<and>
             m_listenSocket st2 = INVALID_SOCKET_HANDLE
        else st2 = st1\<lparr>net_hist := NClock (net_clock net (net_hist st1)) # net_hist st1\<rparr>"
      using attempt_waiting [OF w1 r] tk id1 by metis
    have "poll_sockets net st1 = Some st1"
      using w1 by (simp add: poll_sockets_def maxFd_def polled_def waits_for_relay_def)
    then have "processEvents net ?cb st = Some (Inr st2)"
      using st(2) w1 at at2
      by (simp add: processEvents_def acceptNewConnections_def waits_for_relay_def removeDisconnected_none)
    moreover have "comes_back net st pid c st2 \<or> (\<exists>x y. st2 = st\<lparr>net_hist := x # y # net_hist st\<rparr>)"
      using st2 s1 registered_again_mono [of "net_hist st1" pid c "g_localSteamID st" _ "net_hist st2" "net_hist st" "net_hist st2"]
      by (auto simp: comes_back_def suffix_ConsI split: if_splits)
    ultimately show ?thesis using run False by auto
  qed
qed


section \<open>Finitely many polls\<close>

lemma polls_reconnect:
  assumes w: "waits_for_relay st pid c" and r: "relay_reachable net (remoteIP c) (remotePort c)"
    and tk: "registration_taken net pid (g_localSteamID st)" and fin: "net_recv_finite net"
    and n: "\<forall>h. n \<le> length h \<longrightarrow> nextReconnectAtMs c \<le> net_clock net h"
  shows "\<exists>k st'. polls k net st = Some (Inr st') \<and> comes_back net st pid c st'"
  using w tk
proof (induction "n - length (net_hist st)" arbitrary: st rule: less_induct)
  case less
  obtain st1 where run: "P2P_RunCallbacks net (ConnectionCallback net) st = Some (Inr st1)" and
    st1: "comes_back net st pid c st1 \<or>
      \<not> nextReconnectAtMs c \<le> net_clock net (net_hist st) \<and>
      (\<exists>x y. st1 = st\<lparr>net_hist := x # y # net_hist st\<rparr>)"
    using poll_waiting [OF less.prems(1) r less.prems(2) fin] by blast
  from st1 show ?case
  proof (elim disjE conjE exE)
    assume "comes_back net st pid c st1"
    then show ?thesis using run by (intro exI [of _ 1] exI [of _ st1]) simp
  next
    fix x y
    assume early: "\<not> nextReconnectAtMs c \<le> net_clock net (net_hist st)"
      and s1: "st1 = st\<lparr>net_hist := x # y # net_hist st\<rparr>"
    have "length (net_hist st) < n" using n early by (meson not_le)
    then have "n - length (net_hist st1) < n - length (net_hist st)" by (simp add: s1)
    moreover have "waits_for_relay st1 pid c" "registration_taken net pid (g_localSteamID st1)"
      using less.prems s1 by (simp_all add: waits_for_relay_def usable_def)
    ultimately obtain k st' where k: "polls k net st1 = Some (Inr st')" "comes_back net st1 pid c st'"
      using less.hyps by blast
    have "suffix (net_hist st) (net_hist st1)" using s1 by (simp add: suffix_ConsI)
    then have "comes_back net st pid c st'"
      using k(2) registered_again_mono [of "net_hist st1" pid c "g_localSteamID st" _ "net_hist st'" "net_hist st" "net_hist st'"]
      unfolding comes_back_def by (auto simp: s1)
    then show ?thesis using run k(1) by (intro exI [of _ "Suc k"] exI [of _ st']) simp
  qed
qed

end
