(* ===== verification/Hook_Memory.thy ===== *)
theory Hook_Memory
  imports Hook
begin

text \<open>
  The memory side of the hook, the virtual table of \<open>ISteamNetworking\<close> before and after it is
  replaced, and the configuration file.
\<close>

section \<open>Cells\<close>

lemma cell_0 [simp]: "cell p 0 = p"
  by (simp add: cell_def)

lemma cell_inject:
  assumes "i < 2 ^ 30" and "j < 2 ^ 30"
  shows "cell p i = cell p j \<longleftrightarrow> i = j"
proof -
  have "unat (4 * word_of_nat k :: u32) = 4 * k" if "k < 2 ^ 30" for k
  proof -
    have "unat (word_of_nat (4 * k) :: u32) = 4 * k" using that by (simp only: unat_of_nat) simp
    then show ?thesis by simp
  qed
  then show ?thesis using assms unfolding cell_def by (metis add_left_cancel mult_cancel1 zero_neq_numeral)
qed

definition cells :: "address \<Rightarrow> nat \<Rightarrow> address set" where
  "cells p n = cell p ` {..<n}"

lemma cells_mem: "i < n \<Longrightarrow> cell p i \<in> cells p n"
  by (simp add: cells_def)

lemma unat_cell:
  assumes "unat p + 4 * i < 2 ^ 32"
  shows "unat (cell p i) = unat p + 4 * i"
proof -
  have "unat (word_of_nat (4 * i) :: u32) = 4 * i" using assms by (simp only: unat_of_nat) simp
  then have i: "unat (4 * word_of_nat i :: u32) = 4 * i" by simp
  then have "unat (p + 4 * word_of_nat i) = unat p + unat (4 * word_of_nat i :: u32)"
    using assms by (intro unat_add_lem [THEN iffD1]) simp
  then show ?thesis using i by (simp add: cell_def)
qed

lemma cells_range:
  assumes "unat p + 4 * n < 2 ^ 32" and "a \<in> cells p n"
  shows "unat p \<le> unat a \<and> unat a < unat p + 4 * n"
  using assms unat_cell [of p] by (auto simp: cells_def)

lemma copy_cells_other: "a \<notin> cells dst n \<Longrightarrow> copy_cells n src dst mem a = mem a"
  by (induction n) (auto simp: cells_def lessThan_Suc)

lemma copy_cells_copied:
  "i < n \<Longrightarrow> n \<le> 2 ^ 30 \<Longrightarrow> copy_cells n src dst mem (cell dst i) = mem (cell src i)"
  by (induction n) (auto simp: cell_inject less_Suc_eq)


section \<open>The virtual table\<close>

lemma cell_eq_small: "i < 48 \<Longrightarrow> j < 48 \<Longrightarrow> cell p i = cell p j \<longleftrightarrow> i = j"
  by (rule cell_inject) simp_all

definition hooked_function :: "host \<Rightarrow> nat \<Rightarrow> address option" where
  "hooked_function host i =
     (if i = VTABLE_INDEX_SendP2PPacket then Some (addr_Hook_SendP2PPacket host)
      else if i = VTABLE_INDEX_IsP2PPacketAvailable then Some (addr_Hook_IsP2PPacketAvailable host)
      else if i = VTABLE_INDEX_ReadP2PPacket then Some (addr_Hook_ReadP2PPacket host)
      else None)"

lemma new_vtable_entry:
  assumes "i < VTABLE_SIZE"
  shows "new_vtable host original new mem (cell new i) =
     (case hooked_function host i of Some f \<Rightarrow> f | None \<Rightarrow> mem (cell original i))"
proof -
  have "copy_cells 48 original new mem (cell new i) = mem (cell original i)"
    using assms by (intro copy_cells_copied) (simp_all add: VTABLE_SIZE_def)
  then show ?thesis
    using assms cell_eq_small [of i 1 new] cell_eq_small [of i 2 new] cell_eq_small [of i 0 new]
    by (auto simp: new_vtable_def hooked_function_def vtable_defs)
qed

lemma new_vtable_other:
  assumes "a \<notin> cells new VTABLE_SIZE"
  shows "new_vtable host original new mem a = mem a"
  using assms cells_mem [of 0 48 new] cells_mem [of 1 48 new] cells_mem [of 2 48 new]
    copy_cells_other [OF assms]
  by (auto simp: new_vtable_def vtable_defs)

text \<open>
  The function that the game calls for entry \<open>i\<close> of an object's virtual table, and the one the hook
  takes for the original.
\<close>

definition virtual_function :: "hook \<Rightarrow> address \<Rightarrow> nat \<Rightarrow> address" where
  "virtual_function st obj i = game_memory st (cell (game_memory st (cell obj 0)) i)"

definition saved_function :: "hook \<Rightarrow> nat \<Rightarrow> address" where
  "saved_function st i = game_memory st (cell (g_pOriginalVTable st) i)"

text \<open>
  What \<open>new\<close> promises: the block is not null and overlaps neither the object nor its table; and the
  table is not part of the object's first cell.
\<close>

definition fresh_block :: "address \<Rightarrow> address \<Rightarrow> address \<Rightarrow> bool" where
  "fresh_block new obj original \<longleftrightarrow> new \<noteq> 0 \<and> obj \<notin> cells new VTABLE_SIZE \<and>
     cells original VTABLE_SIZE \<inter> cells new VTABLE_SIZE = {} \<and> obj \<notin> cells original VTABLE_SIZE"

lemma HookVTable_eq:
  assumes "HookVTable host st = (True, st1)"
  obtains obj original new where "obj = game_memory st (GetModuleHandle host + VTABLE_OFFSET)" "obj \<noteq> 0"
    "original = game_memory st obj" "original \<noteq> 0" "new = operator_new host (host_hist st)"
    "st1 = st\<lparr>g_pObject := obj, g_pOriginalVTable := original, g_pNewVTable := new,
       host_hist := HNew new # host_hist st,
       game_memory := (new_vtable host original new (game_memory st))(obj := new)\<rparr>"
  using assms that
  by (auto simp: HookVTable_def Let_def log_host_def split: if_splits)

lemma HookVTable_effect:
  assumes hook: "HookVTable host st = (True, st1)"
    and fresh: "fresh_block (g_pNewVTable st1) (g_pObject st1) (g_pOriginalVTable st1)"
    and i: "i < VTABLE_SIZE"
  shows "virtual_function st1 (g_pObject st1) i =
       (case hooked_function host i of Some f \<Rightarrow> f | None \<Rightarrow> virtual_function st (g_pObject st1) i)"
    and "saved_function st1 i = virtual_function st (g_pObject st1) i"
    and "a \<notin> cells (g_pNewVTable st1) VTABLE_SIZE \<Longrightarrow> game_memory (UnhookVTable st1) a = game_memory st a"
    and "virtual_function (UnhookVTable st1) (g_pObject st1) i = virtual_function st (g_pObject st1) i"
    and "host_hist (UnhookVTable st1) = HDelete (g_pNewVTable st1) # HNew (g_pNewVTable st1) # host_hist st"
proof -
  obtain obj original new where o: "obj \<noteq> 0" "original = game_memory st obj" "original \<noteq> 0"
    "st1 = st\<lparr>g_pObject := obj, g_pOriginalVTable := original, g_pNewVTable := new,
       host_hist := HNew new # host_hist st,
       game_memory := (new_vtable host original new (game_memory st))(obj := new)\<rparr>"
    by (rule HookVTable_eq [OF hook]) blast
  then have f: "new \<noteq> 0" "obj \<notin> cells new VTABLE_SIZE" "obj \<notin> cells original VTABLE_SIZE"
    "cells original VTABLE_SIZE \<inter> cells new VTABLE_SIZE = {}"
    using fresh by (simp_all add: fresh_block_def)
  have ni: "cell new i \<noteq> obj" and oi: "cell original i \<noteq> obj" "cell original i \<notin> cells new VTABLE_SIZE"
    using f cells_mem [OF i] by blast+
  show "virtual_function st1 (g_pObject st1) i =
       (case hooked_function host i of Some f \<Rightarrow> f | None \<Rightarrow> virtual_function st (g_pObject st1) i)"
    using ni by (simp add: o virtual_function_def new_vtable_entry [OF i] split: option.split)
  show "saved_function st1 i = virtual_function st (g_pObject st1) i"
    using oi by (simp add: o saved_function_def virtual_function_def new_vtable_other)
  show "virtual_function (UnhookVTable st1) (g_pObject st1) i = virtual_function st (g_pObject st1) i"
    using oi o(1-3) f(1) by (simp add: o(4) UnhookVTable_def virtual_function_def new_vtable_other)
  show "host_hist (UnhookVTable st1) = HDelete (g_pNewVTable st1) # HNew (g_pNewVTable st1) # host_hist st"
    using o(1-3) f(1) by (simp add: o(4) UnhookVTable_def log_host_def)
  assume "a \<notin> cells (g_pNewVTable st1) VTABLE_SIZE"
  then show "game_memory (UnhookVTable st1) a = game_memory st a"
    using o(1-3) f(1) by (simp add: o(4) UnhookVTable_def new_vtable_other)
qed



section \<open>The configuration file\<close>

definition strip_cr :: "string \<Rightarrow> string" where
  "strip_cr raw = (if raw \<noteq> [] \<and> last raw = carriage_return then butlast raw else raw)"

text \<open>Lines without a setting.\<close>

definition ignored_line :: "string \<Rightarrow> bool" where
  "ignored_line l \<longleftrightarrow> line_feed \<notin> set l \<and>
     (strip_cr l = [] \<or> hd (strip_cr l) = CHR ''#'' \<or> hd (strip_cr l) = CHR '';'' \<or>
      take 3 (strip_cr l) \<noteq> ''ip='' \<and> take 5 (strip_cr l) \<noteq> ''port='')"

lemma config_line_strip: "config_line raw st =
    (if strip_cr raw = [] \<or> hd (strip_cr raw) = CHR ''#'' \<or> hd (strip_cr raw) = CHR '';'' then Inr st
     else if take 3 (strip_cr raw) = ''ip='' then Inr (st\<lparr>g_strRemoteIP := drop 3 (strip_cr raw)\<rparr>)
     else if take 5 (strip_cr raw) = ''port='' then
       (case stoi (drop 5 (strip_cr raw)) of Inl e \<Rightarrow> Inl e | Inr v \<Rightarrow> Inr (st\<lparr>g_nPort := word_of_int v\<rparr>))
     else Inr st)"
  by (simp add: config_line_def strip_cr_def Let_def)

lemma config_line_ignored: "ignored_line l \<Longrightarrow> config_line l st = Inr st"
  by (auto simp: ignored_line_def config_line_strip)

lemma config_lines_append:
  "config_lines (xs @ ys) st =
     (case config_lines xs st of Inl e \<Rightarrow> Inl e | Inr st1 \<Rightarrow> config_lines ys st1)"
  by (induction xs arbitrary: st) (auto split: sum.split)

lemma config_lines_ignored: "\<forall>l \<in> set ls. ignored_line l \<Longrightarrow> config_lines ls st = Inr st"
  by (induction ls) (auto simp: config_line_ignored)

text \<open>Line ends of Unix or Windows.\<close>

definition line_end :: "string \<Rightarrow> bool" where
  "line_end e \<longleftrightarrow> e = [] \<or> e = [carriage_return]"

lemma strip_cr_line:
  assumes "line_end e" and "carriage_return \<notin> set l"
  shows "strip_cr (l @ e) = l"
  using assms by (auto simp: strip_cr_def line_end_def) (metis last_in_set)

lemma config_line_ip:
  assumes "line_end e" and "carriage_return \<notin> set ip"
  shows "config_line (''ip='' @ ip @ e) st = Inr (st\<lparr>g_strRemoteIP := ip\<rparr>)"
  using strip_cr_line [of e "''ip='' @ ip"] assms by (simp add: config_line_strip)

lemma config_line_port:
  assumes "line_end e" and "carriage_return \<notin> set v"
  shows "config_line (''port='' @ v @ e) st =
     (case stoi v of Inl err \<Rightarrow> Inl err | Inr n \<Rightarrow> Inr (st\<lparr>g_nPort := word_of_int n\<rparr>))"
  using strip_cr_line [of e "''port='' @ v"] assms by (simp add: config_line_strip)

lemma decimal_no_cr: "carriage_return \<notin> set (decimal n)" "line_feed \<notin> set (decimal n)"
  using decimal_digits [of n] by (auto simp: list_all_iff isdigit_def)

end
