(* ===== verification/Client_Theorems.thy ===== *)
theory Client_Theorems
  imports Client_Invariant
begin

text \<open>
  The correctness theorems of the client library with concrete runs that satisfy their hypotheses,
  and two theorems that exhibit defects.
\<close>

section \<open>A concrete network\<close>

text \<open>
  One server can be reached; sockets are numbered by the length of the history.  \<open>pieces\<close> is what
  the server sends, one piece for each \<open>recv\<close>, and \<open>take_n\<close> how many bytes a \<open>send\<close> accepts.
\<close>

definition receive_count :: "net_history \<Rightarrow> nat" where
  "receive_count h = length (filter (\<lambda>e. case e of NRecv s r \<Rightarrow> True | _ \<Rightarrow> False) h)"

definition demo_net :: "bytes list \<Rightarrow> (net_history \<Rightarrow> nat) \<Rightarrow> net" where
  "demo_net pieces take_n =
     \<lparr>net_startup = (\<lambda>h. True),
      net_socket = (\<lambda>h. word_of_nat (length h)),
      net_set_option = (\<lambda>h s opt. True),
      net_pton = (\<lambda>ip. True),
      net_connect = (\<lambda>h s ip port. None),
      net_select_one = (\<lambda>h s t. Some False),
      net_so_error = (\<lambda>h s. Some 0),
      net_bind = (\<lambda>h s port. True),
      net_listen = (\<lambda>h s. True),
      net_accept = (\<lambda>h l. (INVALID_SOCKET_HANDLE, [], 0)),
      net_recv = (\<lambda>h s n. if receive_count h < length pieces
                          then Inr (take n (pieces ! receive_count h)) else Inl WSAEWOULDBLOCK),
      net_send = (\<lambda>h s buf. Inr (min (take_n h) (length buf))),
      net_select = (\<lambda>h rd wr. None),
      net_clock = (\<lambda>h. 1000)\<rparr>"

definition demo_peer :: ClientConnection where
  "demo_peer = ClientConnection_new\<lparr>socket := 7, peerID := 1, connected := True,
     remoteIP := ''10.0.0.1'', remotePort := 27015\<rparr>"

definition demo_manager :: manager where
  "demo_manager = (manager_new [])\<lparr>m_initialized := True, m_connections := [(1, demo_peer)],
     m_nextPeerID := 2\<rparr>"

lemma demo_peer_at [simp]: "peer_at demo_manager pid = (if pid = 1 then Some demo_peer else None)"
  by (simp add: demo_manager_def)

lemma demo_simps [simp]:
  "net_hist demo_manager = []" "socket demo_peer = 7" "sendBuffer demo_peer = []"
  "connected demo_peer" "m_queue (receiveQueue demo_peer) = []" "m_buffer (recvBuffer demo_peer) = []"
  by (simp_all add: demo_manager_def demo_peer_def manager_new_def ClientConnection_new_def
      PacketQueue_new_def ReceiveBuffer_new_def)

lemma demo_net_recv_bounded: "net_recv_bounded (demo_net pieces f)"
  by (simp add: net_recv_bounded_def demo_net_def)

lemma demo_net_recv_finite: "net_recv_finite (demo_net pieces f)"
  unfolding net_recv_finite_def
  by (rule exI [of _ "\<lambda>h. length pieces - receive_count h"])
    (auto simp: demo_net_def receive_count_def split: if_splits)


section \<open>Receiving and sending\<close>

text \<open>
  C5: whatever the pieces in which the bytes arrive, the packets that \<open>processRead\<close> queues are
  exactly the packets of the stream, in order, and the incomplete rest is kept for the next call.
  \<open>bs\<close> are the bytes received during the call.
\<close>

theorem processRead_receives_stream:
  assumes "net_recv_bounded net" and "peer_at m pid = Some conn" and "processRead net pid m = Some m'"
    and "net_received (socket conn) (net_hist m') = net_received (socket conn) (net_hist m) @ bs"
    and "m_buffer (recvBuffer conn) @ bs = concat (map frame ps) @ t"
    and "\<forall>p \<in> set ps. client_payload p" and "partial_frame t" and "partial_frame (m_buffer (recvBuffer conn))"
  shows "\<exists>conn'. peer_at m' pid = Some conn' \<and>
     m_queue (receiveQueue conn') = m_queue (receiveQueue conn) @ map (\<lambda>p. \<lparr>pkt_data = p\<rparr>) ps \<and>
     m_buffer (recvBuffer conn') = t"
  using processRead_stream [OF assms] .

definition split_pieces :: "bytes list" where
  "split_pieces = [[2, 0, 0], [0, 4, 5, 1]]"

lemma split_run:
  obtains m' where "processRead (demo_net split_pieces length) 1 demo_manager = Some m'"
    "net_received 7 (net_hist m') = [2, 0, 0, 0, 4, 5, 1]"
proof -
  have "\<exists>m'. processRead (demo_net split_pieces length) 1 demo_manager = Some m' \<and>
      net_received 7 (net_hist m') = [2, 0, 0, 0, 4, 5, 1]"
    by (simp add: processRead.simps recv_call_eq demo_net_def split_pieces_def receive_count_def
        RECV_BUFFER_SIZE_def parse_packets_eq wouldBlock_def Let_def)
  then show thesis using that by blast
qed

theorem processRead_receives_stream_witness:
  "\<exists>m' conn'. processRead (demo_net split_pieces length) 1 demo_manager = Some m' \<and>
     peer_at m' 1 = Some conn' \<and> m_queue (receiveQueue conn') = [\<lparr>pkt_data = [4, 5]\<rparr>] \<and>
     m_buffer (recvBuffer conn') = [1]"
proof -
  obtain m' where r: "processRead (demo_net split_pieces length) 1 demo_manager = Some m'"
    "net_received 7 (net_hist m') = [2, 0, 0, 0, 4, 5, 1]"
    by (rule split_run)
  have "client_payload [9]" "strict_prefix [1] (frame [9])"
    by (simp_all add: client_payload_def frame_def le_bytes_4)
  then have "partial_frame [1]" unfolding partial_frame_def by blast
  moreover have "[2, 0, 0, 0, 4, 5, 1] = frame [4, 5] @ [1]" by (simp add: frame_def le_bytes_4)
  ultimately show ?thesis
    using processRead_receives_stream [OF demo_net_recv_bounded _ r(1), of demo_peer _ "[[4, 5]]" "[1]"] r
    by (simp add: client_payload_def partial_frame_def)
qed

text \<open>
  C27: \<open>processRead\<close> returns, provided that the network has finitely many bytes for the client.
\<close>

theorem processRead_terminates:
  assumes "net_recv_finite net"
  shows "\<exists>m'. processRead net pid m = Some m'"
  using processRead_returns [OF assms] .

theorem processRead_terminates_witness:
  "\<exists>m'. processRead (demo_net split_pieces length) 1 demo_manager = Some m'"
  using processRead_terminates [OF demo_net_recv_finite] .

text \<open>
  C21: a packet that \<open>sendPacket\<close> accepts is appended, framed, to the peer's outgoing stream (the
  bytes the network took, followed by the bytes in the send buffer), as long as no older bytes are
  waiting in the send buffer or the socket would block.
\<close>

theorem sendPacket_appends_frame:
  assumes "peer_at m pid = Some conn" and "unat sz = length bs"
    and "sendPacket net pid (Some bs) sz m = (True, m')"
    and "sendBuffer conn = [] \<or> (\<exists>e. net_send net (net_hist m) (socket conn) (frame bs) = Inl e)"
  shows "\<exists>conn'. peer_at m' pid = Some conn' \<and> socket conn' = socket conn \<and>
     out_stream m' conn' = out_stream m conn @ frame bs"
  using sendPacket_stream [OF assms] .

theorem sendPacket_appends_frame_witness:
  "\<exists>m' conn'. sendPacket (demo_net [] (\<lambda>h. 5)) 1 (Some [1, 2, 3]) 3 demo_manager = (True, m') \<and>
     peer_at m' 1 = Some conn' \<and> out_stream m' conn' = frame [1, 2, 3]"
proof -
  have "\<exists>m'. sendPacket (demo_net [] (\<lambda>h. 5)) 1 (Some [1, 2, 3]) 3 demo_manager = (True, m')"
    by (simp add: sendPacket_def send_call_eq demo_net_def createSendFrame_def Let_def)
  then show ?thesis
    using sendPacket_appends_frame [of demo_manager 1 demo_peer 3 "[1, 2, 3]" "demo_net [] (\<lambda>h. 5)"]
    by (auto simp: out_stream_def)
qed

text \<open>
  C22: \<open>processWrite\<close> never loses, repeats or reorders bytes: the peer's outgoing stream is the same
  before and after it.
\<close>

theorem processWrite_keeps_stream:
  assumes "peer_at m pid = Some conn"
  shows "\<exists>conn'. peer_at (processWrite net pid m) pid = Some conn' \<and> socket conn' = socket conn \<and>
     out_stream (processWrite net pid m) conn' = out_stream m conn"
  using processWrite_stream [OF assms] .

theorem processWrite_keeps_stream_witness:
  "\<exists>conn'. peer_at (processWrite (demo_net [] (\<lambda>h. 1)) 1 (set_peer 1 (demo_peer\<lparr>sendBuffer := [8, 9]\<rparr>) demo_manager)) 1 = Some conn' \<and>
     out_stream (processWrite (demo_net [] (\<lambda>h. 1)) 1 (set_peer 1 (demo_peer\<lparr>sendBuffer := [8, 9]\<rparr>) demo_manager)) conn' = [8, 9]"
  using processWrite_keeps_stream [of "set_peer 1 (demo_peer\<lparr>sendBuffer := [8, 9]\<rparr>) demo_manager" 1
      "demo_peer\<lparr>sendBuffer := [8, 9]\<rparr>" "demo_net [] (\<lambda>h. 1)"]
  by (auto simp: out_stream_def)


section \<open>Peers\<close>

text \<open>
  C19: in every state the application can bring the library into, by any sequence of calls with any
  arguments, the table of peers is consistent: no identifier occurs twice, every connection carries
  the identifier it is filed under, a connected peer has a socket, and a library that is not
  initialised has no peers and no listening socket.  The application's callback may itself make any
  calls, except that it must not shut the library down from inside; calls that end in undefined
  behaviour (an iterator invalidated by the callback) lead to no state.
\<close>

theorem library_states_consistent:
  assumes "used net user st0 st" and "p2p.truncate st0 = p2p_start" and "calling_callback net user"
  shows "manager_inv st"
proof -
  have "manager_inv (p2p.truncate st0)"
    by (simp add: assms(2) p2p_start_def manager_inv_def manager_new_def manager.defs um_wf_def)
  then have "manager_inv st0" by (cases st0) (simp add: p2p.defs manager_inv_def)
  then show ?thesis using used_inv [OF assms(1) calling_callback_ok [OF assms(3)]] by blast
qed

text \<open>
  A callback that registers a mark with the server when it is connected, and calls \<open>P2P_Connect\<close> again
  when a peer was lost.  The second call invokes it once more, with \<open>up\<close>.
\<close>

definition register_mark :: "net \<Rightarrow> bytes \<Rightarrow> unit user_callback" where
  "register_mark net mark8 pid up d st =
     (if up then snd (P2P_SendPacket net pid (Some mark8) 8 st) else st)"

definition register_or_connect :: "net \<Rightarrow> bytes \<Rightarrow> unit user_callback" where
  "register_or_connect net mark8 pid up d st =
     (if up then register_mark net mark8 pid up d st
      else snd (snd (P2P_Connect net (register_mark net mark8) (Some ''10.0.0.1'') 27015 True st)))"

lemma register_mark_calls: "calling_callback net (register_mark net mark8)"
proof (rule calling_callback.intros)
  fix pid up d and st :: p2p
  have "calling_callback net (\<lambda>pid up d st. st)" by (rule calling_callback.intros) simp
  moreover have "calls net (\<lambda>pid up d st. st) st (snd (P2P_SendPacket net pid (Some mark8) 8 st))"
    by (intro calls.P2P_SendPacket calls.none)
  ultimately show "register_mark net mark8 pid up d st = st \<or>
      (\<exists>inner. calling_callback net inner \<and> calls net inner st (register_mark net mark8 pid up d st))"
    by (auto simp: register_mark_def)
qed

lemma register_or_connect_calls: "calling_callback net (register_or_connect net mark8)"
proof (rule calling_callback.intros)
  fix pid up d and st :: p2p
  have "calls net (register_mark net mark8) st (register_or_connect net mark8 pid up d st)"
    by (simp add: register_or_connect_def register_mark_def calls.P2P_SendPacket calls.P2P_Connect calls.none)
  then show "register_or_connect net mark8 pid up d st = st \<or>
      (\<exists>inner. calling_callback net inner \<and> calls net inner st (register_or_connect net mark8 pid up d st))"
    using register_mark_calls by blast
qed

abbreviation open_door :: net where
  "open_door \<equiv> demo_net [] (\<lambda>h. 100)"

abbreviation demo_callback :: "unit user_callback" where
  "demo_callback \<equiv> register_or_connect open_door [1, 0, 0, 0, 0, 0, 0, 0]"

definition joined :: p2p where
  "joined = snd (snd (P2P_Connect open_door demo_callback (Some ''10.0.0.1'') 27015 True
     (P2P_SetConnectionCallback True 0 (snd (P2P_Init open_door p2p_start)))))"

lemma joined_used: "used open_door demo_callback p2p_start joined"
  unfolding joined_def
  by (rule used.running [OF used.P2P_Init [OF used.start]])
    (intro calls.P2P_Connect calls.P2P_SetConnectionCallback calls.none)

theorem library_states_consistent_witness:
  "map fst (m_connections joined) = [1] \<and> manager_inv joined"
proof -
  have "p2p.truncate p2p_start = p2p_start"
    by (simp add: p2p_start_def manager_new_def manager.defs p2p.defs)
  then have "manager_inv joined"
    by (rule library_states_consistent [OF joined_used _ register_or_connect_calls])
  moreover have "map fst (m_connections joined) = [1]"
    by (simp add: joined_def P2P_Connect_def P2P_SetConnectionCallback_def P2P_Init_def p2p_start_def
        manager.defs p2p.defs manager_new_def make_manager_def initialize_def platform_defs demo_net_def
        setConnectionCallback_def usable_def manager_connect_def connectWithTimeout_def add_peer_def
        allocatePeerID_def um_emplace_def notifyConnectionEvent_def internalConnectionCallback_def
        register_or_connect_def register_mark_def P2P_SendPacket_def sendPacket_def INVALID_SOCKET_HANDLE_def
        ClientConnection_new_def createSendFrame_def P2P_INVALID_PEER_ID_def)
  ultimately show ?thesis by simp
qed

text \<open>
  C23: connecting never leaks a socket.  \<open>connectWithTimeout\<close> either fails, and then exactly the
  sockets that were open before are open, or returns a socket, and then that one is open besides.
\<close>

theorem connectWithTimeout_no_leak:
  assumes "net_sockets_fresh net" and "connectWithTimeout net ip port timeoutMs m = (sock, m')"
  shows "net_open s (net_hist m') \<longleftrightarrow>
     net_open s (net_hist m) \<or> s = sock \<and> sock \<noteq> INVALID_SOCKET_HANDLE"
proof -
  have "\<not> net_open (net_socket net (net_hist m)) (net_hist m)"
    using assms(1) by (simp add: net_sockets_fresh_def)
  then show ?thesis
    using assms(2) net_open_valid [of s "net_hist m"]
    by (auto simp: connectWithTimeout_def platform_defs split: option.splits if_splits)
qed

definition one_socket_net :: net where
  "one_socket_net = (demo_net [] length)\<lparr>net_socket := \<lambda>h. if net_open 7 h then INVALID_SOCKET_HANDLE else 7\<rparr>"

theorem connectWithTimeout_no_leak_witness:
  "net_open 7 (net_hist (snd (connectWithTimeout one_socket_net (Some ''10.0.0.1'') 27015 2000 (manager_new []))))"
proof -
  have "net_sockets_fresh one_socket_net"
    using net_open_valid by (auto simp: net_sockets_fresh_def one_socket_net_def demo_net_def)
  moreover have "fst (connectWithTimeout one_socket_net (Some ''10.0.0.1'') 27015 2000 (manager_new [])) = 7"
    by (simp add: connectWithTimeout_def one_socket_net_def demo_net_def platform_defs manager_new_def
        INVALID_SOCKET_HANDLE_def)
  ultimately show ?thesis
    using connectWithTimeout_no_leak [of one_socket_net "Some ''10.0.0.1''" 27015 2000 "manager_new []" 7 _ 7]
    by (cases "connectWithTimeout one_socket_net (Some ''10.0.0.1'') 27015 2000 (manager_new [])")
      (simp add: INVALID_SOCKET_HANDLE_def)
qed

text \<open>
  C24: the delay after failed reconnection attempt number \<open>attempt\<close> is the base delay doubled
  \<open>attempt\<close> times, cut off at the maximal delay; the doubling never overflows 64 bits.  The cut-off
  does not apply to the first attempt.
\<close>

theorem reconnect_delay_is_capped_exponential:
  "unat (backoff_loop (unat (attempt :: u32)) (ucast (base :: u32)) maxDelay) =
     (if attempt = 0 then unat base else min (unat base * 2 ^ unat attempt) (unat maxDelay))"
proof -
  have "unat base < 2 ^ 32" using unat_bound [of base] by simp
  moreover have "(ucast base :: u64) = word_of_nat (unat base)" by simp
  ultimately show ?thesis
    using backoff_loop_nat [of "unat base" "unat attempt" maxDelay] by (simp add: unat_eq_0)
qed


text \<open>
  Settling broken connections.  The callbacks considered leave the peers and the list of broken peers
  alone when they are told of a disconnection; what else they do is free.
\<close>

definition leaves_peers :: "'a manager_scheme callback \<Rightarrow> bool" where
  "leaves_peers cb \<longleftrightarrow> (\<forall>pid m. m_connections (cb pid Disconnected m) = m_connections m \<and>
     m_pendingRemove (cb pid Disconnected m) = m_pendingRemove m \<and>
     suffix (net_hist m) (net_hist (cb pid Disconnected m)))"

definition waiting :: "ClientConnection \<Rightarrow> u64 \<Rightarrow> ClientConnection" where
  "waiting c now = c\<lparr>socket := INVALID_SOCKET_HANDLE, connected := False, reconnectAttempt := 0,
     nextReconnectAtMs := now + ucast (reconnectBaseDelayMs c), receiveQueue := PacketQueue_new,
     recvBuffer := ReceiveBuffer_new, sendBuffer := []\<rparr>"

text \<open>\<open>es\<close> are the calls to the network, newest first.\<close>

definition settled_peer :: "net_history \<Rightarrow> ClientConnection option \<Rightarrow> ClientConnection option \<Rightarrow> bool" where
  "settled_peer es before after \<longleftrightarrow>
     (case before of
        None \<Rightarrow> after = None
      | Some c \<Rightarrow>
          (socket c \<noteq> INVALID_SOCKET_HANDLE \<longrightarrow> NClose (socket c) \<in> set es) \<and>
          (if autoReconnect c then \<exists>now. NClock now \<in> set es \<and> after = Some (waiting c now) else after = None))"

lemma settled_peer_mono: "settled_peer es b a \<Longrightarrow> set es \<subseteq> set es' \<Longrightarrow> settled_peer es' b a"
  by (auto simp: settled_peer_def split: option.splits if_splits)

lemma drop_connection_settles:
  assumes "leaves_peers cb" and "peer_at m pid = Some c"
  shows "\<exists>m' es. drop_connection net cb pid c m = Inr m' \<and> net_hist m' = es @ net_hist m \<and>
     m_pendingRemove m' = m_pendingRemove m \<and> settled_peer es (Some c) (peer_at m' pid) \<and>
     (\<forall>j. j \<noteq> pid \<longrightarrow> peer_at m' j = peer_at m j)"
proof -
  let ?c = "c\<lparr>socket := INVALID_SOCKET_HANDLE, connected := False,
     recvBuffer := buffer_clear (recvBuffer c), receiveQueue := queue_clear (receiveQueue c), sendBuffer := []\<rparr>"
  let ?m = "set_peer pid ?c (closeSocket (socket c) m)"
  let ?m2 = "notifyConnectionEvent cb pid Disconnected ?m"
  have same: "m_connections ?m2 = m_connections ?m" "m_pendingRemove ?m2 = m_pendingRemove m"
    using assms(1) by (simp_all add: leaves_peers_def notifyConnectionEvent_def)
  have "suffix (net_hist (log_call (NNotify pid Disconnected) ?m))
      (net_hist (cb pid Disconnected (log_call (NNotify pid Disconnected) ?m)))"
    using assms(1) unfolding leaves_peers_def by blast
  then have "suffix (net_hist ?m) (net_hist ?m2)"
    by (auto simp: notifyConnectionEvent_def intro: suffix_ConsD)
  then obtain es where es: "net_hist ?m2 = es @ net_hist (closeSocket (socket c) m)" by (auto simp: suffix_def)
  have here: "pid \<in> set (map fst (m_connections ?m2))"
    unfolding same(1) using um_find_None_iff [of "m_connections ?m" pid] by simp
  then have notify: "notify_keeping_iterators cb pid Disconnected ?m = Inr ?m2"
    unfolding notify_keeping_iterators_def Let_def same(1) by (simp only: simp_thms subset_refl if_True)
  have "buffer_clear (recvBuffer c) = ReceiveBuffer_new" "queue_clear (receiveQueue c) = PacketQueue_new"
    by (simp_all add: buffer_clear_def ReceiveBuffer_new_def queue_clear_def PacketQueue_new_def)
  then have w: "waiting c now = ?c\<lparr>reconnectAttempt := 0,
      nextReconnectAtMs := now + ucast (reconnectBaseDelayMs c)\<rparr>" for now
    by (cases c) (simp add: waiting_def)
  let ?now = "net_clock net (net_hist ?m2)"
  let ?close = "if socket c \<noteq> INVALID_SOCKET_HANDLE then [NClose (socket c)] else []"
  have hist: "net_hist ?m2 = (es @ ?close) @ net_hist m" using es by (simp add: closeSocket_def)
  have at: "peer_at ?m2 j = (if j = pid then Some ?c else peer_at m j)" for j
    unfolding same(1) by simp
  show ?thesis
  proof (cases "autoReconnect c")
    case True
    let ?m' = "set_peer pid (?c\<lparr>reconnectAttempt := 0, nextReconnectAtMs := ?now + ucast (reconnectBaseDelayMs c)\<rparr>)
      (log_call (NClock ?now) ?m2)"
    have "drop_connection net cb pid c m = Inr ?m'"
      using True at [of pid] by (simp add: drop_connection_def notify Let_def nowMs_def)
    then show ?thesis
      using True hist at same(2)
      by (intro exI [of _ ?m'] exI [of _ "NClock ?now # es @ ?close"]) (auto simp: settled_peer_def w)
  next
    case False
    let ?m' = "?m2\<lparr>m_connections := um_erase pid (m_connections ?m2)\<rparr>"
    have "drop_connection net cb pid c m = Inr ?m'"
      using False at [of pid] by (simp add: drop_connection_def notify Let_def)
    then show ?thesis
      using False hist at same(2)
      by (intro exI [of _ ?m'] exI [of _ "es @ ?close"]) (auto simp: settled_peer_def)
  qed
qed

lemma remove_peers_settles:
  assumes "leaves_peers cb" and "distinct pids"
  shows "\<exists>m' es. remove_peers net cb pids m = Inr m' \<and> net_hist m' = es @ net_hist m \<and>
     (\<forall>pid \<in> set pids. settled_peer es (peer_at m pid) (peer_at m' pid)) \<and>
     (\<forall>pid. pid \<notin> set pids \<longrightarrow> peer_at m' pid = peer_at m pid)"
  using assms(2)
proof (induction pids arbitrary: m)
  case (Cons pid pids)
  let ?r = "case peer_at m pid of None \<Rightarrow> Inr m | Some c \<Rightarrow> drop_connection net cb pid c m"
  have "\<exists>m1 e1. ?r = Inr m1 \<and> net_hist m1 = e1 @ net_hist m \<and> m_pendingRemove m1 = m_pendingRemove m \<and>
      settled_peer e1 (peer_at m pid) (peer_at m1 pid) \<and> (\<forall>j. j \<noteq> pid \<longrightarrow> peer_at m1 j = peer_at m j)"
    using drop_connection_settles [OF assms(1), of m pid _ net]
    by (cases "peer_at m pid") (auto simp: settled_peer_def)
  then obtain m1 e1 where m1: "?r = Inr m1" "net_hist m1 = e1 @ net_hist m" "m_pendingRemove m1 = m_pendingRemove m"
    "settled_peer e1 (peer_at m pid) (peer_at m1 pid)" "\<And>j. j \<noteq> pid \<Longrightarrow> peer_at m1 j = peer_at m j"
    by blast
  obtain m' e2 where m': "remove_peers net cb pids m1 = Inr m'" "net_hist m' = e2 @ net_hist m1"
    "\<forall>p \<in> set pids. settled_peer e2 (peer_at m1 p) (peer_at m' p)"
    "\<forall>p. p \<notin> set pids \<longrightarrow> peer_at m' p = peer_at m1 p"
    using Cons by (meson distinct.simps(2))
  have "settled_peer (e2 @ e1) (peer_at m p) (peer_at m' p)" if "p \<in> set pids" for p
  proof -
    have "p \<noteq> pid" using Cons.prems that by auto
    then have "settled_peer e2 (peer_at m p) (peer_at m' p)" using m'(3) m1(5) that by metis
    then show ?thesis by (rule settled_peer_mono) simp
  qed
  moreover have "settled_peer (e2 @ e1) (peer_at m pid) (peer_at m' pid)"
  proof -
    have "settled_peer e1 (peer_at m pid) (peer_at m' pid)" using m'(4) m1(4) Cons.prems by simp
    then show ?thesis by (rule settled_peer_mono) simp
  qed
  ultimately show ?case
    using m1 m' by (intro exI [of _ m'] exI [of _ "e2 @ e1"]) auto
qed simp

lemma remdups_adj_sorted: "sorted xs \<Longrightarrow> distinct (remdups_adj xs)"
  by (induction xs rule: remdups_adj.induct) auto

text \<open>
  C20: \<open>removeDisconnected\<close> settles every broken connection.  Afterwards nothing is pending; the socket
  of a broken peer has been closed; the peer is gone, unless it reconnects automatically: then it
  stays, with no socket, its buffers and queue empty, and its first attempt is due the base delay after
  a time that the clock showed during the call; all other peers are unchanged.  This is for callbacks
  that leave the peers and the list of broken peers alone when they are told of a disconnection; what
  else they do is free.
\<close>

theorem removeDisconnected_settles_peers:
  assumes "leaves_peers cb"
  shows "\<exists>m' es. removeDisconnected net cb m = Inr m' \<and> m_pendingRemove m' = [] \<and>
     net_hist m' = es @ net_hist m \<and>
     (\<forall>pid \<in> set (m_pendingRemove m). settled_peer es (peer_at m pid) (peer_at m' pid)) \<and>
     (\<forall>pid. pid \<notin> set (m_pendingRemove m) \<longrightarrow> peer_at m' pid = peer_at m pid)"
proof -
  let ?pids = "remdups_adj (sort (m_pendingRemove m))"
  have "distinct ?pids" by (simp add: remdups_adj_sorted)
  from remove_peers_settles [OF assms this, of net "m\<lparr>m_pendingRemove := ?pids\<rparr>"]
  show ?thesis by (auto simp: removeDisconnected_def Let_def)
qed

definition two_broken :: manager where
  "two_broken = (manager_new [])\<lparr>m_initialized := True, m_pendingRemove := [2, 1, 2],
     m_connections := [(1, demo_peer), (2, demo_peer\<lparr>socket := 8, peerID := 2, autoReconnect := True\<rparr>)]\<rparr>"

theorem removeDisconnected_settles_peers_witness:
  "\<exists>m' now c. removeDisconnected (demo_net [] length) (\<lambda>pid ev m. m) two_broken = Inr m' \<and>
     peer_at m' 1 = None \<and> NClose 7 \<in> set (net_hist m') \<and> NClose 8 \<in> set (net_hist m') \<and>
     peer_at m' 2 = Some c \<and> NClock now \<in> set (net_hist m') \<and> nextReconnectAtMs c = now + 500"
proof -
  have at: "peer_at two_broken 1 = Some demo_peer"
    "peer_at two_broken 2 = Some (demo_peer\<lparr>socket := 8, peerID := 2, autoReconnect := True\<rparr>)"
    "net_hist two_broken = []" "m_pendingRemove two_broken = [2, 1, 2]"
    by (simp_all add: two_broken_def um_find_def manager_new_def)
  have "leaves_peers (\<lambda>pid ev m. m)" by (simp add: leaves_peers_def)
  from removeDisconnected_settles_peers [OF this, of "demo_net [] length" two_broken]
  obtain m' es where m': "removeDisconnected (demo_net [] length) (\<lambda>pid ev m. m) two_broken = Inr m'" "net_hist m' = es"
    "settled_peer es (peer_at two_broken 1) (peer_at m' 1)" "settled_peer es (peer_at two_broken 2) (peer_at m' 2)"
    by (auto simp: at(3,4))
  have "\<not> autoReconnect demo_peer" "reconnectBaseDelayMs demo_peer = 500"
    by (simp_all add: demo_peer_def ClientConnection_new_def)
  then show ?thesis
    using m' by (auto simp: settled_peer_def at(1,2) waiting_def INVALID_SOCKET_HANDLE_def)
qed

text \<open>
  C26: \<open>P2P_ReadPacket\<close> delivers packets in the order they were received.  With a packet at the head
  of a peer's queue, it returns that packet if the buffer is large enough, and removes it; it
  reports a buffer that is too small and leaves the library unchanged.
\<close>

theorem P2P_ReadPacket_returns_oldest:
  assumes "usable st" and "pid \<noteq> P2P_INVALID_PEER_ID" and "peer_at st pid = Some conn"
    and "m_queue (receiveQueue conn) = packet # rest" and "n \<noteq> 0"
  shows "P2P_ReadPacket pid (Some buf) n st =
     (if Packet_size packet > n then (P2P_ERROR_BUFFER_TOO_SMALL, None, st)
      else (P2P_OK, Some (memcpy_at 0 (pkt_data packet) buf, Packet_size packet, pid),
            set_peer pid (conn\<lparr>receiveQueue := \<lparr>m_queue = rest\<rparr>\<rparr>) st))"
proof -
  have rq: "receiveQueue conn = \<lparr>m_queue = packet # rest\<rparr>"
    using assms(4) by (intro PacketQueue_eqI) simp
  show ?thesis
    using assms(1,2,3,5)
    by (simp add: rq P2P_ReadPacket_def isPacketAvailable_def peek_def readPacket_def pop_def Let_def)
qed

definition with_packet :: p2p where
  "with_packet = set_peer 1 (demo_peer\<lparr>receiveQueue := \<lparr>m_queue = [\<lparr>pkt_data = [4, 5]\<rparr>]\<rparr>\<rparr>)
     (p2p_start\<lparr>m_initialized := True, g_manager := True\<rparr>)"

theorem P2P_ReadPacket_returns_oldest_witness:
  "fst (snd (P2P_ReadPacket 1 (Some [0, 0, 0]) 3 with_packet)) = Some ([4, 5, 0], 2, 1)
   \<and> fst (P2P_ReadPacket 1 (Some [0]) 1 with_packet) = P2P_ERROR_BUFFER_TOO_SMALL"
proof -
  have u: "usable with_packet"
    by (simp add: usable_def with_packet_def set_peer_def)
  have c: "peer_at with_packet 1 = Some (demo_peer\<lparr>receiveQueue := \<lparr>m_queue = [\<lparr>pkt_data = [4, 5]\<rparr>]\<rparr>\<rparr>)"
    by (simp add: with_packet_def)
  show ?thesis
    using P2P_ReadPacket_returns_oldest [OF u _ c, of "\<lparr>pkt_data = [4, 5]\<rparr>" "[]" 3 "[0, 0, 0]"]
      P2P_ReadPacket_returns_oldest [OF u _ c, of "\<lparr>pkt_data = [4, 5]\<rparr>" "[]" 1 "[0]"]
    by (simp add: P2P_INVALID_PEER_ID_def Packet_size_def memcpy_at_def)
qed

text \<open>
  C35: before \<open>P2P_Init\<close>, after a failed one and after \<open>P2P_Shutdown\<close> the exported calls do nothing.  The
  four that have a result code report that the library is not initialised; the queries answer that
  there is no packet and no peer; none of them touches the network or changes the state, with two
  exceptions: \<open>P2P_SetConnectionCallback\<close> stores the callback, and \<open>P2P_Shutdown\<close> forgets it.
\<close>

theorem calls_need_initialisation:
  assumes "\<not> g_manager st"
  shows "P2P_Listen net port st = (P2P_ERROR_NOT_INITIALIZED, st)
    \<and> P2P_Connect net user ip port out st = (P2P_ERROR_NOT_INITIALIZED, None, st)
    \<and> P2P_SendPacket net pid dat sz st = (P2P_ERROR_NOT_INITIALIZED, st)
    \<and> P2P_ReadPacket pid buf n st = (P2P_ERROR_NOT_INITIALIZED, None, st)
    \<and> P2P_StopListen st = st
    \<and> P2P_SetAutoReconnect pid enable base mx st = st
    \<and> P2P_Disconnect net user pid st = Inr st
    \<and> P2P_RunCallbacks net user st = Some (Inr st)
    \<and> P2P_IsPacketAvailable pid st = None
    \<and> P2P_GetPeerCount st = 0
    \<and> P2P_GetConnectedPeers arr maxCount st = []
    \<and> P2P_SetConnectionCallback cb d st = st\<lparr>g_userCallback := cb, g_userCallbackData := d\<rparr>
    \<and> P2P_Shutdown st = st\<lparr>g_userCallback := False, g_userCallbackData := 0\<rparr>
    \<and> \<not> g_manager (P2P_Shutdown st')
    \<and> (fst (P2P_Init net st) \<noteq> P2P_OK \<longrightarrow> \<not> g_manager (snd (P2P_Init net st)))"
  using assms
  by (auto simp: P2P_Listen_def P2P_Connect_def P2P_SendPacket_def P2P_ReadPacket_def P2P_IsPacketAvailable_def
      P2P_StopListen_def P2P_SetAutoReconnect_def P2P_Disconnect_def P2P_GetPeerCount_def P2P_GetConnectedPeers_def
      P2P_SetConnectionCallback_def P2P_RunCallbacks_def P2P_Shutdown_def P2P_Init_def usable_def Let_def
      split: prod.split bool.split)

theorem calls_need_initialisation_witness:
  "fst (P2P_SendPacket (demo_net [] length) 1 (Some [1]) 1 p2p_start) = P2P_ERROR_NOT_INITIALIZED \<and>
   P2P_Disconnect (demo_net [] length) (\<lambda>pid up d st. st) 1 p2p_start = Inr p2p_start \<and>
   P2P_GetPeerCount p2p_start = 0"
proof -
  have "\<not> g_manager p2p_start" by (simp add: p2p_start_def manager.defs p2p.defs manager_new_def)
  then show ?thesis
    using calls_need_initialisation [of p2p_start "demo_net [] length" 0 "\<lambda>pid up d st. st" None True 1
        "Some [1]" 1 None 0 True 0 0 True 0 True 0 p2p_start] by simp
qed


section \<open>Defects\<close>

text \<open>
  C36: \<open>sendPacket\<close> overtakes bytes that wait in the send buffer.  Whenever the buffer holds the rest of
  an earlier packet and the network takes \<open>n\<close> bytes of the new one, these \<open>n\<close> bytes are on the wire before
  that rest, and what the network did not take is behind it: the new packet is torn around the old rest.
  If the network takes all of it, the whole frame of the later packet sits inside the earlier one.
\<close>

theorem sendPacket_overtakes_buffered_bytes:
  assumes "peer_at m pid = Some conn" and "connected conn" and "unat sz = length bs" "bs \<noteq> []"
    and "net_sent (socket conn) (net_hist m) = earlier @ take k (frame old)"
    and "sendBuffer conn = drop k (frame old)"
    and "net_send net (net_hist m) (socket conn) (frame bs) = Inr n"
  shows "\<exists>m' conn'. sendPacket net pid (Some bs) sz m = (True, m') \<and> peer_at m' pid = Some conn' \<and>
     net_sent (socket conn) (net_hist m') = earlier @ take k (frame old) @ take n (frame bs) \<and>
     sendBuffer conn' = drop k (frame old) @ drop n (frame bs)"
proof -
  have fr: "createSendFrame bs sz = frame bs" using assms(3) by (rule createSendFrame_frame)
  have "sz \<noteq> 0" using assms(3,4) by auto
  then show ?thesis using assms fr by (auto simp: sendPacket_def send_call_eq Let_def)
qed

text \<open>
  The receiver's view: five bytes of the first packet were taken and all of the second one, and the
  parser finds a packet that was never sent and drops the rest.
\<close>

theorem sendPacket_overtakes_buffered_bytes_witness:
  "\<exists>m' conn'. sendPacket (demo_net [] (\<lambda>h. 5)) 1 (Some [4]) 1
       ((set_peer 1 (demo_peer\<lparr>sendBuffer := [2, 3]\<rparr>) demo_manager)
         \<lparr>net_hist := [NSend 7 (frame [1, 2, 3]) (Inr 5)]\<rparr>) = (True, m') \<and>
     peer_at m' 1 = Some conn' \<and>
     net_sent 7 (net_hist m') @ sendBuffer conn' \<noteq> frame [1, 2, 3] @ frame [4] \<and>
     fst (client_drain (net_sent 7 (net_hist m') @ sendBuffer conn')) = [[1, 1, 0]]"
proof -
  let ?m = "(set_peer 1 (demo_peer\<lparr>sendBuffer := [2, 3]\<rparr>) demo_manager)
     \<lparr>net_hist := [NSend 7 (frame [1, 2, 3]) (Inr 5)]\<rparr>"
  have f: "frame [1, 2, 3] = [3, 0, 0, 0, 1, 2, 3]" "frame [4] = [1, 0, 0, 0, 4]"
    by (simp_all add: frame_def le_bytes_4)
  have "peer_at ?m 1 = Some (demo_peer\<lparr>sendBuffer := [2, 3]\<rparr>)" by (simp add: set_peer_def)
  from sendPacket_overtakes_buffered_bytes [OF this, of 1 "[4]" "[]" 5 "[1, 2, 3]" "demo_net [] (\<lambda>h. 5)" 5]
  obtain m' conn' where r: "sendPacket (demo_net [] (\<lambda>h. 5)) 1 (Some [4]) 1 ?m = (True, m')"
    "peer_at m' 1 = Some conn'" "net_sent 7 (net_hist m') @ sendBuffer conn' = [3, 0, 0, 0, 1, 1, 0, 0, 0, 4, 2, 3]"
    by (auto simp: f demo_net_def)
  have p: "([3, 0, 0, 0, 1, 1, 0, 0, 0, 4, 2, 3] :: bytes) = frame [1, 1, 0] @ [0, 0, 4, 2, 3]"
    by (simp add: frame_def le_bytes_4)
  have "client_drain [0, 0, 4, 2, 3] = ([], [])"
    by (subst client_drain_stop [of _ "\<lparr>m_buffer = []\<rparr>"])
      (simp_all add: tryParsePacket_def MAX_PACKET_SIZE_client_def Let_def)
  then have "fst (client_drain [3, 0, 0, 0, 1, 1, 0, 0, 0, 4, 2, 3]) = [[1, 1, 0]]"
    unfolding p using client_drain_frame [of "[1, 1, 0]" "[0, 0, 4, 2, 3]"] by (simp add: client_payload_def)
  then show ?thesis using r by (auto simp: f)
qed

text \<open>
  A callback that sends to another peer when it is told of a disconnection invalidates the iterator of
  \<open>removeDisconnected\<close> if that send fails: \<open>sendPacket\<close> appends the other peer to \<open>m_pendingRemove\<close>, the vector
  that the loop runs over.
\<close>

lemma failed_send_in_callback_invalidates:
  assumes "peer_at m pid = Some c" and "peer_at m other = Some oc" "connected oc" "other \<noteq> pid"
    and "m_connectionCallback m" and "sz \<noteq> 0"
    and "\<And>h. \<exists>err. net_send net h (socket oc) (createSendFrame bs sz) = Inl err \<and> \<not> wouldBlock err"
  shows "remove_peers net (\<lambda>p ev m. snd (sendPacket net other (Some bs) sz m)) (pid # pids) m = Inl IteratorInvalidated"
proof -
  let ?cb = "\<lambda>p ev m. snd (sendPacket net other (Some bs) sz m)"
  let ?c = "c\<lparr>socket := INVALID_SOCKET_HANDLE, connected := False,
     recvBuffer := buffer_clear (recvBuffer c), receiveQueue := queue_clear (receiveQueue c), sendBuffer := []\<rparr>"
  let ?m = "log_call (NNotify pid Disconnected) (set_peer pid ?c (closeSocket (socket c) m))"
  obtain err where err: "net_send net (net_hist ?m) (socket oc) (createSendFrame bs sz) = Inl err" "\<not> wouldBlock err"
    using assms(7) by blast
  let ?m2 = "push_pending other (set_peer other (oc\<lparr>connected := False\<rparr>)
    (log_call (NSend (socket oc) (createSendFrame bs sz) (Inl err)) ?m))"
  have "notifyConnectionEvent ?cb pid Disconnected (set_peer pid ?c (closeSocket (socket c) m)) = ?m2"
    using assms(2-6) err by (simp add: notifyConnectionEvent_def sendPacket_def send_call_eq Let_def)
  moreover have "peer_at ?m2 pid = Some ?c" using assms(4) by simp
  moreover have "m_pendingRemove ?m2 = m_pendingRemove m @ [other]" by (simp add: push_pending_def)
  ultimately show ?thesis
    using assms(1) by (auto simp: drop_connection_def notify_keeping_iterators_def nowMs_def Let_def)
qed

text \<open>
  C39: enabling automatic reconnection for a peer that is already waiting to reconnect cancels the
  reconnection for good: \<open>setAutoReconnect\<close> resets the time of the next attempt to zero, which the
  reconnection loop takes to mean that no attempt is due.
\<close>

theorem setAutoReconnect_cancels_waiting_peer:
  assumes "peer_at m pid = Some conn" and "\<not> connected conn"
  shows "reconnect_peer net cb now pid (setAutoReconnect pid True base maxDelay m) =
     Inr (setAutoReconnect pid True base maxDelay m)"
  using assms by (simp add: reconnect_peer_def setAutoReconnect_def)

theorem setAutoReconnect_cancels_waiting_peer_witness:
  "reconnect_peer (demo_net [] length) (\<lambda>pid ev m. m) 5000 1
     (setAutoReconnect 1 True 500 10000 (set_peer 1 (waiting demo_peer 1000) demo_manager)) =
   Inr (setAutoReconnect 1 True 500 10000 (set_peer 1 (waiting demo_peer 1000) demo_manager))"
  using setAutoReconnect_cancels_waiting_peer [of "set_peer 1 (waiting demo_peer 1000) demo_manager" 1 "waiting demo_peer 1000"]
  by (simp add: waiting_def)

end
