(* ===== verification/Hook_Theorems.thy ===== *)
theory Hook_Theorems
  imports Hook_Liveness Hook_Memory Client_Theorems
begin

text \<open>
  The theorems of the hook, with concrete runs that satisfy their hypotheses.
\<close>

section \<open>A concrete game\<close>

text \<open>
  The module is loaded at \<open>0x400000\<close>; the networking object is at \<open>0x500000\<close> with its table at
  \<open>0x600000\<close>, the user object at \<open>0x510000\<close>.  Every other cell holds its own address.
\<close>

definition demo_memory :: memory where
  "demo_memory a =
     (if a = 0xBF7778 then 0x500000
      else if a = 0xBF7774 then 1
      else if a = 0x500000 then 0x600000
      else if a = 0xBF7760 then 0x510000
      else if a = 0x510000 then 0x610000
      else a)"

definition demo_host :: "(string \<Rightarrow> string option) \<Rightarrow> host" where
  "demo_host files =
     \<lparr>steam_IsP2PPacketAvailable = (\<lambda>h fn this pcub ch. (False, 0)),
      steam_ReadP2PPacket = (\<lambda>h fn this n ch. ([], 0, 0)),
      steam_SendP2PPacket = (\<lambda>h fn this sid dat n ty ch. True),
      steam_GetSteamID = (\<lambda>h fn this. 42),
      GetModuleHandle = 0x400000,
      GetModuleFileName = ''p2p_hook.dll'',
      open_file = files,
      CreateThread = (\<lambda>h. 77),
      operator_new = (\<lambda>h. 0x900000),
      addr_Hook_SendP2PPacket = 0xA00000,
      addr_Hook_IsP2PPacketAvailable = 0xA00100,
      addr_Hook_ReadP2PPacket = 0xA00200\<rparr>"

abbreviation no_files :: "string \<Rightarrow> string option" where
  "no_files \<equiv> (\<lambda>path. None)"

abbreviation quiet_net :: net where
  "quiet_net \<equiv> demo_net [] length"

lemma demo_load:
  obtains st where "hook_DllMain (demo_host no_files) quiet_net DLL_PROCESS_ATTACH (hook_start demo_memory) = Inr (True, st)"
    "g_connectedPeer st = 1" "\<not> g_hasTcpData st"
proof -
  have "\<exists>st. hook_DllMain (demo_host no_files) quiet_net DLL_PROCESS_ATTACH (hook_start demo_memory) = Inr (True, st) \<and>
      g_connectedPeer st = 1 \<and> \<not> g_hasTcpData st"
    by (simp add: hook_DllMain_def hook_attach_def LoadConfig_def config_path_def demo_host_def hook_start_def
        p2p_start_def P2P_Init_def manager.defs p2p.defs hook.defs manager_new_def make_manager_def initialize_def
        platform_defs demo_net_def setConnectionCallback_def P2P_SetConnectionCallback_def connect_to_relay_def
        P2P_Connect_def usable_def manager_connect_def connectWithTimeout_def add_peer_def allocatePeerID_def
        um_emplace_def notifyConnectionEvent_def internalConnectionCallback_def ConnectionCallback_def
        P2P_SetAutoReconnect_def setAutoReconnect_def start_thread_def log_host_def set_peer_def
        INVALID_SOCKET_HANDLE_def P2P_INVALID_PEER_ID_def c_str_def)
  then show thesis using that by blast
qed



section \<open>Packets\<close>

text \<open>
  C12: while nothing new arrives, a game that asks and reads gets the packets the relay sent, in
  order, each with the identifier of its sender and exactly its data.
\<close>

theorem game_receives_in_order:
  assumes "net_quiet net" and "relay_queue st pkts" and "\<not> g_hasTcpData st"
  shows "\<exists>st'. game_receives host net thisptr ch n st = Some (Inr (take n pkts, st'))"
  using game_receives_queue [OF assms] .

definition with_game_packets :: hook where
  "with_game_packets = (hook_start demo_memory)
     \<lparr>m_initialized := True, g_manager := True,
      m_connections := [(1, demo_peer\<lparr>receiveQueue := \<lparr>m_queue = [relay_packet (42, [1, 2]), relay_packet (43, [])]\<rparr>\<rparr>)]\<rparr>"

lemma with_game_packets_queue: "relay_queue with_game_packets [(42, [1, 2]), (43, [])]"
  by (auto simp: relay_queue_def peers_up_def with_game_packets_def usable_def fits_def hook_start_def p2p_start_def
      manager_new_def manager.defs p2p.defs hook.defs um_find_def P2P_INVALID_PEER_ID_def split: if_splits)

lemma quiet_net_quiet: "net_quiet quiet_net"
  by (simp add: net_quiet_def demo_net_def)

theorem game_receives_in_order_witness:
  "\<exists>st'. game_receives (demo_host no_files) quiet_net 0x500000 0 5 with_game_packets =
     Some (Inr ([(42, [1, 2]), (43, [])], st'))"
proof -
  have "\<not> g_hasTcpData with_game_packets"
    by (simp add: with_game_packets_def hook_start_def p2p_start_def manager_new_def manager.defs p2p.defs hook.defs)
  from game_receives_in_order [OF quiet_net_quiet with_game_packets_queue this, of "demo_host no_files" "0x500000" 0 5]
  show ?thesis by simp
qed


section \<open>Safety\<close>

text \<open>
  C17: in every state that the game, the pump thread and the injection thread can bring the hook into,
  the table of peers is consistent, the size of the current packet is a 32-bit number, and nothing
  is left of a packet that was read.
\<close>

theorem hooked_states_consistent:
  assumes "hooked host net st"
  shows "manager_inv st \<and> length (g_tcpRecvBuffer st) < 2 ^ 32 \<and>
     (g_hasTcpData st \<or> g_tcpRecvBuffer st = [] \<and> g_tcpRecvSteamID st = 0)"
  using hooked_inv [OF assms] by (simp add: hook_inv_def)

theorem hooked_states_consistent_witness:
  "\<exists>st. hooked (demo_host no_files) quiet_net st \<and> g_connectedPeer st = 1 \<and> g_tcpRecvBuffer st = []"
proof -
  obtain st where st: "hook_DllMain (demo_host no_files) quiet_net DLL_PROCESS_ATTACH (hook_start demo_memory) = Inr (True, st)"
    "g_connectedPeer st = 1" "\<not> g_hasTcpData st"
    by (rule demo_load)
  then have "hooked (demo_host no_files) quiet_net st" by (intro hooked.load)
  then show ?thesis using hooked_states_consistent st by blast
qed

text \<open>
  C13: as long as calls into the library do not overlap in time, that is, each call of the game, each
  round of a thread and the unloading run to their end before the next one starts, none of them uses
  an invalid iterator, whatever they did before.  (The code takes no lock that would keep them apart:
  see \<open>detach_during_reconnect_invalidates\<close> for what happens otherwise.)  With
  arguments that keep the contract of the Steam interface (buffers of the size that is passed),
  reading overruns the game's buffer exactly if the packet is larger than the buffer, which the code
  does not check, and sending overruns the hook's own exactly if the size with the two identifiers
  does not fit 32 bits.
\<close>

theorem hook_faults_exactly:
  assumes "hooked host net st" and "length dest = unat cubDest" and "unat cubData \<le> length dat"
  shows "Hook_IsP2PPacketAvailable host net thisptr pcub ch st \<noteq> Some (Inl f) \<and>
     PumpThread net st \<noteq> Some (Inl f) \<and>
     hook_DllMain host net DLL_PROCESS_DETACH st \<noteq> Inl f \<and>
     (Hook_ReadP2PPacket (Some dest) cubDest psize psid st = Inl BufferOverrun \<longleftrightarrow>
        g_hasTcpData st \<and> unat cubDest < length (g_tcpRecvBuffer st)) \<and>
     (Hook_SendP2PPacket host net thisptr sid (Some dat) cubData ty ch st = Inl BufferOverrun \<longleftrightarrow>
        g_connectedPeer st \<noteq> P2P_INVALID_PEER_ID \<and> unat cubData + 16 \<ge> 2 ^ 32)"
proof (intro conjI)
  have run: "P2P_RunCallbacks net (ConnectionCallback net) s \<noteq> Some (Inl g)" for s g
    using processEvents_no_fault [OF hook_callback_keeps_iterators] by (simp add: P2P_RunCallbacks_def)
  then show "Hook_IsP2PPacketAvailable host net thisptr pcub ch st \<noteq> Some (Inl f)" "PumpThread net st \<noteq> Some (Inl f)"
    by (auto simp: Hook_IsP2PPacketAvailable_def PumpThread_def Let_def split: prod.split option.split sum.split)
  have dis: "\<exists>s'. P2P_Disconnect net (ConnectionCallback net) pid s = Inr s'" for pid s
    using disconnect_returns [OF hook_callback_keeps_iterators] by (simp add: P2P_Disconnect_def)
  obtain s' where "P2P_Disconnect net (ConnectionCallback net) (g_connectedPeer st)
      (P2P_SetAutoReconnect (g_connectedPeer st) False 0 0 st) = Inr s'" using dis by blast
  then show "hook_DllMain host net DLL_PROCESS_DETACH st \<noteq> Inl f"
    by (simp add: hook_DllMain_def hook_detach_def Let_def)
  have len: "length (g_tcpRecvBuffer st) < 2 ^ 32" using hooked_inv [OF assms(1)] by (simp add: hook_inv_def)
  then have n: "unat (word_of_nat (length (g_tcpRecvBuffer st)) :: u32) = length (g_tcpRecvBuffer st)"
    by (simp add: unat_of_nat)
  then have "(word_of_nat (length (g_tcpRecvBuffer st)) :: u32) > 0 \<longleftrightarrow> g_tcpRecvBuffer st \<noteq> []"
    by (auto simp: word_less_nat_alt)
  then show "Hook_ReadP2PPacket (Some dest) cubDest psize psid st = Inl BufferOverrun \<longleftrightarrow>
        g_hasTcpData st \<and> unat cubDest < length (g_tcpRecvBuffer st)"
    using n assms(2) by (auto simp: Hook_ReadP2PPacket_def copy_into_def Let_def)
  show "Hook_SendP2PPacket host net thisptr sid (Some dat) cubData ty ch st = Inl BufferOverrun \<longleftrightarrow>
        g_connectedPeer st \<noteq> P2P_INVALID_PEER_ID \<and> unat cubData + 16 \<ge> 2 ^ 32"
  proof (cases "unat cubData + 16 \<ge> 2 ^ 32")
    case True
    then show ?thesis
      using build_packet_overrun [OF True] by (simp add: Hook_SendP2PPacket_def Let_def)
  next
    case False
    then have "\<exists>buf. build_packet sid l (Some dat) cubData (8 + 8 + cubData) = Inr buf" for l
      using build_packet_takes [OF assms(3)] by simp
    then obtain buf where "build_packet sid (g_localSteamID st) (Some dat) cubData (8 + 8 + cubData) = Inr buf" by blast
    then show ?thesis using False by (simp add: Hook_SendP2PPacket_def Let_def)
  qed
qed

theorem hook_faults_exactly_witness:
  "\<exists>st. hooked (demo_host no_files) quiet_net st \<and> g_connectedPeer st = 1 \<and>
     Hook_SendP2PPacket (demo_host no_files) quiet_net 0x500000 43 (Some [5]) 1 0 0 st \<noteq> Inl BufferOverrun"
proof -
  obtain st where st: "hook_DllMain (demo_host no_files) quiet_net DLL_PROCESS_ATTACH (hook_start demo_memory) = Inr (True, st)"
    "g_connectedPeer st = 1" "\<not> g_hasTcpData st"
    by (rule demo_load)
  then have "hooked (demo_host no_files) quiet_net st" by (intro hooked.load)
  then show ?thesis
    using hook_faults_exactly [of "demo_host no_files" quiet_net st "[]" 0 1 "[5]"] st(2) by auto
qed

text \<open>
  What overlapping calls can do.  The pump thread is inside \<open>attemptReconnects\<close>, in the hook's callback for a
  connection that was just made again; before the callback returns, another thread unloads the DLL
  and disconnects the peer, which it does before it stops the pump thread.  The peer is erased from
  the table that the pump thread iterates over, for every state, network and time.
\<close>

definition detach_disconnects :: "net \<Rightarrow> hook \<Rightarrow> hook" where
  "detach_disconnects net st =
     (case P2P_Disconnect net (ConnectionCallback net) (g_connectedPeer st)
             (P2P_SetAutoReconnect (g_connectedPeer st) False 0 0 st) of
        Inl f \<Rightarrow> st | Inr st1 \<Rightarrow> st1)"

lemma ConnectionCallback_up:
  "g_connectedPeer (ConnectionCallback net pid True d st) = pid"
  "usable (ConnectionCallback net pid True d st) = usable st"
  by (auto simp: ConnectionCallback_def P2P_SendPacket_state sendPacket_def send_call_eq usable_def Let_def
      set_peer_def push_pending_def log_call_def split: option.split sum.split)

lemma detach_disconnects_erases:
  assumes "map fst (m_connections st) = [pid]" and "usable st" and "g_connectedPeer st = pid" "pid \<noteq> P2P_INVALID_PEER_ID"
  shows "m_connections (detach_disconnects net st) = []"
proof -
  let ?cb = "internalConnectionCallback (ConnectionCallback net)"
  obtain c where "m_connections st = [(pid, c)]" using assms(1) by auto
  then have off: "m_connections (setAutoReconnect pid False 0 0 st) =
      [(pid, c\<lparr>autoReconnect := False, reconnectBaseDelayMs := 0, reconnectMaxDelayMs := 0,
        reconnectAttempt := 0, nextReconnectAtMs := 0\<rparr>)]" (is "_ = [(pid, ?c)]")
    by (simp add: setAutoReconnect_def set_peer_def um_find_def)
  have u: "usable (setAutoReconnect pid False 0 0 st)" "g_manager (setAutoReconnect pid False 0 0 st)"
    using assms(2) by (simp_all add: setAutoReconnect_def set_peer_def usable_def split: option.split)
  have down: "m_connections (notifyConnectionEvent ?cb pid Disconnected s) = m_connections s" for s
    by (simp add: notifyConnectionEvent_def internalConnectionCallback_def ConnectionCallback_def)
  have "\<exists>s. manager_disconnect net ?cb pid (setAutoReconnect pid False 0 0 st) = Inr s \<and> m_connections s = []"
    using off by (simp add: manager_disconnect_def drop_connection_def notify_keeping_iterators_def down
        um_find_def um_erase_def set_peer_def Let_def)
  then show ?thesis
    using assms(2-4) u by (auto simp: detach_disconnects_def P2P_Disconnect_def P2P_SetAutoReconnect_def)
qed

lemma detach_during_reconnect_invalidates:
  assumes w: "waits_for_relay st pid c" and r: "relay_reachable net (remoteIP c) (remotePort c)"
    and due: "nextReconnectAtMs c \<le> now"
  shows "reconnect_peer net
     (internalConnectionCallback (\<lambda>p up d s. detach_disconnects net (ConnectionCallback net p up d s))) now pid st =
       Inl IteratorInvalidated"
proof -
  let ?cb = "internalConnectionCallback (\<lambda>p up d s. detach_disconnects net (ConnectionCallback net p up d s))"
  obtain s new where cw: "s \<noteq> INVALID_SOCKET_HANDLE"
    "connectWithTimeout net (Some (remoteIP c)) (remotePort c) 2000 st = (s, st\<lparr>net_hist := new @ net_hist st\<rparr>)"
    by (rule connectWithTimeout_reachable [OF r])
  let ?st = "set_peer pid (c\<lparr>socket := s, connected := True, reconnectAttempt := 0, nextReconnectAtMs := 0\<rparr>)
    (st\<lparr>net_hist := new @ net_hist st\<rparr>)"
  let ?s = "ConnectionCallback net pid True (g_userCallbackData st) (log_call (NNotify pid Connected) ?st)"
  have "usable ?st" "map fst (m_connections ?st) = [pid]" "pid \<noteq> P2P_INVALID_PEER_ID"
    using w by (simp_all add: waits_for_relay_def set_peer_def usable_def)
  then have "map fst (m_connections ?s) = [pid]" "usable ?s" "pid \<noteq> P2P_INVALID_PEER_ID"
    by (simp_all add: ConnectionCallback_keys ConnectionCallback_up) (simp add: usable_def log_call_def)
  then have "m_connections (detach_disconnects net ?s) = []"
    by (intro detach_disconnects_erases [of _ pid]) (simp_all add: ConnectionCallback_up)
  moreover have "notifyConnectionEvent ?cb pid Connected ?st = detach_disconnects net ?s"
    using w by (simp add: waits_for_relay_def notifyConnectionEvent_def internalConnectionCallback_def
        set_peer_def log_call_def)
  ultimately have "notify_keeping_iterators ?cb pid Connected ?st = Inl IteratorInvalidated"
    by (simp add: notify_keeping_iterators_def Let_def)
  then show ?thesis
    using w due cw by (auto simp: waits_for_relay_def reconnect_peer_def um_find_def)
qed

text \<open>
  C8: \<open>HookVTable\<close> and \<open>UnhookVTable\<close> are transparent.  After hooking, the object's virtual table has
  the three hook functions in their places and the original functions everywhere else, and the saved
  table leads to the original functions; after unhooking, the object has its original functions
  again, the memory outside the new table is as it was before, and the table has been deleted.
\<close>

theorem vtable_hook_roundtrip:
  assumes "HookVTable host st = (True, st1)"
    and "fresh_block (g_pNewVTable st1) (g_pObject st1) (g_pOriginalVTable st1)"
  shows "(\<forall>i < VTABLE_SIZE. virtual_function st1 (g_pObject st1) i =
       (case hooked_function host i of Some f \<Rightarrow> f | None \<Rightarrow> virtual_function st (g_pObject st1) i)) \<and>
     (\<forall>i < VTABLE_SIZE. saved_function st1 i = virtual_function st (g_pObject st1) i) \<and>
     (\<forall>i < VTABLE_SIZE. virtual_function (UnhookVTable st1) (g_pObject st1) i = virtual_function st (g_pObject st1) i) \<and>
     (\<forall>a. a \<notin> cells (g_pNewVTable st1) VTABLE_SIZE \<longrightarrow> game_memory (UnhookVTable st1) a = game_memory st a) \<and>
     host_hist (UnhookVTable st1) = HDelete (g_pNewVTable st1) # HNew (g_pNewVTable st1) # host_hist st"
proof -
  have z: "(0 :: nat) < VTABLE_SIZE" by (simp add: VTABLE_SIZE_def)
  show ?thesis
    using HookVTable_effect(1,2,4) [OF assms] HookVTable_effect(3,5) [OF assms z] by blast
qed

theorem vtable_hook_roundtrip_witness:
  "\<exists>st1. HookVTable (demo_host no_files) (hook_start demo_memory) = (True, st1) \<and>
     virtual_function st1 0x500000 0 = 0xA00000 \<and> virtual_function st1 0x500000 3 = 0x60000C \<and>
     virtual_function (UnhookVTable st1) 0x500000 0 = 0x600000"
proof -
  obtain st1 where st1: "HookVTable (demo_host no_files) (hook_start demo_memory) = (True, st1)"
    "g_pObject st1 = 0x500000" "g_pOriginalVTable st1 = 0x600000" "g_pNewVTable st1 = 0x900000"
    by (simp add: HookVTable_def demo_host_def hook_start_def p2p_start_def manager_new_def manager.defs p2p.defs
        hook.defs demo_memory_def VTABLE_OFFSET_def log_host_def)
  have "a \<in> cells 0x900000 VTABLE_SIZE \<Longrightarrow> 0x900000 \<le> unat a" "a \<in> cells 0x600000 VTABLE_SIZE \<Longrightarrow> 0x600000 \<le> unat a"
    "a \<in> cells 0x600000 VTABLE_SIZE \<Longrightarrow> unat a < 0x900000" for a
    using cells_range [of "0x900000" 48 a] cells_range [of "0x600000" 48 a] by (auto simp: VTABLE_SIZE_def)
  from this [of "0x500000"] this(1,3) have "fresh_block 0x900000 0x500000 0x600000"
    unfolding fresh_block_def by (auto simp: disjoint_iff) (meson leD)
  then have f: "fresh_block (g_pNewVTable st1) (g_pObject st1) (g_pOriginalVTable st1)" by (simp add: st1)
  have "\<forall>i < VTABLE_SIZE. virtual_function (hook_start demo_memory) 0x500000 i = demo_memory (cell 0x600000 i)"
    by (simp add: virtual_function_def hook_start_def p2p_start_def manager_new_def manager.defs p2p.defs hook.defs
        demo_memory_def)
  moreover have "cell 0x600000 3 = 0x60000C" "cell 0x600000 0 = 0x600000" by (simp_all add: cell_def)
  ultimately show ?thesis
    using vtable_hook_roundtrip [OF st1(1) f] st1
    by (simp add: hooked_function_def vtable_defs demo_host_def demo_memory_def)
qed



section \<open>The configuration\<close>

text \<open>
  C25: \<open>LoadConfig\<close> finds the settings.  The file next to the DLL, or else the one in the current
  directory, may have comments, blank lines and unknown settings anywhere and line ends of Unix or
  Windows; the address and the port it names become those of the relay, and nothing else changes.
\<close>

theorem LoadConfig_reads_settings:
  assumes "open_file host (config_path (GetModuleFileName host)) = Some text \<or>
      open_file host (config_path (GetModuleFileName host)) = None \<and> open_file host ''p2p_config.txt'' = Some text"
    and "text = concat (map (\<lambda>l. l @ [line_feed])
      (before @ [''ip='' @ ip @ eol] @ between @ [''port='' @ decimal n @ eol] @ after))"
    and "\<forall>l \<in> set (before @ between @ after). ignored_line l" and "line_end eol"
    and "carriage_return \<notin> set ip" "line_feed \<notin> set ip" and "n < 65536"
  shows "LoadConfig host st = Inr (True, st\<lparr>g_strRemoteIP := ip, g_nPort := word_of_nat n\<rparr>)"
proof -
  let ?ls = "before @ [''ip='' @ ip @ eol] @ between @ [''port='' @ decimal n @ eol] @ after"
  have "\<forall>l \<in> set ?ls. line_feed \<notin> set l"
    using assms(3-6) decimal_no_cr(2) by (auto simp: ignored_line_def line_end_def)
  then have ls: "getlines text = ?ls" unfolding assms(2) by (rule getlines_lines)
  have "stoi (decimal n) = Inr (int n)" using stoi_decimal [of n "[]"] assms(7) by simp
  then have "config_lines ?ls st = Inr (st\<lparr>g_strRemoteIP := ip, g_nPort := word_of_nat n\<rparr>)"
    using config_line_ip [OF assms(4,5)] config_line_port [OF assms(4) decimal_no_cr(1)] assms(3)
    by (simp add: config_lines_append config_lines_ignored)
  then show ?thesis using assms(1) ls by (auto simp: LoadConfig_def Let_def)
qed

definition demo_file :: string where
  "demo_file = concat (map (\<lambda>l. l @ [line_feed])
     ([''# relay'', ''mode=client''] @ [''ip='' @ ''10.0.0.1'' @ [carriage_return]] @ [[]] @
      [''port='' @ decimal 4000 @ [carriage_return]] @ []))"

theorem LoadConfig_reads_settings_witness:
  "LoadConfig (demo_host (\<lambda>path. if path = ''p2p_config.txt'' then Some demo_file else None)) (hook_start demo_memory) =
     Inr (True, (hook_start demo_memory)\<lparr>g_strRemoteIP := ''10.0.0.1'', g_nPort := 4000\<rparr>)"
proof -
  let ?h = "demo_host (\<lambda>path. if path = ''p2p_config.txt'' then Some demo_file else None)"
  have "open_file ?h (config_path (GetModuleFileName ?h)) = Some demo_file"
    by (simp add: demo_host_def config_path_def)
  from LoadConfig_reads_settings [OF disjI1 [OF this] demo_file_def, of "hook_start demo_memory"] show ?thesis
    by (simp add: ignored_line_def strip_cr_def line_end_def)
qed

text \<open>
  C40: a port that does not start with a number is not reported: \<open>std::stoi\<close> throws, nothing catches
  the exception, and it leaves \<open>DllMain\<close> while the library is not yet initialised.
\<close>

theorem malformed_port_escapes_DllMain:
  assumes "open_file host (config_path (GetModuleFileName host)) = Some (concat (map (\<lambda>l. l @ [line_feed])
      (before @ [''port='' @ v @ eol] @ after)))"
    and "\<forall>l \<in> set before. ignored_line l" and "\<forall>l \<in> set after. line_feed \<notin> set l" and "line_end eol"
    and "carriage_return \<notin> set v" "line_feed \<notin> set v" and "stoi v = Inl e"
  shows "hook_DllMain host net DLL_PROCESS_ATTACH st = Inl (UncaughtException e)"
proof -
  let ?ls = "before @ [''port='' @ v @ eol] @ after"
  have "\<forall>l \<in> set ?ls. line_feed \<notin> set l"
    using assms(2-6) by (auto simp: ignored_line_def line_end_def)
  then have "getlines (concat (map (\<lambda>l. l @ [line_feed]) ?ls)) = ?ls" by (rule getlines_lines)
  moreover have "config_lines ?ls st = Inl e"
    using config_line_port [OF assms(4,5)] assms(2,7) by (simp add: config_lines_append config_lines_ignored)
  ultimately have "LoadConfig host st = Inl e" using assms(1) by (simp add: LoadConfig_def Let_def)
  then show ?thesis by (simp add: hook_DllMain_def hook_attach_def)
qed

theorem malformed_port_escapes_DllMain_witness:
  "hook_DllMain (demo_host (\<lambda>path. Some (''port='' @ [line_feed]))) quiet_net DLL_PROCESS_ATTACH (hook_start demo_memory) =
     Inl (UncaughtException invalid_argument)"
  using malformed_port_escapes_DllMain
    [of "demo_host (\<lambda>path. Some (''port='' @ [line_feed]))" "[]" "[]" "[]" "[]" invalid_argument quiet_net "hook_start demo_memory"]
  by (simp add: demo_host_def line_end_def stoi_def strtol_def)


section \<open>Progress\<close>

text \<open>
  C6: a lost connection comes back.  When the hook waits to reconnect, the relay accepts connections
  (at once or, as is usual for a non-blocking socket, within the two seconds the library waits), a new
  socket takes the twelve bytes of a registration, and time passes, then after finitely many polls
  the library has created a socket and connected it to the relay's address, has told the hook, and the
  socket has taken the hook's identifier as the first bytes that went out on it.  If connections do not
  break, the peer is still connected over that socket when the last poll returns, and it is the one that
  the hook sends the game's packets to.
\<close>

theorem relay_connection_comes_back:
  assumes "waits_for_relay st pid c" and "relay_reachable net (remoteIP c) (remotePort c)"
    and "registration_taken net pid (g_localSteamID st)"
    and "net_recv_finite net" and "time_comes net (nextReconnectAtMs c)"
  shows "\<exists>k st' s. polls k net st = Some (Inr st') \<and>
     registered_again (net_hist st) pid c (g_localSteamID st) s (net_hist st') \<and>
     (connection_lasts net \<longrightarrow> on_relay pid s st')"
  using polls_reconnect [OF assms(1-4)] assms(5) unfolding time_comes_def comes_back_def by blast

definition lost_peer :: ClientConnection where
  "lost_peer = waiting (demo_peer\<lparr>autoReconnect := True\<rparr>) 1000"

definition lost_hook :: hook where
  "lost_hook = (hook_start demo_memory)
     \<lparr>m_initialized := True, g_manager := True, m_connectionCallback := True, g_userCallback := True,
      g_localSteamID := 42, m_connections := [(1, lost_peer)]\<rparr>"

definition ticking_net :: net where
  "ticking_net = (open_door)\<lparr>net_socket := \<lambda>h. 7, net_clock := \<lambda>h. word_of_nat (min (length h) 5000),
     net_connect := \<lambda>h s ip port. Some WSAEWOULDBLOCK,
     net_send := \<lambda>h s buf. Inr (length buf)\<rparr>"

theorem relay_connection_comes_back_witness:
  "\<exists>k st' s. polls k ticking_net lost_hook = Some (Inr st') \<and>
     registered_again [] 1 lost_peer 42 s (net_hist st') \<and> on_relay 1 s st'"
proof -
  have w: "waits_for_relay lost_hook 1 lost_peer"
    by (simp add: waits_for_relay_def lost_hook_def lost_peer_def waiting_def demo_peer_def ClientConnection_new_def
        hook_start_def p2p_start_def manager_new_def manager.defs p2p.defs hook.defs usable_def P2P_INVALID_PEER_ID_def)
  have r: "relay_reachable ticking_net (remoteIP lost_peer) (remotePort lost_peer)"
    by (simp add: relay_reachable_def ticking_net_def demo_net_def INVALID_SOCKET_HANDLE_def wouldBlock_def)
  have t: "registration_taken ticking_net 1 (g_localSteamID lost_hook)"
    by (simp add: registration_taken_def ticking_net_def mark_frame)
  have "net_recv ticking_net = net_recv quiet_net" by (simp add: ticking_net_def demo_net_def)
  then have f: "net_recv_finite ticking_net" using demo_net_recv_finite [of "[]" length] by (simp add: net_recv_finite_def)
  have "nextReconnectAtMs lost_peer = 1500"
    by (simp add: lost_peer_def waiting_def demo_peer_def ClientConnection_new_def)
  then have "time_comes ticking_net (nextReconnectAtMs lost_peer)"
    unfolding time_comes_def by (intro exI [of _ 5000]) (simp add: ticking_net_def)
  moreover have "connection_lasts ticking_net"
    by (simp add: connection_lasts_def ticking_net_def demo_net_def wouldBlock_def)
  moreover have "net_hist lost_hook = []" "g_localSteamID lost_hook = 42"
    by (simp_all add: lost_hook_def hook_start_def p2p_start_def manager_new_def manager.defs p2p.defs hook.defs)
  ultimately show ?thesis using relay_connection_comes_back [OF w r t f] by simp
qed

end
