(* ===== verification/Winmm_Tables.thy ===== *)
theory Winmm_Tables
  imports Main
begin

text \<open>
  The tables of the proxy DLL (\<open>winmm/winmm.cpp\<close>, \<open>winmm/x86.def\<close>), line by line: the members of
  \<open>struct winmm_dll\<close>, the assignments of \<open>LoadOriginalLibrary\<close> (member and name looked up), the naked
  functions (symbol and member they jump through) and the exports of the module definition file
  (name and symbol).  Each is given in six parts by the interface its functions belong to.
\<close>

section \<open>Members\<close>

definition winmm_members_driver :: "string list" where
  "winmm_members_driver = [
      ''CloseDriver'', ''DefDriverProc'', ''DriverCallback'', ''DrvGetModuleHandle'',
      ''GetDriverModuleHandle'', ''NotifyCallbackData'', ''OpenDriver'', ''PlaySound'', ''PlaySoundA'',
      ''PlaySoundW'', ''SendDriverMessage'', ''WOW32DriverCallback'', ''WOW32ResolveMultiMediaHandle'',
      ''WOWAppExit'', ''aux32Message'', ''auxGetDevCapsA'', ''auxGetDevCapsW'', ''auxGetNumDevs'',
      ''auxGetVolume'', ''auxOutMessage'', ''auxSetVolume'', ''joy32Message'', ''joyConfigChanged'',
      ''joyGetDevCapsA'', ''joyGetDevCapsW'', ''joyGetNumDevs'', ''joyGetPos'', ''joyGetPosEx'',
      ''joyGetThreshold'', ''joyReleaseCapture'', ''joySetCapture'', ''joySetThreshold'']"

definition winmm_members_mci :: "string list" where
  "winmm_members_mci = [
      ''mci32Message'', ''mciDriverNotify'', ''mciDriverYield'', ''mciExecute'',
      ''mciFreeCommandResource'', ''mciGetCreatorTask'', ''mciGetDeviceIDA'',
      ''mciGetDeviceIDFromElementIDA'', ''mciGetDeviceIDFromElementIDW'', ''mciGetDeviceIDW'',
      ''mciGetDriverData'', ''mciGetErrorStringA'', ''mciGetErrorStringW'', ''mciGetYieldProc'',
      ''mciLoadCommandResource'', ''mciSendCommandA'', ''mciSendCommandW'', ''mciSendStringA'',
      ''mciSendStringW'', ''mciSetDriverData'', ''mciSetYieldProc'', ''mid32Message'']"

definition winmm_members_midi :: "string list" where
  "winmm_members_midi = [
      ''midiConnect'', ''midiDisconnect'', ''midiInAddBuffer'', ''midiInClose'', ''midiInGetDevCapsA'',
      ''midiInGetDevCapsW'', ''midiInGetErrorTextA'', ''midiInGetErrorTextW'', ''midiInGetID'',
      ''midiInGetNumDevs'', ''midiInMessage'', ''midiInOpen'', ''midiInPrepareHeader'',
      ''midiInReset'', ''midiInStart'', ''midiInStop'', ''midiInUnprepareHeader'',
      ''midiOutCacheDrumPatches'', ''midiOutCachePatches'', ''midiOutClose'', ''midiOutGetDevCapsA'',
      ''midiOutGetDevCapsW'', ''midiOutGetErrorTextA'', ''midiOutGetErrorTextW'', ''midiOutGetID'',
      ''midiOutGetNumDevs'', ''midiOutGetVolume'', ''midiOutLongMsg'', ''midiOutMessage'',
      ''midiOutOpen'', ''midiOutPrepareHeader'', ''midiOutReset'', ''midiOutSetVolume'',
      ''midiOutShortMsg'', ''midiOutUnprepareHeader'', ''midiStreamClose'', ''midiStreamOpen'',
      ''midiStreamOut'', ''midiStreamPause'', ''midiStreamPosition'', ''midiStreamProperty'',
      ''midiStreamRestart'', ''midiStreamStop'']"

definition winmm_members_mixer :: "string list" where
  "winmm_members_mixer = [
      ''mixerClose'', ''mixerGetControlDetailsA'', ''mixerGetControlDetailsW'', ''mixerGetDevCapsA'',
      ''mixerGetDevCapsW'', ''mixerGetID'', ''mixerGetLineControlsA'', ''mixerGetLineControlsW'',
      ''mixerGetLineInfoA'', ''mixerGetLineInfoW'', ''mixerGetNumDevs'', ''mixerMessage'',
      ''mixerOpen'', ''mixerSetControlDetails'', ''mmDrvInstall'', ''mmGetCurrentTask'',
      ''mmTaskBlock'', ''mmTaskCreate'', ''mmTaskSignal'', ''mmTaskYield'']"

definition winmm_members_mmio :: "string list" where
  "winmm_members_mmio = [
      ''mmioAdvance'', ''mmioAscend'', ''mmioClose'', ''mmioCreateChunk'', ''mmioDescend'',
      ''mmioFlush'', ''mmioGetInfo'', ''mmioInstallIOProcA'', ''mmioInstallIOProcW'', ''mmioOpenA'',
      ''mmioOpenW'', ''mmioRead'', ''mmioRenameA'', ''mmioRenameW'', ''mmioSeek'', ''mmioSendMessage'',
      ''mmioSetBuffer'', ''mmioSetInfo'', ''mmioStringToFOURCCA'', ''mmioStringToFOURCCW'',
      ''mmioWrite'', ''mmsystemGetVersion'', ''mod32Message'', ''mxd32Message'', ''sndPlaySoundA'',
      ''sndPlaySoundW'', ''tid32Message'', ''timeBeginPeriod'', ''timeEndPeriod'', ''timeGetDevCaps'',
      ''timeGetSystemTime'', ''timeGetTime'', ''timeKillEvent'', ''timeSetEvent'']"

definition winmm_members_wave :: "string list" where
  "winmm_members_wave = [
      ''waveInAddBuffer'', ''waveInClose'', ''waveInGetDevCapsA'', ''waveInGetDevCapsW'',
      ''waveInGetErrorTextA'', ''waveInGetErrorTextW'', ''waveInGetID'', ''waveInGetNumDevs'',
      ''waveInGetPosition'', ''waveInMessage'', ''waveInOpen'', ''waveInPrepareHeader'',
      ''waveInReset'', ''waveInStart'', ''waveInStop'', ''waveInUnprepareHeader'',
      ''waveOutBreakLoop'', ''waveOutClose'', ''waveOutGetDevCapsA'', ''waveOutGetDevCapsW'',
      ''waveOutGetErrorTextA'', ''waveOutGetErrorTextW'', ''waveOutGetID'', ''waveOutGetNumDevs'',
      ''waveOutGetPitch'', ''waveOutGetPlaybackRate'', ''waveOutGetPosition'', ''waveOutGetVolume'',
      ''waveOutMessage'', ''waveOutOpen'', ''waveOutPause'', ''waveOutPrepareHeader'',
      ''waveOutReset'', ''waveOutRestart'', ''waveOutSetPitch'', ''waveOutSetPlaybackRate'',
      ''waveOutSetVolume'', ''waveOutUnprepareHeader'', ''waveOutWrite'', ''wid32Message'',
      ''wod32Message'']"

definition winmm_members :: "string list" where
  "winmm_members = winmm_members_driver @ winmm_members_mci @ winmm_members_midi @ winmm_members_mixer @ winmm_members_mmio @ winmm_members_wave"


section \<open>Assignments\<close>

definition winmm_loads_driver :: "(string \<times> string) list" where
  "winmm_loads_driver = [
      (''CloseDriver'', ''CloseDriver''), (''DefDriverProc'', ''DefDriverProc''),
      (''DriverCallback'', ''DriverCallback''), (''DrvGetModuleHandle'', ''DrvGetModuleHandle''),
      (''GetDriverModuleHandle'', ''GetDriverModuleHandle''),
      (''NotifyCallbackData'', ''NotifyCallbackData''), (''OpenDriver'', ''OpenDriver''),
      (''PlaySound'', ''PlaySound''), (''PlaySoundA'', ''PlaySoundA''),
      (''PlaySoundW'', ''PlaySoundW''), (''SendDriverMessage'', ''SendDriverMessage''),
      (''WOW32DriverCallback'', ''WOW32DriverCallback''),
      (''WOW32ResolveMultiMediaHandle'', ''WOW32ResolveMultiMediaHandle''),
      (''WOWAppExit'', ''WOWAppExit''), (''aux32Message'', ''aux32Message''),
      (''auxGetDevCapsA'', ''auxGetDevCapsA''), (''auxGetDevCapsW'', ''auxGetDevCapsW''),
      (''auxGetNumDevs'', ''auxGetNumDevs''), (''auxGetVolume'', ''auxGetVolume''),
      (''auxOutMessage'', ''auxOutMessage''), (''auxSetVolume'', ''auxSetVolume''),
      (''joy32Message'', ''joy32Message''), (''joyConfigChanged'', ''joyConfigChanged''),
      (''joyGetDevCapsA'', ''joyGetDevCapsA''), (''joyGetDevCapsW'', ''joyGetDevCapsW''),
      (''joyGetNumDevs'', ''joyGetNumDevs''), (''joyGetPos'', ''joyGetPos''),
      (''joyGetPosEx'', ''joyGetPosEx''), (''joyGetThreshold'', ''joyGetThreshold''),
      (''joyReleaseCapture'', ''joyReleaseCapture''), (''joySetCapture'', ''joySetCapture''),
      (''joySetThreshold'', ''joySetThreshold'')]"

definition winmm_loads_mci :: "(string \<times> string) list" where
  "winmm_loads_mci = [
      (''mci32Message'', ''mci32Message''), (''mciDriverNotify'', ''mciDriverNotify''),
      (''mciDriverYield'', ''mciDriverYield''), (''mciExecute'', ''mciExecute''),
      (''mciFreeCommandResource'', ''mciFreeCommandResource''),
      (''mciGetCreatorTask'', ''mciGetCreatorTask''), (''mciGetDeviceIDA'', ''mciGetDeviceIDA''),
      (''mciGetDeviceIDFromElementIDA'', ''mciGetDeviceIDFromElementIDA''),
      (''mciGetDeviceIDFromElementIDW'', ''mciGetDeviceIDFromElementIDW''),
      (''mciGetDeviceIDW'', ''mciGetDeviceIDW''), (''mciGetDriverData'', ''mciGetDriverData''),
      (''mciGetErrorStringA'', ''mciGetErrorStringA''),
      (''mciGetErrorStringW'', ''mciGetErrorStringW''), (''mciGetYieldProc'', ''mciGetYieldProc''),
      (''mciLoadCommandResource'', ''mciLoadCommandResource''),
      (''mciSendCommandA'', ''mciSendCommandA''), (''mciSendCommandW'', ''mciSendCommandW''),
      (''mciSendStringA'', ''mciSendStringA''), (''mciSendStringW'', ''mciSendStringW''),
      (''mciSetDriverData'', ''mciSetDriverData''), (''mciSetYieldProc'', ''mciSetYieldProc''),
      (''mid32Message'', ''mid32Message'')]"

definition winmm_loads_midi :: "(string \<times> string) list" where
  "winmm_loads_midi = [
      (''midiConnect'', ''midiConnect''), (''midiDisconnect'', ''midiDisconnect''),
      (''midiInAddBuffer'', ''midiInAddBuffer''), (''midiInClose'', ''midiInClose''),
      (''midiInGetDevCapsA'', ''midiInGetDevCapsA''), (''midiInGetDevCapsW'', ''midiInGetDevCapsW''),
      (''midiInGetErrorTextA'', ''midiInGetErrorTextA''),
      (''midiInGetErrorTextW'', ''midiInGetErrorTextW''), (''midiInGetID'', ''midiInGetID''),
      (''midiInGetNumDevs'', ''midiInGetNumDevs''), (''midiInMessage'', ''midiInMessage''),
      (''midiInOpen'', ''midiInOpen''), (''midiInPrepareHeader'', ''midiInPrepareHeader''),
      (''midiInReset'', ''midiInReset''), (''midiInStart'', ''midiInStart''),
      (''midiInStop'', ''midiInStop''), (''midiInUnprepareHeader'', ''midiInUnprepareHeader''),
      (''midiOutCacheDrumPatches'', ''midiOutCacheDrumPatches''),
      (''midiOutCachePatches'', ''midiOutCachePatches''), (''midiOutClose'', ''midiOutClose''),
      (''midiOutGetDevCapsA'', ''midiOutGetDevCapsA''),
      (''midiOutGetDevCapsW'', ''midiOutGetDevCapsW''),
      (''midiOutGetErrorTextA'', ''midiOutGetErrorTextA''),
      (''midiOutGetErrorTextW'', ''midiOutGetErrorTextW''), (''midiOutGetID'', ''midiOutGetID''),
      (''midiOutGetNumDevs'', ''midiOutGetNumDevs''), (''midiOutGetVolume'', ''midiOutGetVolume''),
      (''midiOutLongMsg'', ''midiOutLongMsg''), (''midiOutMessage'', ''midiOutMessage''),
      (''midiOutOpen'', ''midiOutOpen''), (''midiOutPrepareHeader'', ''midiOutPrepareHeader''),
      (''midiOutReset'', ''midiOutReset''), (''midiOutSetVolume'', ''midiOutSetVolume''),
      (''midiOutShortMsg'', ''midiOutShortMsg''),
      (''midiOutUnprepareHeader'', ''midiOutUnprepareHeader''),
      (''midiStreamClose'', ''midiStreamClose''), (''midiStreamOpen'', ''midiStreamOpen''),
      (''midiStreamOut'', ''midiStreamOut''), (''midiStreamPause'', ''midiStreamPause''),
      (''midiStreamPosition'', ''midiStreamPosition''),
      (''midiStreamProperty'', ''midiStreamProperty''), (''midiStreamRestart'', ''midiStreamRestart''),
      (''midiStreamStop'', ''midiStreamStop'')]"

definition winmm_loads_mixer :: "(string \<times> string) list" where
  "winmm_loads_mixer = [
      (''mixerClose'', ''mixerClose''), (''mixerGetControlDetailsA'', ''mixerGetControlDetailsA''),
      (''mixerGetControlDetailsW'', ''mixerGetControlDetailsW''),
      (''mixerGetDevCapsA'', ''mixerGetDevCapsA''), (''mixerGetDevCapsW'', ''mixerGetDevCapsW''),
      (''mixerGetID'', ''mixerGetID''), (''mixerGetLineControlsA'', ''mixerGetLineControlsA''),
      (''mixerGetLineControlsW'', ''mixerGetLineControlsW''),
      (''mixerGetLineInfoA'', ''mixerGetLineInfoA''), (''mixerGetLineInfoW'', ''mixerGetLineInfoW''),
      (''mixerGetNumDevs'', ''mixerGetNumDevs''), (''mixerMessage'', ''mixerMessage''),
      (''mixerOpen'', ''mixerOpen''), (''mixerSetControlDetails'', ''mixerSetControlDetails''),
      (''mmDrvInstall'', ''mmDrvInstall''), (''mmGetCurrentTask'', ''mmGetCurrentTask''),
      (''mmTaskBlock'', ''mmTaskBlock''), (''mmTaskCreate'', ''mmTaskCreate''),
      (''mmTaskSignal'', ''mmTaskSignal''), (''mmTaskYield'', ''mmTaskYield'')]"

definition winmm_loads_mmio :: "(string \<times> string) list" where
  "winmm_loads_mmio = [
      (''mmioAdvance'', ''mmioAdvance''), (''mmioAscend'', ''mmioAscend''),
      (''mmioClose'', ''mmioClose''), (''mmioCreateChunk'', ''mmioCreateChunk''),
      (''mmioDescend'', ''mmioDescend''), (''mmioFlush'', ''mmioFlush''),
      (''mmioGetInfo'', ''mmioGetInfo''), (''mmioInstallIOProcA'', ''mmioInstallIOProcA''),
      (''mmioInstallIOProcW'', ''mmioInstallIOProcW''), (''mmioOpenA'', ''mmioOpenA''),
      (''mmioOpenW'', ''mmioOpenW''), (''mmioRead'', ''mmioRead''), (''mmioRenameA'', ''mmioRenameA''),
      (''mmioRenameW'', ''mmioRenameW''), (''mmioSeek'', ''mmioSeek''),
      (''mmioSendMessage'', ''mmioSendMessage''), (''mmioSetBuffer'', ''mmioSetBuffer''),
      (''mmioSetInfo'', ''mmioSetInfo''), (''mmioStringToFOURCCA'', ''mmioStringToFOURCCA''),
      (''mmioStringToFOURCCW'', ''mmioStringToFOURCCW''), (''mmioWrite'', ''mmioWrite''),
      (''mmsystemGetVersion'', ''mmsystemGetVersion''), (''mod32Message'', ''mod32Message''),
      (''mxd32Message'', ''mxd32Message''), (''sndPlaySoundA'', ''sndPlaySoundA''),
      (''sndPlaySoundW'', ''sndPlaySoundW''), (''tid32Message'', ''tid32Message''),
      (''timeBeginPeriod'', ''timeBeginPeriod''), (''timeEndPeriod'', ''timeEndPeriod''),
      (''timeGetDevCaps'', ''timeGetDevCaps''), (''timeGetSystemTime'', ''timeGetSystemTime''),
      (''timeGetTime'', ''timeGetTime''), (''timeKillEvent'', ''timeKillEvent''),
      (''timeSetEvent'', ''timeSetEvent'')]"

definition winmm_loads_wave :: "(string \<times> string) list" where
  "winmm_loads_wave = [
      (''waveInAddBuffer'', ''waveInAddBuffer''), (''waveInClose'', ''waveInClose''),
      (''waveInGetDevCapsA'', ''waveInGetDevCapsA''), (''waveInGetDevCapsW'', ''waveInGetDevCapsW''),
      (''waveInGetErrorTextA'', ''waveInGetErrorTextA''),
      (''waveInGetErrorTextW'', ''waveInGetErrorTextW''), (''waveInGetID'', ''waveInGetID''),
      (''waveInGetNumDevs'', ''waveInGetNumDevs''), (''waveInGetPosition'', ''waveInGetPosition''),
      (''waveInMessage'', ''waveInMessage''), (''waveInOpen'', ''waveInOpen''),
      (''waveInPrepareHeader'', ''waveInPrepareHeader''), (''waveInReset'', ''waveInReset''),
      (''waveInStart'', ''waveInStart''), (''waveInStop'', ''waveInStop''),
      (''waveInUnprepareHeader'', ''waveInUnprepareHeader''),
      (''waveOutBreakLoop'', ''waveOutBreakLoop''), (''waveOutClose'', ''waveOutClose''),
      (''waveOutGetDevCapsA'', ''waveOutGetDevCapsA''),
      (''waveOutGetDevCapsW'', ''waveOutGetDevCapsW''),
      (''waveOutGetErrorTextA'', ''waveOutGetErrorTextA''),
      (''waveOutGetErrorTextW'', ''waveOutGetErrorTextW''), (''waveOutGetID'', ''waveOutGetID''),
      (''waveOutGetNumDevs'', ''waveOutGetNumDevs''), (''waveOutGetPitch'', ''waveOutGetPitch''),
      (''waveOutGetPlaybackRate'', ''waveOutGetPlaybackRate''),
      (''waveOutGetPosition'', ''waveOutGetPosition''), (''waveOutGetVolume'', ''waveOutGetVolume''),
      (''waveOutMessage'', ''waveOutMessage''), (''waveOutOpen'', ''waveOutOpen''),
      (''waveOutPause'', ''waveOutPause''), (''waveOutPrepareHeader'', ''waveOutPrepareHeader''),
      (''waveOutReset'', ''waveOutReset''), (''waveOutRestart'', ''waveOutRestart''),
      (''waveOutSetPitch'', ''waveOutSetPitch''),
      (''waveOutSetPlaybackRate'', ''waveOutSetPlaybackRate''),
      (''waveOutSetVolume'', ''waveOutSetVolume''),
      (''waveOutUnprepareHeader'', ''waveOutUnprepareHeader''), (''waveOutWrite'', ''waveOutWrite''),
      (''wid32Message'', ''wid32Message''), (''wod32Message'', ''wod32Message'')]"

definition winmm_loads :: "(string \<times> string) list" where
  "winmm_loads = winmm_loads_driver @ winmm_loads_mci @ winmm_loads_midi @ winmm_loads_mixer @ winmm_loads_mmio @ winmm_loads_wave"


section \<open>Forwarding functions\<close>

definition winmm_jumps_driver :: "(string \<times> string) list" where
  "winmm_jumps_driver = [
      (''_CloseDriver'', ''CloseDriver''), (''_DefDriverProc'', ''DefDriverProc''),
      (''_DriverCallback'', ''DriverCallback''), (''_DrvGetModuleHandle'', ''DrvGetModuleHandle''),
      (''_GetDriverModuleHandle'', ''GetDriverModuleHandle''),
      (''_NotifyCallbackData'', ''NotifyCallbackData''), (''_OpenDriver'', ''OpenDriver''),
      (''_PlaySound'', ''PlaySound''), (''_PlaySoundA'', ''PlaySoundA''),
      (''_PlaySoundW'', ''PlaySoundW''), (''_SendDriverMessage'', ''SendDriverMessage''),
      (''_WOW32DriverCallback'', ''WOW32DriverCallback''),
      (''_WOW32ResolveMultiMediaHandle'', ''WOW32ResolveMultiMediaHandle''),
      (''_WOWAppExit'', ''WOWAppExit''), (''_aux32Message'', ''aux32Message''),
      (''_auxGetDevCapsA'', ''auxGetDevCapsA''), (''_auxGetDevCapsW'', ''auxGetDevCapsW''),
      (''_auxGetNumDevs'', ''auxGetNumDevs''), (''_auxGetVolume'', ''auxGetVolume''),
      (''_auxOutMessage'', ''auxOutMessage''), (''_auxSetVolume'', ''auxSetVolume''),
      (''_joy32Message'', ''joy32Message''), (''_joyConfigChanged'', ''joyConfigChanged''),
      (''_joyGetDevCapsA'', ''joyGetDevCapsA''), (''_joyGetDevCapsW'', ''joyGetDevCapsW''),
      (''_joyGetNumDevs'', ''joyGetNumDevs''), (''_joyGetPos'', ''joyGetPos''),
      (''_joyGetPosEx'', ''joyGetPosEx''), (''_joyGetThreshold'', ''joyGetThreshold''),
      (''_joyReleaseCapture'', ''joyReleaseCapture''), (''_joySetCapture'', ''joySetCapture''),
      (''_joySetThreshold'', ''joySetThreshold'')]"

definition winmm_jumps_mci :: "(string \<times> string) list" where
  "winmm_jumps_mci = [
      (''_mci32Message'', ''mci32Message''), (''_mciDriverNotify'', ''mciDriverNotify''),
      (''_mciDriverYield'', ''mciDriverYield''), (''_mciExecute'', ''mciExecute''),
      (''_mciFreeCommandResource'', ''mciFreeCommandResource''),
      (''_mciGetCreatorTask'', ''mciGetCreatorTask''), (''_mciGetDeviceIDA'', ''mciGetDeviceIDA''),
      (''_mciGetDeviceIDFromElementIDA'', ''mciGetDeviceIDFromElementIDA''),
      (''_mciGetDeviceIDFromElementIDW'', ''mciGetDeviceIDFromElementIDW''),
      (''_mciGetDeviceIDW'', ''mciGetDeviceIDW''), (''_mciGetDriverData'', ''mciGetDriverData''),
      (''_mciGetErrorStringA'', ''mciGetErrorStringA''),
      (''_mciGetErrorStringW'', ''mciGetErrorStringW''), (''_mciGetYieldProc'', ''mciGetYieldProc''),
      (''_mciLoadCommandResource'', ''mciLoadCommandResource''),
      (''_mciSendCommandA'', ''mciSendCommandA''), (''_mciSendCommandW'', ''mciSendCommandW''),
      (''_mciSendStringA'', ''mciSendStringA''), (''_mciSendStringW'', ''mciSendStringW''),
      (''_mciSetDriverData'', ''mciSetDriverData''), (''_mciSetYieldProc'', ''mciSetYieldProc''),
      (''_mid32Message'', ''mid32Message'')]"

definition winmm_jumps_midi :: "(string \<times> string) list" where
  "winmm_jumps_midi = [
      (''_midiConnect'', ''midiConnect''), (''_midiDisconnect'', ''midiDisconnect''),
      (''_midiInAddBuffer'', ''midiInAddBuffer''), (''_midiInClose'', ''midiInClose''),
      (''_midiInGetDevCapsA'', ''midiInGetDevCapsA''), (''_midiInGetDevCapsW'', ''midiInGetDevCapsW''),
      (''_midiInGetErrorTextA'', ''midiInGetErrorTextA''),
      (''_midiInGetErrorTextW'', ''midiInGetErrorTextW''), (''_midiInGetID'', ''midiInGetID''),
      (''_midiInGetNumDevs'', ''midiInGetNumDevs''), (''_midiInMessage'', ''midiInMessage''),
      (''_midiInOpen'', ''midiInOpen''), (''_midiInPrepareHeader'', ''midiInPrepareHeader''),
      (''_midiInReset'', ''midiInReset''), (''_midiInStart'', ''midiInStart''),
      (''_midiInStop'', ''midiInStop''), (''_midiInUnprepareHeader'', ''midiInUnprepareHeader''),
      (''_midiOutCacheDrumPatches'', ''midiOutCacheDrumPatches''),
      (''_midiOutCachePatches'', ''midiOutCachePatches''), (''_midiOutClose'', ''midiOutClose''),
      (''_midiOutGetDevCapsA'', ''midiOutGetDevCapsA''),
      (''_midiOutGetDevCapsW'', ''midiOutGetDevCapsW''),
      (''_midiOutGetErrorTextA'', ''midiOutGetErrorTextA''),
      (''_midiOutGetErrorTextW'', ''midiOutGetErrorTextW''), (''_midiOutGetID'', ''midiOutGetID''),
      (''_midiOutGetNumDevs'', ''midiOutGetNumDevs''), (''_midiOutGetVolume'', ''midiOutGetVolume''),
      (''_midiOutLongMsg'', ''midiOutLongMsg''), (''_midiOutMessage'', ''midiOutMessage''),
      (''_midiOutOpen'', ''midiOutOpen''), (''_midiOutPrepareHeader'', ''midiOutPrepareHeader''),
      (''_midiOutReset'', ''midiOutReset''), (''_midiOutSetVolume'', ''midiOutSetVolume''),
      (''_midiOutShortMsg'', ''midiOutShortMsg''),
      (''_midiOutUnprepareHeader'', ''midiOutUnprepareHeader''),
      (''_midiStreamClose'', ''midiStreamClose''), (''_midiStreamOpen'', ''midiStreamOpen''),
      (''_midiStreamOut'', ''midiStreamOut''), (''_midiStreamPause'', ''midiStreamPause''),
      (''_midiStreamPosition'', ''midiStreamPosition''),
      (''_midiStreamProperty'', ''midiStreamProperty''),
      (''_midiStreamRestart'', ''midiStreamRestart''), (''_midiStreamStop'', ''midiStreamStop'')]"

definition winmm_jumps_mixer :: "(string \<times> string) list" where
  "winmm_jumps_mixer = [
      (''_mixerClose'', ''mixerClose''), (''_mixerGetControlDetailsA'', ''mixerGetControlDetailsA''),
      (''_mixerGetControlDetailsW'', ''mixerGetControlDetailsW''),
      (''_mixerGetDevCapsA'', ''mixerGetDevCapsA''), (''_mixerGetDevCapsW'', ''mixerGetDevCapsW''),
      (''_mixerGetID'', ''mixerGetID''), (''_mixerGetLineControlsA'', ''mixerGetLineControlsA''),
      (''_mixerGetLineControlsW'', ''mixerGetLineControlsW''),
      (''_mixerGetLineInfoA'', ''mixerGetLineInfoA''), (''_mixerGetLineInfoW'', ''mixerGetLineInfoW''),
      (''_mixerGetNumDevs'', ''mixerGetNumDevs''), (''_mixerMessage'', ''mixerMessage''),
      (''_mixerOpen'', ''mixerOpen''), (''_mixerSetControlDetails'', ''mixerSetControlDetails''),
      (''_mmDrvInstall'', ''mmDrvInstall''), (''_mmGetCurrentTask'', ''mmGetCurrentTask''),
      (''_mmTaskBlock'', ''mmTaskBlock''), (''_mmTaskCreate'', ''mmTaskCreate''),
      (''_mmTaskSignal'', ''mmTaskSignal''), (''_mmTaskYield'', ''mmTaskYield'')]"

definition winmm_jumps_mmio :: "(string \<times> string) list" where
  "winmm_jumps_mmio = [
      (''_mmioAdvance'', ''mmioAdvance''), (''_mmioAscend'', ''mmioAscend''),
      (''_mmioClose'', ''mmioClose''), (''_mmioCreateChunk'', ''mmioCreateChunk''),
      (''_mmioDescend'', ''mmioDescend''), (''_mmioFlush'', ''mmioFlush''),
      (''_mmioGetInfo'', ''mmioGetInfo''), (''_mmioInstallIOProcA'', ''mmioInstallIOProcA''),
      (''_mmioInstallIOProcW'', ''mmioInstallIOProcW''), (''_mmioOpenA'', ''mmioOpenA''),
      (''_mmioOpenW'', ''mmioOpenW''), (''_mmioRead'', ''mmioRead''),
      (''_mmioRenameA'', ''mmioRenameA''), (''_mmioRenameW'', ''mmioRenameW''),
      (''_mmioSeek'', ''mmioSeek''), (''_mmioSendMessage'', ''mmioSendMessage''),
      (''_mmioSetBuffer'', ''mmioSetBuffer''), (''_mmioSetInfo'', ''mmioSetInfo''),
      (''_mmioStringToFOURCCA'', ''mmioStringToFOURCCA''),
      (''_mmioStringToFOURCCW'', ''mmioStringToFOURCCW''), (''_mmioWrite'', ''mmioWrite''),
      (''_mmsystemGetVersion'', ''mmsystemGetVersion''), (''_mod32Message'', ''mod32Message''),
      (''_mxd32Message'', ''mxd32Message''), (''_sndPlaySoundA'', ''sndPlaySoundA''),
      (''_sndPlaySoundW'', ''sndPlaySoundW''), (''_tid32Message'', ''tid32Message''),
      (''_timeBeginPeriod'', ''timeBeginPeriod''), (''_timeEndPeriod'', ''timeEndPeriod''),
      (''_timeGetDevCaps'', ''timeGetDevCaps''), (''_timeGetSystemTime'', ''timeGetSystemTime''),
      (''_timeGetTime'', ''timeGetTime''), (''_timeKillEvent'', ''timeKillEvent''),
      (''_timeSetEvent'', ''timeSetEvent'')]"

definition winmm_jumps_wave :: "(string \<times> string) list" where
  "winmm_jumps_wave = [
      (''_waveInAddBuffer'', ''waveInAddBuffer''), (''_waveInClose'', ''waveInClose''),
      (''_waveInGetDevCapsA'', ''waveInGetDevCapsA''), (''_waveInGetDevCapsW'', ''waveInGetDevCapsW''),
      (''_waveInGetErrorTextA'', ''waveInGetErrorTextA''),
      (''_waveInGetErrorTextW'', ''waveInGetErrorTextW''), (''_waveInGetID'', ''waveInGetID''),
      (''_waveInGetNumDevs'', ''waveInGetNumDevs''), (''_waveInGetPosition'', ''waveInGetPosition''),
      (''_waveInMessage'', ''waveInMessage''), (''_waveInOpen'', ''waveInOpen''),
      (''_waveInPrepareHeader'', ''waveInPrepareHeader''), (''_waveInReset'', ''waveInReset''),
      (''_waveInStart'', ''waveInStart''), (''_waveInStop'', ''waveInStop''),
      (''_waveInUnprepareHeader'', ''waveInUnprepareHeader''),
      (''_waveOutBreakLoop'', ''waveOutBreakLoop''), (''_waveOutClose'', ''waveOutClose''),
      (''_waveOutGetDevCapsA'', ''waveOutGetDevCapsA''),
      (''_waveOutGetDevCapsW'', ''waveOutGetDevCapsW''),
      (''_waveOutGetErrorTextA'', ''waveOutGetErrorTextA''),
      (''_waveOutGetErrorTextW'', ''waveOutGetErrorTextW''), (''_waveOutGetID'', ''waveOutGetID''),
      (''_waveOutGetNumDevs'', ''waveOutGetNumDevs''), (''_waveOutGetPitch'', ''waveOutGetPitch''),
      (''_waveOutGetPlaybackRate'', ''waveOutGetPlaybackRate''),
      (''_waveOutGetPosition'', ''waveOutGetPosition''), (''_waveOutGetVolume'', ''waveOutGetVolume''),
      (''_waveOutMessage'', ''waveOutMessage''), (''_waveOutOpen'', ''waveOutOpen''),
      (''_waveOutPause'', ''waveOutPause''), (''_waveOutPrepareHeader'', ''waveOutPrepareHeader''),
      (''_waveOutReset'', ''waveOutReset''), (''_waveOutRestart'', ''waveOutRestart''),
      (''_waveOutSetPitch'', ''waveOutSetPitch''),
      (''_waveOutSetPlaybackRate'', ''waveOutSetPlaybackRate''),
      (''_waveOutSetVolume'', ''waveOutSetVolume''),
      (''_waveOutUnprepareHeader'', ''waveOutUnprepareHeader''), (''_waveOutWrite'', ''waveOutWrite''),
      (''_wid32Message'', ''wid32Message''), (''_wod32Message'', ''wod32Message'')]"

definition winmm_jumps :: "(string \<times> string) list" where
  "winmm_jumps = winmm_jumps_driver @ winmm_jumps_mci @ winmm_jumps_midi @ winmm_jumps_mixer @ winmm_jumps_mmio @ winmm_jumps_wave"


section \<open>Exports\<close>

definition winmm_exports_driver :: "(string \<times> string) list" where
  "winmm_exports_driver = [
      (''CloseDriver'', ''_CloseDriver''), (''DefDriverProc'', ''_DefDriverProc''),
      (''DriverCallback'', ''_DriverCallback''), (''DrvGetModuleHandle'', ''_DrvGetModuleHandle''),
      (''GetDriverModuleHandle'', ''_GetDriverModuleHandle''),
      (''NotifyCallbackData'', ''_NotifyCallbackData''), (''OpenDriver'', ''_OpenDriver''),
      (''PlaySound'', ''_PlaySound''), (''PlaySoundA'', ''_PlaySoundA''),
      (''PlaySoundW'', ''_PlaySoundW''), (''SendDriverMessage'', ''_SendDriverMessage''),
      (''WOW32DriverCallback'', ''_WOW32DriverCallback''),
      (''WOW32ResolveMultiMediaHandle'', ''_WOW32ResolveMultiMediaHandle''),
      (''WOWAppExit'', ''_WOWAppExit''), (''aux32Message'', ''_aux32Message''),
      (''auxGetDevCapsA'', ''_auxGetDevCapsA''), (''auxGetDevCapsW'', ''_auxGetDevCapsW''),
      (''auxGetNumDevs'', ''_auxGetNumDevs''), (''auxGetVolume'', ''_auxGetVolume''),
      (''auxOutMessage'', ''_auxOutMessage''), (''auxSetVolume'', ''_auxSetVolume''),
      (''joy32Message'', ''_joy32Message''), (''joyConfigChanged'', ''_joyConfigChanged''),
      (''joyGetDevCapsA'', ''_joyGetDevCapsA''), (''joyGetDevCapsW'', ''_joyGetDevCapsW''),
      (''joyGetNumDevs'', ''_joyGetNumDevs''), (''joyGetPos'', ''_joyGetPos''),
      (''joyGetPosEx'', ''_joyGetPosEx''), (''joyGetThreshold'', ''_joyGetThreshold''),
      (''joyReleaseCapture'', ''_joyReleaseCapture''), (''joySetCapture'', ''_joySetCapture''),
      (''joySetThreshold'', ''_joySetThreshold'')]"

definition winmm_exports_mci :: "(string \<times> string) list" where
  "winmm_exports_mci = [
      (''mci32Message'', ''_mci32Message''), (''mciDriverNotify'', ''_mciDriverNotify''),
      (''mciDriverYield'', ''_mciDriverYield''), (''mciExecute'', ''_mciExecute''),
      (''mciFreeCommandResource'', ''_mciFreeCommandResource''),
      (''mciGetCreatorTask'', ''_mciGetCreatorTask''), (''mciGetDeviceIDA'', ''_mciGetDeviceIDA''),
      (''mciGetDeviceIDFromElementIDA'', ''_mciGetDeviceIDFromElementIDA''),
      (''mciGetDeviceIDFromElementIDW'', ''_mciGetDeviceIDFromElementIDW''),
      (''mciGetDeviceIDW'', ''_mciGetDeviceIDW''), (''mciGetDriverData'', ''_mciGetDriverData''),
      (''mciGetErrorStringA'', ''_mciGetErrorStringA''),
      (''mciGetErrorStringW'', ''_mciGetErrorStringW''), (''mciGetYieldProc'', ''_mciGetYieldProc''),
      (''mciLoadCommandResource'', ''_mciLoadCommandResource''),
      (''mciSendCommandA'', ''_mciSendCommandA''), (''mciSendCommandW'', ''_mciSendCommandW''),
      (''mciSendStringA'', ''_mciSendStringA''), (''mciSendStringW'', ''_mciSendStringW''),
      (''mciSetDriverData'', ''_mciSetDriverData''), (''mciSetYieldProc'', ''_mciSetYieldProc''),
      (''mid32Message'', ''_mid32Message'')]"

definition winmm_exports_midi :: "(string \<times> string) list" where
  "winmm_exports_midi = [
      (''midiConnect'', ''_midiConnect''), (''midiDisconnect'', ''_midiDisconnect''),
      (''midiInAddBuffer'', ''_midiInAddBuffer''), (''midiInClose'', ''_midiInClose''),
      (''midiInGetDevCapsA'', ''_midiInGetDevCapsA''), (''midiInGetDevCapsW'', ''_midiInGetDevCapsW''),
      (''midiInGetErrorTextA'', ''_midiInGetErrorTextA''),
      (''midiInGetErrorTextW'', ''_midiInGetErrorTextW''), (''midiInGetID'', ''_midiInGetID''),
      (''midiInGetNumDevs'', ''_midiInGetNumDevs''), (''midiInMessage'', ''_midiInMessage''),
      (''midiInOpen'', ''_midiInOpen''), (''midiInPrepareHeader'', ''_midiInPrepareHeader''),
      (''midiInReset'', ''_midiInReset''), (''midiInStart'', ''_midiInStart''),
      (''midiInStop'', ''_midiInStop''), (''midiInUnprepareHeader'', ''_midiInUnprepareHeader''),
      (''midiOutCacheDrumPatches'', ''_midiOutCacheDrumPatches''),
      (''midiOutCachePatches'', ''_midiOutCachePatches''), (''midiOutClose'', ''_midiOutClose''),
      (''midiOutGetDevCapsA'', ''_midiOutGetDevCapsA''),
      (''midiOutGetDevCapsW'', ''_midiOutGetDevCapsW''),
      (''midiOutGetErrorTextA'', ''_midiOutGetErrorTextA''),
      (''midiOutGetErrorTextW'', ''_midiOutGetErrorTextW''), (''midiOutGetID'', ''_midiOutGetID''),
      (''midiOutGetNumDevs'', ''_midiOutGetNumDevs''), (''midiOutGetVolume'', ''_midiOutGetVolume''),
      (''midiOutLongMsg'', ''_midiOutLongMsg''), (''midiOutMessage'', ''_midiOutMessage''),
      (''midiOutOpen'', ''_midiOutOpen''), (''midiOutPrepareHeader'', ''_midiOutPrepareHeader''),
      (''midiOutReset'', ''_midiOutReset''), (''midiOutSetVolume'', ''_midiOutSetVolume''),
      (''midiOutShortMsg'', ''_midiOutShortMsg''),
      (''midiOutUnprepareHeader'', ''_midiOutUnprepareHeader''),
      (''midiStreamClose'', ''_midiStreamClose''), (''midiStreamOpen'', ''_midiStreamOpen''),
      (''midiStreamOut'', ''_midiStreamOut''), (''midiStreamPause'', ''_midiStreamPause''),
      (''midiStreamPosition'', ''_midiStreamPosition''),
      (''midiStreamProperty'', ''_midiStreamProperty''),
      (''midiStreamRestart'', ''_midiStreamRestart''), (''midiStreamStop'', ''_midiStreamStop'')]"

definition winmm_exports_mixer :: "(string \<times> string) list" where
  "winmm_exports_mixer = [
      (''mixerClose'', ''_mixerClose''), (''mixerGetControlDetailsA'', ''_mixerGetControlDetailsA''),
      (''mixerGetControlDetailsW'', ''_mixerGetControlDetailsW''),
      (''mixerGetDevCapsA'', ''_mixerGetDevCapsA''), (''mixerGetDevCapsW'', ''_mixerGetDevCapsW''),
      (''mixerGetID'', ''_mixerGetID''), (''mixerGetLineControlsA'', ''_mixerGetLineControlsA''),
      (''mixerGetLineControlsW'', ''_mixerGetLineControlsW''),
      (''mixerGetLineInfoA'', ''_mixerGetLineInfoA''), (''mixerGetLineInfoW'', ''_mixerGetLineInfoW''),
      (''mixerGetNumDevs'', ''_mixerGetNumDevs''), (''mixerMessage'', ''_mixerMessage''),
      (''mixerOpen'', ''_mixerOpen''), (''mixerSetControlDetails'', ''_mixerSetControlDetails''),
      (''mmDrvInstall'', ''_mmDrvInstall''), (''mmGetCurrentTask'', ''_mmGetCurrentTask''),
      (''mmTaskBlock'', ''_mmTaskBlock''), (''mmTaskCreate'', ''_mmTaskCreate''),
      (''mmTaskSignal'', ''_mmTaskSignal''), (''mmTaskYield'', ''_mmTaskYield'')]"

definition winmm_exports_mmio :: "(string \<times> string) list" where
  "winmm_exports_mmio = [
      (''mmioAdvance'', ''_mmioAdvance''), (''mmioAscend'', ''_mmioAscend''),
      (''mmioClose'', ''_mmioClose''), (''mmioCreateChunk'', ''_mmioCreateChunk''),
      (''mmioDescend'', ''_mmioDescend''), (''mmioFlush'', ''_mmioFlush''),
      (''mmioGetInfo'', ''_mmioGetInfo''), (''mmioInstallIOProcA'', ''_mmioInstallIOProcA''),
      (''mmioInstallIOProcW'', ''_mmioInstallIOProcW''), (''mmioOpenA'', ''_mmioOpenA''),
      (''mmioOpenW'', ''_mmioOpenW''), (''mmioRead'', ''_mmioRead''),
      (''mmioRenameA'', ''_mmioRenameA''), (''mmioRenameW'', ''_mmioRenameW''),
      (''mmioSeek'', ''_mmioSeek''), (''mmioSendMessage'', ''_mmioSendMessage''),
      (''mmioSetBuffer'', ''_mmioSetBuffer''), (''mmioSetInfo'', ''_mmioSetInfo''),
      (''mmioStringToFOURCCA'', ''_mmioStringToFOURCCA''),
      (''mmioStringToFOURCCW'', ''_mmioStringToFOURCCW''), (''mmioWrite'', ''_mmioWrite''),
      (''mmsystemGetVersion'', ''_mmsystemGetVersion''), (''mod32Message'', ''_mod32Message''),
      (''mxd32Message'', ''_mxd32Message''), (''sndPlaySoundA'', ''_sndPlaySoundA''),
      (''sndPlaySoundW'', ''_sndPlaySoundW''), (''tid32Message'', ''_tid32Message''),
      (''timeBeginPeriod'', ''_timeBeginPeriod''), (''timeEndPeriod'', ''_timeEndPeriod''),
      (''timeGetDevCaps'', ''_timeGetDevCaps''), (''timeGetSystemTime'', ''_timeGetSystemTime''),
      (''timeGetTime'', ''_timeGetTime''), (''timeKillEvent'', ''_timeKillEvent''),
      (''timeSetEvent'', ''_timeSetEvent'')]"

definition winmm_exports_wave :: "(string \<times> string) list" where
  "winmm_exports_wave = [
      (''waveInAddBuffer'', ''_waveInAddBuffer''), (''waveInClose'', ''_waveInClose''),
      (''waveInGetDevCapsA'', ''_waveInGetDevCapsA''), (''waveInGetDevCapsW'', ''_waveInGetDevCapsW''),
      (''waveInGetErrorTextA'', ''_waveInGetErrorTextA''),
      (''waveInGetErrorTextW'', ''_waveInGetErrorTextW''), (''waveInGetID'', ''_waveInGetID''),
      (''waveInGetNumDevs'', ''_waveInGetNumDevs''), (''waveInGetPosition'', ''_waveInGetPosition''),
      (''waveInMessage'', ''_waveInMessage''), (''waveInOpen'', ''_waveInOpen''),
      (''waveInPrepareHeader'', ''_waveInPrepareHeader''), (''waveInReset'', ''_waveInReset''),
      (''waveInStart'', ''_waveInStart''), (''waveInStop'', ''_waveInStop''),
      (''waveInUnprepareHeader'', ''_waveInUnprepareHeader''),
      (''waveOutBreakLoop'', ''_waveOutBreakLoop''), (''waveOutClose'', ''_waveOutClose''),
      (''waveOutGetDevCapsA'', ''_waveOutGetDevCapsA''),
      (''waveOutGetDevCapsW'', ''_waveOutGetDevCapsW''),
      (''waveOutGetErrorTextA'', ''_waveOutGetErrorTextA''),
      (''waveOutGetErrorTextW'', ''_waveOutGetErrorTextW''), (''waveOutGetID'', ''_waveOutGetID''),
      (''waveOutGetNumDevs'', ''_waveOutGetNumDevs''), (''waveOutGetPitch'', ''_waveOutGetPitch''),
      (''waveOutGetPlaybackRate'', ''_waveOutGetPlaybackRate''),
      (''waveOutGetPosition'', ''_waveOutGetPosition''), (''waveOutGetVolume'', ''_waveOutGetVolume''),
      (''waveOutMessage'', ''_waveOutMessage''), (''waveOutOpen'', ''_waveOutOpen''),
      (''waveOutPause'', ''_waveOutPause''), (''waveOutPrepareHeader'', ''_waveOutPrepareHeader''),
      (''waveOutReset'', ''_waveOutReset''), (''waveOutRestart'', ''_waveOutRestart''),
      (''waveOutSetPitch'', ''_waveOutSetPitch''),
      (''waveOutSetPlaybackRate'', ''_waveOutSetPlaybackRate''),
      (''waveOutSetVolume'', ''_waveOutSetVolume''),
      (''waveOutUnprepareHeader'', ''_waveOutUnprepareHeader''), (''waveOutWrite'', ''_waveOutWrite''),
      (''wid32Message'', ''_wid32Message''), (''wod32Message'', ''_wod32Message'')]"

definition winmm_exports :: "(string \<times> string) list" where
  "winmm_exports = winmm_exports_driver @ winmm_exports_mci @ winmm_exports_midi @ winmm_exports_mixer @ winmm_exports_mmio @ winmm_exports_wave"


section \<open>The tables agree\<close>

lemmas members_defs = winmm_members_driver_def winmm_members_mci_def winmm_members_midi_def winmm_members_mixer_def
  winmm_members_mmio_def winmm_members_wave_def
lemmas loads_defs = winmm_loads_driver_def winmm_loads_mci_def winmm_loads_midi_def winmm_loads_mixer_def winmm_loads_mmio_def winmm_loads_wave_def
lemmas jumps_defs = winmm_jumps_driver_def winmm_jumps_mci_def winmm_jumps_midi_def winmm_jumps_mixer_def winmm_jumps_mmio_def winmm_jumps_wave_def
lemmas exports_defs = winmm_exports_driver_def winmm_exports_mci_def winmm_exports_midi_def winmm_exports_mixer_def winmm_exports_mmio_def
  winmm_exports_wave_def

lemma loads_members: "winmm_loads = map (\<lambda>m. (m, m)) winmm_members"
  by (simp only: winmm_loads_def winmm_members_def loads_defs members_defs list.map map_append)

lemma jumps_members: "winmm_jumps = map (\<lambda>m. (''_'' @ m, m)) winmm_members"
  by (simp only: winmm_jumps_def winmm_members_def jumps_defs members_defs list.map map_append append_Cons append_Nil)

lemma exports_members: "winmm_exports = map (\<lambda>m. (m, ''_'' @ m)) winmm_members"
  by (simp only: winmm_exports_def winmm_members_def exports_defs members_defs list.map map_append append_Cons append_Nil)

lemma length_members: "length winmm_members = 192"
  by (simp only: winmm_members_def members_defs length_append list.size)

end
