(* ===== verification/Winmm.thy ===== *)
theory Winmm
  imports Winmm_Tables Hook
begin

text \<open>
  The proxy DLL (\<open>winmm/winmm.cpp\<close>).  Windows loads it in place of the system's \<open>winmm.dll\<close>; it
  loads the original one, forwards every export to it, and loads the hook if the process is the
  game.  The Windows loader is the parameter \<open>loader\<close>; what the DLL asks of it is put on a history.

  A naked function consists of one jump through a member of the struct, so calling it is jumping to
  the address stored there: 0 until \<open>LoadOriginalLibrary\<close> has run, because the struct is static.
\<close>

section \<open>State\<close>

datatype loader_call = LLoadLibrary string address | LFreeLibrary address

record loader =
  GetSystemDirectory :: string
  process_path :: string
  LoadLibrary :: "loader_call list \<Rightarrow> string \<Rightarrow> address"
  GetProcAddress :: "address \<Rightarrow> string \<Rightarrow> address"

record winmm =
  dll :: address
  procs :: "string \<Rightarrow> address"
  hOriginalDll :: address
  loader_hist :: "loader_call list"

datatype loader_fault = InvalidParameter

definition winmm_start :: winmm where
  "winmm_start = \<lparr>dll = 0, procs = (\<lambda>member. 0), hOriginalDll = 0, loader_hist = []\<rparr>"

definition MAX_PATH :: nat where "MAX_PATH = 260"


section \<open>Forwarding\<close>

definition LoadOriginalLibrary :: "loader \<Rightarrow> address \<Rightarrow> winmm \<Rightarrow> winmm" where
  "LoadOriginalLibrary ld module st =
     st\<lparr>dll := module,
        procs := foldl (\<lambda>f a. f(fst a := GetProcAddress ld module (snd a))) (procs st) winmm_loads\<rparr>"

text \<open>
  Where a call of an export goes: the symbol that the module definition file gives for the name, the
  member its body jumps through, and the address stored there.
\<close>

definition call_export :: "winmm \<Rightarrow> string \<Rightarrow> address option" where
  "call_export st name =
     (case map_of winmm_exports name of
        None \<Rightarrow> None
      | Some symbol \<Rightarrow> map_option (procs st) (map_of winmm_jumps symbol))"


section \<open>The process\<close>

definition is_separator :: "char \<Rightarrow> bool" where
  "is_separator c \<longleftrightarrow> c = CHR 0x5C \<or> c = CHR ''/''"

definition IsTargetProcess :: "loader \<Rightarrow> string \<Rightarrow> bool" where
  "IsTargetProcess ld targetName =
     (let path = process_path ld;
          exeName = (case find_last is_separator path of Some pos \<Rightarrow> drop (pos + 1) path | None \<Rightarrow> path)
      in lowercase exeName = lowercase targetName)"

definition GetProcessDirectory :: "loader \<Rightarrow> string" where
  "GetProcessDirectory ld =
     (let path = process_path ld
      in case find_last is_separator path of Some pos \<Rightarrow> take (pos + 1) path | None \<Rightarrow> [])"


section \<open>Loading and unloading\<close>

definition load_library :: "loader \<Rightarrow> string \<Rightarrow> winmm \<Rightarrow> address \<times> winmm" where
  "load_library ld path st =
     (let h = LoadLibrary ld (loader_hist st) path
      in (h, st\<lparr>loader_hist := loader_hist st @ [LLoadLibrary path h]\<rparr>))"

text \<open>\<open>strcat_s\<close> ends the process if the result does not fit the buffer.\<close>

definition winmm_attach :: "loader \<Rightarrow> winmm \<Rightarrow> loader_fault + bool \<times> winmm" where
  "winmm_attach ld st =
     (let systemPath = GetSystemDirectory ld @ CHR 0x5C # ''winmm.dll''
      in if length systemPath + 1 > MAX_PATH then Inl InvalidParameter
         else
           (case load_library ld systemPath st of
              (h, st1) \<Rightarrow>
                let st2 = st1\<lparr>hOriginalDll := h\<rparr>;
                    st3 = (if h \<noteq> 0 then LoadOriginalLibrary ld h st2 else st2)
                in if IsTargetProcess ld ''isaac-ng.exe''
                   then Inr (True, snd (load_library ld (GetProcessDirectory ld @ ''p2p_hook.dll'') st3))
                   else Inr (True, st3)))"

definition winmm_DllMain :: "loader \<Rightarrow> call_reason \<Rightarrow> winmm \<Rightarrow> loader_fault + bool \<times> winmm" where
  "winmm_DllMain ld reason st =
     (case reason of
        DLL_PROCESS_ATTACH \<Rightarrow> winmm_attach ld st
      | DLL_PROCESS_DETACH \<Rightarrow>
          Inr (True, if hOriginalDll st \<noteq> 0
                     then st\<lparr>loader_hist := loader_hist st @ [LFreeLibrary (hOriginalDll st)]\<rparr> else st)
      | DLL_THREAD_ATTACH \<Rightarrow> Inr (True, st)
      | DLL_THREAD_DETACH \<Rightarrow> Inr (True, st))"


section \<open>Facts\<close>

lemma foldl_assign:
  "foldl (\<lambda>f a. f(fst a := g (snd a))) f (map (\<lambda>m. (m, m)) ms) = (\<lambda>m. if m \<in> set ms then g m else f m)"
  by (induction ms arbitrary: f) auto

lemma procs_LoadOriginalLibrary:
  "procs (LoadOriginalLibrary ld h st) =
     (\<lambda>m. if m \<in> set winmm_members then GetProcAddress ld h m else procs st m)"
  by (simp add: LoadOriginalLibrary_def loads_members foldl_assign)

lemma map_of_tagged:
  "map_of (map (\<lambda>m. (m, g m)) ms) k = (if k \<in> set ms then Some (g k) else None)"
  "map_of (map (\<lambda>m. (''_'' @ m, m)) ms) (''_'' @ k) = (if k \<in> set ms then Some k else None)"
  by (induction ms) auto

lemma call_export_member:
  "call_export st name = (if name \<in> set winmm_members then Some (procs st name) else None)"
  using map_of_tagged(2) [of winmm_members name]
  by (simp add: call_export_def exports_members jumps_members map_of_tagged(1))

text \<open>A path and its two parts.\<close>

definition path_parts :: "string \<Rightarrow> string \<Rightarrow> string \<Rightarrow> bool" where
  "path_parts path dir base \<longleftrightarrow> path = dir @ base \<and> (\<forall>c \<in> set base. \<not> is_separator c) \<and>
     (dir = [] \<or> is_separator (last dir))"

lemma find_last_parts:
  assumes "path_parts path dir base"
  shows "find_last is_separator path = (if dir = [] then None else Some (length dir - 1))"
proof (cases dir rule: rev_cases)
  case Nil
  then show ?thesis using assms by (simp add: path_parts_def find_last_None)
next
  case (snoc ds c)
  then show ?thesis using assms find_last_Some [of is_separator c base ds] by (simp add: path_parts_def)
qed

lemma process_parts:
  assumes "path_parts (process_path ld) dir base"
  shows "GetProcessDirectory ld = dir" and "IsTargetProcess ld t \<longleftrightarrow> lowercase base = lowercase t"
  using assms find_last_parts [OF assms]
  by (auto simp: GetProcessDirectory_def IsTargetProcess_def path_parts_def Let_def)


lemma winmm_attach_returns:
  "length (GetSystemDirectory ld) + 11 \<le> MAX_PATH \<Longrightarrow>
   \<exists>st. winmm_DllMain ld DLL_PROCESS_ATTACH s = Inr (True, st)"
  by (simp add: winmm_DllMain_def winmm_attach_def Let_def split: prod.split)


section \<open>Theorems\<close>

text \<open>
  C14: the proxy is transparent.  After it was loaded, a call of any export arrives at the function of
  the same name in the system's library, if that could be loaded, and at address 0 otherwise; all
  192 exports are covered.
\<close>

theorem exports_reach_original:
  assumes "winmm_DllMain ld DLL_PROCESS_ATTACH winmm_start = Inr (ok, st)"
    and "h = LoadLibrary ld [] (GetSystemDirectory ld @ CHR 0x5C # ''winmm.dll'')"
  shows "call_export st name =
     (if name \<in> set (map fst winmm_exports) then Some (if h \<noteq> 0 then GetProcAddress ld h name else 0) else None) \<and>
     length winmm_exports = 192"
proof -
  have names: "map fst winmm_exports = winmm_members" by (simp add: exports_members comp_def)
  have "procs st = (\<lambda>m. if m \<in> set winmm_members \<and> h \<noteq> 0 then GetProcAddress ld h m else 0)"
    using assms
    by (auto simp: winmm_DllMain_def winmm_attach_def load_library_def winmm_start_def Let_def
        procs_LoadOriginalLibrary split: if_splits)
  moreover have "length winmm_exports = 192" using length_members by (simp add: exports_members)
  ultimately show ?thesis by (simp add: call_export_member names)
qed

definition demo_loader :: "string \<Rightarrow> loader" where
  "demo_loader path = \<lparr>GetSystemDirectory = ''C:'', process_path = path,
     LoadLibrary = (\<lambda>h p. 0x70000000), GetProcAddress = (\<lambda>h name. h + word_of_nat (length name))\<rparr>"

theorem exports_reach_original_witness:
  "\<exists>st. winmm_DllMain (demo_loader ''game/isaac-ng.exe'') DLL_PROCESS_ATTACH winmm_start = Inr (True, st) \<and>
     call_export st ''timeGetTime'' = Some 0x7000000B"
proof -
  let ?ld = "demo_loader ''game/isaac-ng.exe''"
  obtain st where st: "winmm_DllMain ?ld DLL_PROCESS_ATTACH winmm_start = Inr (True, st)"
    using winmm_attach_returns [of ?ld winmm_start] by (auto simp: demo_loader_def MAX_PATH_def)
  have "''timeGetTime'' \<in> fst ` set winmm_exports"
    by (simp add: winmm_exports_def winmm_exports_mmio_def image_Un)
  then show ?thesis
    using exports_reach_original [OF st refl, of "''timeGetTime''"] st by (auto simp: demo_loader_def)
qed

text \<open>
  C29: the hook is loaded into the game and nowhere else.  The first library that is loaded is the
  system's; the hook follows exactly if the file name of the process is that of the game, in
  whatever case, and it is taken from the directory of the process.  Unloading releases the
  system's library again.
\<close>

theorem hook_loaded_into_game_only:
  assumes "winmm_DllMain ld DLL_PROCESS_ATTACH winmm_start = Inr (ok, st)"
    and "path_parts (process_path ld) dir base"
    and "h = LoadLibrary ld [] (GetSystemDirectory ld @ CHR 0x5C # ''winmm.dll'')"
  shows "\<exists>h'. loader_hist st = LLoadLibrary (GetSystemDirectory ld @ CHR 0x5C # ''winmm.dll'') h #
       (if lowercase base = ''isaac-ng.exe'' then [LLoadLibrary (dir @ ''p2p_hook.dll'') h'] else []) \<and>
     (\<exists>st'. winmm_DllMain ld DLL_PROCESS_DETACH st = Inr (True, st') \<and>
        loader_hist st' = loader_hist st @ (if h \<noteq> 0 then [LFreeLibrary h] else []))"
proof -
  have low: "lowercase ''isaac-ng.exe'' = ''isaac-ng.exe''" by (simp add: lowercase_def tolower_def)
  show ?thesis
    using assms process_parts [OF assms(2)]
    by (auto simp: winmm_DllMain_def winmm_attach_def load_library_def winmm_start_def LoadOriginalLibrary_def low Let_def
        split: if_splits)
qed

theorem hook_loaded_into_game_only_witness:
  "\<exists>st h'. winmm_DllMain (demo_loader ''game/Isaac-NG.exe'') DLL_PROCESS_ATTACH winmm_start = Inr (True, st) \<and>
     last (loader_hist st) = LLoadLibrary ''game/p2p_hook.dll'' h'"
proof -
  let ?ld = "demo_loader ''game/Isaac-NG.exe''"
  obtain st where st: "winmm_DllMain ?ld DLL_PROCESS_ATTACH winmm_start = Inr (True, st)"
    using winmm_attach_returns [of ?ld winmm_start] by (auto simp: demo_loader_def MAX_PATH_def)
  have "path_parts (process_path ?ld) ''game/'' ''Isaac-NG.exe''"
    by (simp add: path_parts_def demo_loader_def is_separator_def)
  moreover have "lowercase ''Isaac-NG.exe'' = ''isaac-ng.exe''"
    by (simp add: lowercase_def tolower_def char_of_def bit_0)
  ultimately show ?thesis using hook_loaded_into_game_only [OF st _ refl] st by fastforce
qed

end
