(* ===== verification/Spec2Isabelle.thy ===== *)
theory Spec2Isabelle
  imports Wire_Theorems Server_Theorems Server_Shell Hook_Theorems Winmm
begin

text \<open>
  A verification of the peer-to-peer relay for The Binding of Isaac.

  \<^bold>\<open>The program.\<close>  Players' games talk to each other through a relay server on Linux.  A DLL inside
  the game hooks Steam's packet calls (\<open>hook/hook.cpp\<close>, loaded by the proxy DLL \<open>winmm/winmm.cpp\<close>) and
  sends each packet through the client library (\<open>src/\<close>, \<open>include/\<close>) to the server
  (\<open>server/main.cpp\<close>).  On the wire every packet is a four byte little-endian length and that many
  bytes.  The first packet of a client is its eight byte mark; every later one is the mark of the
  addressee and a payload, which the server forwards, framed again, without the mark.

  \<^bold>\<open>The theories.\<close>
  \<^item> \<open>Relay_Prelude\<close>: machine types, \<open>std::unordered_map\<close> as an association list behind the interface
    \<open>unordered_map\<close>, byte order, \<open>memcpy\<close>.
  \<^item> \<open>Wire_Codec\<close>: the length codec, the mark keys and the frame builder of server and client; the
    interface \<open>framing\<close> of a stream parser, from which independence of chunking follows.
  \<^item> \<open>Packet_Queue\<close>: \<open>src/packet_queue.h\<close> and \<open>.cpp\<close>; instances of the interfaces \<open>fifo\<close> (the queue)
    and \<open>framing\<close> (\<open>ReceiveBuffer\<close> with the parsing loop of \<open>processRead\<close>).  \<open>Wire_Theorems\<close> holds the
    theorems of these two layers.
  \<^item> \<open>Server_Os\<close>: the system calls of the server as a parameter \<open>os\<close>, and what a history of calls says
    about descriptors.  \<open>Relay_Server\<close>: \<open>struct Connection\<close>, the globals \<open>g_connections\<close>,
    \<open>g_mark_to_fd\<close>, \<open>g_running\<close> and \<open>g_stat_*\<close> (the record \<open>server\<close>) and every function that works on
    them, under its C++ name.  \<open>Server_Main\<close>: \<open>main\<close>, cut into start-up, one round of the loop with its
    performance report, one event, clean-up.
  \<^item> \<open>Server_Invariant\<close>: every handler is a sequence of atomic steps; the contract \<open>server_property\<close>
    of an invariant and its two instances.  \<open>Server_Safety\<close>: reachable states, descriptors, use after
    free.  \<open>Server_Events\<close>: the contract \<open>event_invariant\<close> of a property that holds between events;
    no lost wake-ups.
  \<^item> \<open>Relay_Spec\<close>: the abstract relay, with neither sockets nor buffers.  \<open>Relay_Refinement\<close>: the server
    implements it.  \<open>Server_Theorems\<close>: the resulting theorems and two defects.
  \<^item> \<open>Winsock\<close>: the network and the clock as a parameter \<open>net\<close>.  \<open>Connection_Manager\<close>:
    \<open>src/connection_manager.h\<close> and \<open>.cpp\<close>, the record \<open>manager\<close> and one definition per method.
    \<open>Client_Streams\<close>: what is sent and received.  \<open>P2P_Network\<close>: the exported C functions of
    \<open>src/p2p_network.cpp\<close>, on a record that extends \<open>manager\<close> with the globals of that file.
    \<open>Client_Invariant\<close>: the contract \<open>manager_property\<close> and the invariant of the library in every
    state that an application can reach (\<open>used\<close>), whose callback makes calls itself
    (\<open>calling_callback\<close>).  \<open>Client_Theorems\<close>: the theorems and the defects.
  \<^item> \<open>C_Strings\<close>: what the program uses of the C and C++ string library.  \<open>Server_Shell\<close>: the server's
    logger and command line.
  \<^item> \<open>Callback_Safety\<close>: callbacks that keep the iterators of the connection manager valid, and the growth
    of the history as another instance of \<open>manager_property\<close>.
  \<^item> \<open>Hook\<close>: \<open>hook/hook.cpp\<close>, on a record that extends the client library's state with the globals of
    that file, the memory of the game and the history of calls to Windows and Steam (parameter \<open>host\<close>).
    \<open>Hook_Safety\<close>: all orders of game calls and rounds of the threads (\<open>hooked\<close>), the invariant
    \<open>hook_inv\<close>.
    \<open>Hook_Streams\<close>: what the game's packets become on the wire and back.  \<open>Hook_Liveness\<close>: a lost
    connection comes back.  \<open>Hook_Memory\<close>: the virtual table and the configuration file.
    \<open>Hook_Theorems\<close>: the theorems.
  \<^item> \<open>Winmm_Tables\<close> and \<open>Winmm\<close>: \<open>winmm/winmm.cpp\<close> and \<open>winmm/x86.def\<close>, the four tables of the proxy DLL
    line by line, and its other functions with their theorems.
  \<^item> this theory: a packet on its way from one player's client through the server to another player's
    client, and from one game to another.

  \<^bold>\<open>How the code is modelled.\<close>  Stateful functions take and return the state.  Calls into the operating
  system are answered by \<open>os\<close> or \<open>net\<close>, arbitrary functions of everything that happened before; each
  call and its answer are put on a history, which is the observable behaviour.  What a theorem needs of
  these parameters is a named hypothesis (\<open>os_read_bounded\<close>, \<open>os_accept_fresh\<close>, \<open>net_recv_finite\<close> and so
  on, each a documented property of the call).  Integers keep their width (\<open>u16\<close>, \<open>u32\<close>, \<open>u64\<close>); sizes of
  containers are natural numbers.  A C++ reference or iterator is the key of the entry; using it after
  the entry was erased is the result \<open>UseAfterFree\<close> (server) or \<open>IteratorInvalidated\<close> (client, when the
  application's callback removes the peer in question, adds one, or changes \<open>m_pendingRemove\<close> while the
  library iterates over it, which the model sees by comparing the vector before and after).  The
  application's callback is a function on the whole state.  An \<open>fd_set\<close> holds at most 64 sockets.  Loops that provably end are total functions with a measure (\<open>flush_loop\<close>, \<open>packet_loop\<close>,
  \<open>parse_packets\<close>); those that depend on the outside world (\<open>main_loop\<close>, \<open>processRead\<close>, \<open>accept_loop\<close>) are
  partial functions with the value \<open>None\<close> for running for ever, so no fuel occurs.  The hook's two threads
  are modelled one round at a time, each round and each call of the game being one step (what can
  happen when they overlap is shown for one case, by a callback that another thread interrupts); the loops
  \<open>game_sends\<close>, \<open>game_receives\<close> and \<open>polls\<close> are the callers, not part of the code.  The hook and the proxy are
  the 32-bit build: the proxy's inline assembly exists for that one only.  The order of an
  association list stands for the unspecified iteration order of the hash table.

  \<^bold>\<open>What is shown.\<close>  Server: the tables are consistent in all reachable states; reading refines the
  abstract relay, and forwarding is complete, unchanged and in order, however TCP cuts the stream, as long
  as no write fails for good; a writable connection is flushed, or closed if a write fails; no wake-up is lost and no input gets stuck; all descriptors are closed at exit; the
  packet loop is memory safe unless a client's own socket fails while it writes to itself.  Client: the
  parser is exact, received packets do not depend on chunking and reading ends; sending keeps the stream
  in order when nothing is buffered, and \<open>processWrite\<close> always; peers stay consistent under all calls,
  also those of callbacks; broken peers are closed and removed or scheduled; connecting leaks no socket;
  reconnection delays are a capped exponential.  Hook: what one game sends, the other receives, complete,
  in order and with the right sender, on connections that work; no order of whole calls invalidates an
  iterator, and the only overruns are those of a buffer that is too small; hooking is transparent and
  undone by unhooking; the configuration file is read as documented; a lost connection is established
  and registered again.
  Proxy: every export reaches the original function; the hook is loaded into the game only.
  Defects found by the model are theorems, too: a use after free and a double close in the server,
  packets that overtake buffered bytes, a cancelled reconnection and a vector that is changed while it is
  iterated in the client, a copy that ignores the size of the game's buffer, an exception that leaves
  \<open>DllMain\<close>, and an unloading that erases the peer the pump thread is working on in the hook.

  \<^bold>\<open>What is not modelled.\<close>  Which lines are logged or traced, and the usage text; interleavings inside a
  call of the client library: the hook's pump thread, the game's thread and \<open>DllMain\<close> call it without a
  lock outside \<open>PacketQueue\<close>, so calls can overlap and race, while a step of \<open>hooked\<close> is a whole call, and
  the theorems on \<open>hooked\<close> hold for executions in which calls do not overlap; the threads of the hook after the DLL was
  unmapped; exhaustion of memory; the Windows loader and the Steam client, which are parameters.
  Still to come: sockets of the client library over a whole run, and a simulation of the whole event
  loop by the abstract relay.
\<close>

section \<open>From one player to another\<close>

text \<open>What \<open>sendPacket\<close> puts on the wire for a payload addressed to a mark.\<close>

definition message :: "bytes \<Rightarrow> bytes \<Rightarrow> bytes" where
  "message m p = createSendFrame (m @ p) (word_of_nat (length (m @ p)))"

lemma message_frame:
  assumes "server_payload (m @ p)"
  shows "message m p = frame (m @ p)"
proof -
  have "length (m @ p) < 2 ^ 32" using assms by (simp add: server_payload_def BUFFER_SIZE_def LENGTH_SIZE_def)
  then show ?thesis unfolding message_def by (intro createSendFrame_frame) (simp only: unat_of_nat, simp)
qed

lemma server_payload_client:
  "server_payload (m @ p) \<Longrightarrow> p \<noteq> [] \<Longrightarrow> client_payload p"
  by (simp add: server_payload_def client_payload_def BUFFER_SIZE_def LENGTH_SIZE_def)

lemma client_drain_frames:
  "\<forall>p \<in> set ps. client_payload p \<Longrightarrow> client_drain (concat (map frame ps)) = (ps, [])"
  using rx.drain_stream [of ps "[]"] by (simp add: rx.partial_def)

text \<open>
  C2: packets travel from one client through the relay to another one unchanged, complete and in
  order.  The sender frames each message, a mark followed by a payload, with \<open>createSendFrame\<close>;
  the server reads these bytes; then the parser of the client that registered a mark finds in its
  stream the packets it was sent before, followed by exactly the payloads addressed to its mark.  No
  write of the server fails for good.
\<close>

theorem relayed_packets_arrive:
  assumes "os_sane os" and "os_write_no_error os" and "server_inv st" and "settled st"
    and "conn_at st k = Some c" "registered c" "recv_len c = 0"
    and "os_read os (sys_hist st) k BUFFER_SIZE =
      Inr (concat (map (\<lambda>(m, p). message m p) msgs))"
    and "msgs \<noteq> []"
      "\<forall>(m, p) \<in> set msgs. length m = MARK_SIZE \<and> p \<noteq> [] \<and> server_payload (m @ p)"
    and "conn_at st t = Some tc" "registered tc"
    and "sent_bytes t (sys_hist st) @ send_buf tc = concat (map frame earlier)"
      "\<forall>p \<in> set earlier. client_payload p"
  shows "\<exists>st' tc'. handle_client_data os k st = Inr st' \<and> conn_at st' t = Some tc' \<and>
     client_drain (sent_bytes t (sys_hist st') @ send_buf tc') =
       (earlier @ map snd (filter (\<lambda>(m, p). m = mark tc) msgs), [])"
proof -
  let ?ps = "map snd (filter (\<lambda>(m, p). m = mark tc) msgs)"
  have "map (\<lambda>(m, p). message m p) msgs = map (\<lambda>(m, p). frame (m @ p)) msgs"
    using assms(10) message_frame by (intro map_cong) auto
  then have rd: "os_read os (sys_hist st) k BUFFER_SIZE = Inr (concat (map (\<lambda>(m, p). frame (m @ p)) msgs))"
    using assms(8) by (simp only:)
  obtain st' tc' where st': "handle_client_data os k st = Inr st'" "conn_at st' t = Some tc'"
    "sent_bytes t (sys_hist st') @ send_buf tc' = concat (map frame (earlier @ ?ps))"
    using server_forward [OF assms(1-7) rd assms(9-12)] assms(13)
    by (auto simp: comp_def case_prod_unfold)
  have "\<forall>p \<in> set (earlier @ ?ps). client_payload p"
    using assms(10,14) server_payload_client by auto
  from client_drain_frames [OF this] show ?thesis using st' by metis
qed

theorem relayed_packets_arrive_witness:
  "\<exists>st' tc'. handle_client_data talking_os 5 two_players = Inr st' \<and> conn_at st' 6 = Some tc' \<and>
     client_drain (sent_bytes 6 (sys_hist st') @ send_buf tc') = ([[7, 8, 9]], [])"
proof -
  have sp: "server_payload (mark2 @ [7, 8, 9])" and len: "length mark2 = MARK_SIZE"
    by (simp_all add: server_payload_def mark2_def BUFFER_SIZE_def LENGTH_SIZE_def MARK_SIZE_def)
  have "talk = message mark2 [7, 8, 9]" using message_frame [OF sp] by (simp add: talk_def)
  then show ?thesis
    using relayed_packets_arrive [OF talking_os_ok two_players_inv two_players_settled,
        of 5 "player 5 mark1" "[(mark2, [7, 8, 9])]" 6 "player 6 mark2" "[]"] sp len
    by (simp add: talking_read)
qed


section \<open>From one game to another\<close>

text \<open>The data that a list of sends addresses to one player.\<close>

definition addressed_to :: "CSteamID \<Rightarrow> (CSteamID \<times> bytes) list \<Rightarrow> bytes list" where
  "addressed_to sid sends = map snd (filter (\<lambda>p. fst p = sid) sends)"

lemma game_packets_forwarded:
  assumes sender: "connected_to_relay stA pid conn" "net_takes_all netA"
      "game_sends hostA netA objA ty chA sends stA = Inr stA'"
      "net_sent (socket conn) (net_hist stA') = net_sent (socket conn) (net_hist stA) @ bs"
      "\<forall>(to, d) \<in> set sends. server_payload (game_packet to (g_localSteamID stA) d)"
    and relay: "os_sane os" "os_write_no_error os" "server_inv st" "settled st"
      "conn_at st k = Some c" "registered c" "recv_len c = 0" "reads os k st pieces st'" "concat pieces = bs"
      "conn_at st t = Some tc" "registered tc" "mark tc = steam_id_bytes idB"
  shows "\<exists>tc'. conn_at st' t = Some tc' \<and>
     sent_bytes t (sys_hist st') @ send_buf tc' = sent_bytes t (sys_hist st) @ send_buf tc @
       concat (map (\<lambda>d. frame (steam_id_bytes (g_localSteamID stA) @ d)) (addressed_to idB sends))"
proof -
  let ?a = "g_localSteamID stA"
  let ?msgs = "map (\<lambda>p. (steam_id_bytes (fst p), steam_id_bytes ?a @ snd p)) sends"
  have "\<forall>(to, d) \<in> set sends. length d + 16 < 2 ^ 32"
    using sender(5) by (auto simp: server_payload_def game_packet_def BUFFER_SIZE_def LENGTH_SIZE_def)
  from game_sends_stream [OF sender(1) this sender(2), of hostA objA ty chA] sender(3,4)
  have "bs = concat (map (\<lambda>(m, p). frame (m @ p)) ?msgs)"
    by (auto simp: game_packet_def comp_def case_prod_unfold)
  moreover have "\<forall>(m, p) \<in> set ?msgs. length m = MARK_SIZE \<and> p \<noteq> [] \<and> server_payload (m @ p)"
    using sender(5) by (auto simp: game_packet_def MARK_SIZE_def)
  ultimately have "\<exists>tc'. conn_at st' t = Some tc' \<and>
     sent_bytes t (sys_hist st') @ send_buf tc' = sent_bytes t (sys_hist st) @ send_buf tc @
       concat (map (\<lambda>(m, p). frame p) (filter (\<lambda>(m, p). m = mark tc) ?msgs))"
    using reads_forward [OF relay(8,1-7), of ?msgs t tc] relay(9-11) by simp
  then show ?thesis
    by (simp add: relay(12) addressed_to_def filter_map comp_def case_prod_unfold steam_id_bytes_inject)
qed


lemma relay_packets_queued:
  assumes "net_recv_bounded net" and "peer_at st pid = Some conn" and "processRead net pid st = Some st1"
    and "m_buffer (recvBuffer conn) = []" and "m_queue (receiveQueue conn) = []"
    and "net_received (socket conn) (net_hist st1) = net_received (socket conn) (net_hist st) @
      concat (map (\<lambda>d. frame (steam_id_bytes sid @ d)) ds)"
    and "\<forall>d \<in> set ds. client_payload (steam_id_bytes sid @ d)"
    and "peers_up st1" and "map fst (m_connections st1) = [pid]" and "pid \<noteq> P2P_INVALID_PEER_ID"
  shows "relay_queue st1 (map (\<lambda>d. (sid, d)) ds)"
proof -
  let ?ps = "map (\<lambda>d. steam_id_bytes sid @ d) ds"
  have "client_payload [9]" "strict_prefix [] (frame [9])" by (simp_all add: client_payload_def frame_def le_bytes_4)
  then have pf: "partial_frame []" unfolding partial_frame_def by blast
  obtain conn' where c': "peer_at st1 pid = Some conn'"
    "m_queue (receiveQueue conn') = map (\<lambda>p. \<lparr>pkt_data = p\<rparr>) ?ps"
    using processRead_stream [OF assms(1-3,6), of ?ps "[]"] assms(4,5,7) pf by (auto simp: comp_def)
  moreover have "m_connections st1 = [(pid, conn')]"
    using assms(9) c'(1) by (auto simp: um_find_def)
  moreover have "list_all fits (map (\<lambda>d. (sid, d)) ds)"
    using assms(7) by (auto simp: list_all_iff fits_def client_payload_def)
  ultimately show ?thesis using assms(8,10) by (auto simp: relay_queue_def relay_packet_def)
qed

text \<open>
  C1: what one game sends, the other one receives.  The game of the first player calls
  \<open>SendP2PPacket\<close> any number of times, with packets that fit the server's buffer; the server reads the
  bytes that the hook put on the wire, in any number of pieces, cut anywhere; the client library of the
  second player reads what the server sent it, in pieces again.  Then the second game, asking and
  reading, gets exactly the data that was addressed to it, complete, in order, and with the identifier
  of the first player.

  The theorem is about connections that work: the socket of the sender takes each packet as a whole
  (\<open>net_takes_all\<close>; a partial send can tear packets apart, which is one of the defects found), no write of the server fails for good
  (\<open>os_write_no_error\<close>; it may take fewer bytes than it was given or be told to wait), both players are
  registered, the sender has no unfinished packet at the server and the receiver no earlier one in its
  queue or buffer, and nothing else arrives at the receiver while the game collects the packets
  (\<open>net_quiet\<close>).
\<close>

theorem game_packets_arrive:
  assumes sender: "connected_to_relay stA pid conn" "net_takes_all netA"
      "game_sends hostA netA objA ty chA sends stA = Inr stA'"
      "net_sent (socket conn) (net_hist stA') = net_sent (socket conn) (net_hist stA) @ bs"
      "\<forall>(to, d) \<in> set sends. server_payload (game_packet to (g_localSteamID stA) d)"
    and relay: "os_sane os" "os_write_no_error os" "server_inv st" "settled st"
      "conn_at st k = Some c" "registered c" "recv_len c = 0" "reads os k st pieces st'" "concat pieces = bs"
      "conn_at st t = Some tc" "registered tc" "mark tc = steam_id_bytes idB" "conn_at st' t = Some tc'"
      "sent_bytes t (sys_hist st') @ send_buf tc' = (sent_bytes t (sys_hist st) @ send_buf tc) @ new"
    and receiver: "net_recv_bounded netB" "peer_at stB pidB = Some connB" "processRead netB pidB stB = Some stB'"
      "m_buffer (recvBuffer connB) = []" "m_queue (receiveQueue connB) = []"
      "net_received (socket connB) (net_hist stB') = net_received (socket connB) (net_hist stB) @ new"
      "peers_up stB'" "map fst (m_connections stB') = [pidB]" "pidB \<noteq> P2P_INVALID_PEER_ID"
      "\<not> g_hasTcpData stB'" "net_quiet netB"
  shows "\<exists>stB''. game_receives hostB netB objB chB (length sends) stB' =
     Some (Inr (map (\<lambda>d. (g_localSteamID stA, d)) (addressed_to idB sends), stB''))"
proof -
  let ?ds = "addressed_to idB sends"
  have new: "new = concat (map (\<lambda>d. frame (steam_id_bytes (g_localSteamID stA) @ d)) ?ds)"
    using game_packets_forwarded [OF sender relay(1-12)] relay(13,14) by auto
  have "\<forall>d \<in> set ?ds. client_payload (steam_id_bytes (g_localSteamID stA) @ d)"
    using sender(5) server_payload_client by (fastforce simp: addressed_to_def game_packet_def)
  from relay_packets_queued [OF receiver(1-5) receiver(6) [unfolded new] this receiver(7-9)]
  have "relay_queue stB' (map (\<lambda>d. (g_localSteamID stA, d)) ?ds)" .
  from game_receives_queue [OF receiver(11) this receiver(10), of hostB objB chB "length sends"]
  show ?thesis by (simp add: addressed_to_def)
qed

definition open_net :: "bytes list \<Rightarrow> net" where
  "open_net pieces = (demo_net pieces length)\<lparr>net_send := \<lambda>h s buf. Inr (length buf)\<rparr>"

definition playing :: "CSteamID \<Rightarrow> hook" where
  "playing sid = (hook_start demo_memory)
     \<lparr>m_initialized := True, g_manager := True, g_connectedPeer := 1, g_localSteamID := sid,
      m_connections := [(1, demo_peer)]\<rparr>"

definition game_talk :: bytes where "game_talk = frame (game_packet 2 1 [7, 8, 9])"

definition game_os :: os where
  "game_os = calm_os\<lparr>os_read := \<lambda>h k n. Inr (take n game_talk)\<rparr>"

lemma game_os_ok: "os_sane game_os" "os_write_no_error game_os"
  unfolding game_os_def by (rule calm_variant; simp add: os_read_bounded_def)+

lemma playing_simps:
  "connected_to_relay (playing sid) 1 demo_peer" "g_localSteamID (playing sid) = sid" "net_hist (playing sid) = []"
  "peer_at (playing sid) 1 = Some demo_peer"
  by (simp_all add: connected_to_relay_def playing_def usable_def hook_start_def p2p_start_def manager_new_def
      manager.defs p2p.defs hook.defs P2P_INVALID_PEER_ID_def)

lemma player_marks: "steam_id_bytes 1 = mark1" "steam_id_bytes 2 = mark2"
proof -
  have eight: "8 = Suc (Suc (Suc (Suc (Suc (Suc (Suc (Suc 0)))))))" by simp
  show "steam_id_bytes 1 = mark1" "steam_id_bytes 2 = mark2"
    by (simp_all only: steam_id_bytes_def eight le_bytes.simps) (simp_all add: mark1_def mark2_def)
qed

lemma playing_reads:
  obtains st where "processRead (open_net [frame (mark1 @ [7, 8, 9])]) 1 (playing 2) = Some st"
    "net_received 7 (net_hist st) = frame (mark1 @ [7, 8, 9])" "peers_up st" "map fst (m_connections st) = [1]"
    "\<not> g_hasTcpData st"
proof -
  have len: "length (frame (mark1 @ [7, 8, 9])) = 15" by (simp add: mark1_def)
  have ne: "frame (mark1 @ [7, 8, 9]) \<noteq> []" by (simp add: frame_def le_bytes_4)
  have "\<exists>c e1 e2. processRead (open_net [frame (mark1 @ [7, 8, 9])]) 1 (playing 2) =
      Some (log_call e2 (set_peer 1 c (log_call e1 (playing 2)))) \<and> connected c \<and>
      net_received 7 [e2, e1] = frame (mark1 @ [7, 8, 9])"
    using len ne
    by (simp add: processRead.simps recv_call_eq demo_net_def open_net_def receive_count_def playing_simps
        RECV_BUFFER_SIZE_def parse_packets_eq wouldBlock_def Let_def) (intro exI conjI, auto)
  then obtain c e1 e2 where run: "processRead (open_net [frame (mark1 @ [7, 8, 9])]) 1 (playing 2) =
      Some (log_call e2 (set_peer 1 c (log_call e1 (playing 2))))" "connected c"
      "net_received 7 [e2, e1] = frame (mark1 @ [7, 8, 9])" by blast
  show thesis
    using that [OF run(1)] run(2,3)
    by (simp add: playing_simps) (simp add: playing_def peers_up_def usable_def set_peer_def log_call_def
        hook_start_def p2p_start_def manager_new_def manager.defs p2p.defs hook.defs um_find_def)
qed

theorem game_packets_arrive_witness:
  "\<exists>stB' stB''. processRead (open_net [frame (steam_id_bytes 1 @ [7, 8, 9])]) 1 (playing 2) = Some stB' \<and>
     game_receives (demo_host no_files) (open_net [frame (steam_id_bytes 1 @ [7, 8, 9])]) 0x500000 0 1 stB' =
       Some (Inr ([(1, [7, 8, 9])], stB''))"
proof -
  let ?sends = "[(2, [7, 8, 9])] :: (CSteamID \<times> bytes) list"
  let ?new = "frame (mark1 @ [7, 8, 9])"
  have sp: "\<forall>(to, d) \<in> set ?sends. server_payload (game_packet to (g_localSteamID (playing 1)) d)"
    by (simp add: server_payload_def game_packet_def BUFFER_SIZE_def LENGTH_SIZE_def)
  have nt: "net_takes_all (open_net [])" and nb: "net_recv_bounded (open_net [?new])" and nq: "net_quiet (open_net [?new])"
    by (simp_all add: net_takes_all_def net_recv_bounded_def net_quiet_def open_net_def demo_net_def)
  obtain stA' where A: "game_sends (demo_host no_files) (open_net []) 0x500000 0 0 ?sends (playing 1) = Inr stA'"
    "net_sent 7 (net_hist stA') = game_talk"
    using game_sends_stream [OF playing_simps(1) _ nt, of ?sends "demo_host no_files" "0x500000" 0 0 1]
    by (auto simp: playing_simps game_talk_def)
  have rd: "os_read game_os (sys_hist two_players) 5 BUFFER_SIZE = Inr game_talk"
    by (simp add: game_os_def game_talk_def game_packet_def BUFFER_SIZE_def)
  obtain st' where "handle_client_data game_os 5 two_players = Inr st'"
    using handle_client_data_spec [OF game_os_ok two_players_inv two_players_settled, of 5 "player 5 mark1"] by auto
  then have R: "reads game_os 5 two_players [game_talk] st'"
    using rd reads.none by (intro reads.piece [of _ _ "player 5 mark1"])
      (auto simp: game_talk_def frame_def le_bytes_4)
  note fw = game_packets_forwarded [OF playing_simps(1) nt A(1) _ sp game_os_ok two_players_inv two_players_settled _ _ _ R]
  obtain tc' where S: "conn_at st' 6 = Some tc'" "sent_bytes 6 (sys_hist st') @ send_buf tc' = ?new"
    using fw [where c = "player 5 mark1" and bs = game_talk and t = 6 and tc = "player 6 mark2" and idB = 2] A(2)
    by (auto simp: playing_simps player_marks addressed_to_def)
  obtain stB' where B: "processRead (open_net [?new]) 1 (playing 2) = Some stB'"
    "net_received 7 (net_hist stB') = ?new" "peers_up stB'" "map fst (m_connections stB') = [1]" "\<not> g_hasTcpData stB'"
    by (rule playing_reads)
  show ?thesis
    using game_packets_arrive [OF playing_simps(1) nt A(1) _ sp game_os_ok two_players_inv two_players_settled _ _ _ R
        _ _ _ _ S(1) _ nb _ B(1) _ _ _ B(3,4) _ B(5) nq, where c = "player 5 mark1" and tc = "player 6 mark2"
        and bs = game_talk and idB = 2 and connB = demo_peer and new = ?new
        and hostB = "demo_host no_files" and objB = "0x500000" and chB = 0] A(2) S(2) B(1,2)
    by (simp add: playing_simps player_marks addressed_to_def P2P_INVALID_PEER_ID_def)
qed

end
